theory Spec2Isabelle
  imports Complex_Main
begin

section \<open>The radiation moment solver of radiation_system.hpp\<close>

text \<open>
  This development embeds the per-cell and per-face kernels of the class \<open>RadSystem\<close>
  (file radiation_system.hpp) and states the properties of its specification about them.

  Numbers. A C++ \<open>double\<close> is modelled by a real number: arithmetic is exact, there is no
  rounding and no overflow. Where the source can divide by zero, or itself stores an
  infinite value, the model says what IEEE arithmetic returns there, either by an explicit
  branch or by computing in the type \<open>xreal\<close> below. Signed zeros are not modelled.

  Assertions. \<open>AMREX_ASSERT\<close> and \<open>AMREX_ALWAYS_ASSERT\<close> abort the run; a kernel that can
  abort returns a value of type \<open>error + 'a\<close>.
\<close>

subsection \<open>Configuration\<close>

text \<open>
  The compile-time traits \<open>RadSystem_Traits\<close>, \<open>Physics_Traits\<close> (\<open>nGroups\<close>),
  \<open>Physics_Indices\<close> (\<open>radFirstIndex\<close>, here \<open>nstartHyperbolic\<close>) and \<open>EOS_Traits\<close>
  (\<open>boltzmann_constant\<close>, \<open>gamma\<close>, \<open>mean_molecular_weight\<close>), gathered in one record. The defaults of the source are
  \<open>c_hat = c_light\<close> and \<open>Erad_floor = 0\<close>.
\<close>

record RadSystem_Traits =
  c_light :: real
  c_hat :: real
  radiation_constant :: real
  Erad_floor :: real
  energy_unit :: real
  boltzmann_constant :: real
  nGroups :: nat
  nstartHyperbolic :: nat
  gamma :: real
  mean_molecular_weight :: real

text \<open>\<open>Erad_floor_\<close> of the source: the floor divided evenly across the groups.\<close>

definition Erad_floor_per_group :: "RadSystem_Traits \<Rightarrow> real" where
  "Erad_floor_per_group t = Erad_floor t / real (nGroups t)"

definition numRadVars :: nat where
  "numRadVars = 4"

definition nvarHyperbolic :: "RadSystem_Traits \<Rightarrow> nat" where
  "nvarHyperbolic t = numRadVars * nGroups t"

text \<open>The enumerations \<open>radVarIndex\<close> and \<open>primVarIndex\<close>.\<close>

definition radEnergy_index :: "RadSystem_Traits \<Rightarrow> nat" where
  "radEnergy_index t = nstartHyperbolic t"

definition x1RadFlux_index :: "RadSystem_Traits \<Rightarrow> nat" where
  "x1RadFlux_index t = nstartHyperbolic t + 1"

definition x2RadFlux_index :: "RadSystem_Traits \<Rightarrow> nat" where
  "x2RadFlux_index t = nstartHyperbolic t + 2"

definition x3RadFlux_index :: "RadSystem_Traits \<Rightarrow> nat" where
  "x3RadFlux_index t = nstartHyperbolic t + 3"

definition primRadEnergy_index :: nat where "primRadEnergy_index = 0"
definition x1ReducedFlux_index :: nat where "x1ReducedFlux_index = 1"
definition x2ReducedFlux_index :: nat where "x2ReducedFlux_index = 2"
definition x3ReducedFlux_index :: nat where "x3ReducedFlux_index = 3"

text \<open>Hyper-parameters of the solver (file scope constants of the source).\<close>

definition IMEX_a32 :: real where
  "IMEX_a32 = 0.5"

definition use_wavespeed_correction :: bool where
  "use_wavespeed_correction = False"

definition use_D_as_base :: bool where
  "use_D_as_base = True"

text \<open>
  Traits of a dimensionless problem with one group and the default floor, for the
  evaluation of the kernels on concrete inputs.
\<close>

definition unit_traits :: RadSystem_Traits where
  "unit_traits = \<lparr>c_light = 1, c_hat = 1, radiation_constant = 1, Erad_floor = 0,
     energy_unit = 1, boltzmann_constant = 1, nGroups = 1, nstartHyperbolic = 0,
     gamma = 5 / 3, mean_molecular_weight = 1\<rparr>"

datatype FluxDir = X1 | X2 | X3

datatype error =
    AssertFailed string
  | NotANumber string

subsection \<open>Fixed-size arrays\<close>

text \<open>
  Modelled from the spec: \<open>quokka::valarray\<close> (valarray.hpp) and \<open>clamp\<close> (math_impl.hpp)
  are not among the sources. A \<open>valarray<double, N>\<close> is a list of length \<open>N\<close> with
  element-wise arithmetic; \<open>sum\<close> adds the elements from the left, starting at zero.
\<close>

definition valarray_add :: "'a::plus list \<Rightarrow> 'a list \<Rightarrow> 'a list" where
  "valarray_add xs ys = map2 (+) xs ys"

definition valarray_sub :: "'a::minus list \<Rightarrow> 'a list \<Rightarrow> 'a list" where
  "valarray_sub xs ys = map2 (-) xs ys"

definition valarray_mul :: "'a::times list \<Rightarrow> 'a list \<Rightarrow> 'a list" where
  "valarray_mul xs ys = map2 (*) xs ys"

definition valarray_div :: "'a::inverse list \<Rightarrow> 'a list \<Rightarrow> 'a list" where
  "valarray_div xs ys = map2 (/) xs ys"

definition valarray_scale :: "'a::times \<Rightarrow> 'a list \<Rightarrow> 'a list" where
  "valarray_scale a xs = map (\<lambda>x. a * x) xs"

text \<open>An array times a scalar on the right.\<close>

definition valarray_times :: "'a::times list \<Rightarrow> 'a \<Rightarrow> 'a list" where
  "valarray_times xs a = map (\<lambda>x. x * a) xs"

definition valarray_sum :: "'a::{zero,plus} list \<Rightarrow> 'a" where
  "valarray_sum xs = foldl (+) 0 xs"

definition clamp :: "real \<Rightarrow> real \<Rightarrow> real \<Rightarrow> real" where
  "clamp v lo hi = (if v < lo then lo else if hi < v then hi else v)"

subsection \<open>Closure and pressure tensor\<close>

definition ComputeEddingtonFactor :: "real \<Rightarrow> real" where
  "ComputeEddingtonFactor f_in =
     (let f = clamp f_in 0 1;
          f_fac = sqrt (4 - 3 * (f * f));
          chi = (3 + 4 * (f * f)) / (5 + 2 * f_fac)
      in chi)"

text \<open>
  The direction \<open>n\<close> is the zero vector when \<open>f\<close> is not positive, so the division is
  guarded. The assertion on \<open>chi\<close> is kept.
\<close>

definition ComputeEddingtonTensor :: "real \<Rightarrow> real \<Rightarrow> real \<Rightarrow> error + real list list" where
  "ComputeEddingtonTensor fx fy fz =
     (let f = sqrt (fx * fx + fy * fy + fz * fz);
          fvec = [fx, fy, fz];
          n = map (\<lambda>ii. if f > 0 then fvec ! ii / f else 0) [0..<3];
          chi = ComputeEddingtonFactor f
      in if \<not> (chi \<ge> 1 / 3 \<and> chi \<le> 1) then Inl (AssertFailed ''chi'')
         else
           let Tdiag = (1 - chi) / 2;
               Tf = (3 * chi - 1) / 2
           in Inr (map (\<lambda>ii. map (\<lambda>jj.
                    let delta_ij = (if ii = jj then 1 else 0)
                    in Tdiag * delta_ij + Tf * (n ! ii * n ! jj)) [0..<3]) [0..<3]))"

record RadPressureResult =
  F :: "real list"
  S :: real

definition ComputeRadPressure ::
  "FluxDir \<Rightarrow> real \<Rightarrow> real \<Rightarrow> real \<Rightarrow> real \<Rightarrow> real \<Rightarrow> real \<Rightarrow> real \<Rightarrow> error + RadPressureResult" where
  "ComputeRadPressure DIR erad Fx Fy Fz fx fy fz =
     (if \<not> erad > 0 then Inl (AssertFailed ''erad > 0.0'')
      else case ComputeEddingtonTensor fx fy fz of
        Inl e \<Rightarrow> Inl e
      | Inr T \<Rightarrow>
          let Tnormal = (case DIR of X1 \<Rightarrow> T ! 0 ! 0 | X2 \<Rightarrow> T ! 1 ! 1 | X3 \<Rightarrow> T ! 2 ! 2);
              Fn = (case DIR of X1 \<Rightarrow> Fx | X2 \<Rightarrow> Fy | X3 \<Rightarrow> Fz);
              Tnx = (case DIR of X1 \<Rightarrow> T ! 0 ! 0 | X2 \<Rightarrow> T ! 1 ! 0 | X3 \<Rightarrow> T ! 2 ! 0);
              Tny = (case DIR of X1 \<Rightarrow> T ! 0 ! 1 | X2 \<Rightarrow> T ! 1 ! 1 | X3 \<Rightarrow> T ! 2 ! 1);
              Tnz = (case DIR of X1 \<Rightarrow> T ! 0 ! 2 | X2 \<Rightarrow> T ! 1 ! 2 | X3 \<Rightarrow> T ! 2 ! 2)
          in Inr \<lparr>F = [Fn, Tnx * erad, Tny * erad, Tnz * erad],
                  S = max 0.1 (sqrt Tnormal)\<rparr>)"

subsection \<open>State validity\<close>

text \<open>
  A state \<open>cons\<close> is the \<open>std::array\<close> of the \<open>nvarHyperbolic\<close> radiation variables of one
  cell, a list here; each function is the loop over the groups, and its body for one group.
  When \<open>E_r\<close> is zero the quotient \<open>f\<close> of the source is infinite or not a number;
  \<open>isNonNegative\<close> is false then, so the value of \<open>f\<close> does not matter.
\<close>

definition isStateValid_group :: "RadSystem_Traits \<Rightarrow> real list \<Rightarrow> nat \<Rightarrow> bool \<Rightarrow> bool" where
  "isStateValid_group t cons g isValid =
     (let E_r = cons ! (radEnergy_index t + numRadVars * g - nstartHyperbolic t);
          Fx = cons ! (x1RadFlux_index t + numRadVars * g - nstartHyperbolic t);
          Fy = cons ! (x2RadFlux_index t + numRadVars * g - nstartHyperbolic t);
          Fz = cons ! (x3RadFlux_index t + numRadVars * g - nstartHyperbolic t);
          Fnorm = sqrt (Fx * Fx + Fy * Fy + Fz * Fz);
          f = Fnorm / (c_light t * E_r);
          isNonNegative = (E_r > 0);
          isFluxCausal = (f \<le> 1)
      in isValid \<and> isNonNegative \<and> isFluxCausal)"

definition isStateValid :: "RadSystem_Traits \<Rightarrow> real list \<Rightarrow> bool" where
  "isStateValid t cons = fold (isStateValid_group t cons) [0..<nGroups t] True"

definition amendRadState_group :: "RadSystem_Traits \<Rightarrow> nat \<Rightarrow> real list \<Rightarrow> real list" where
  "amendRadState_group t g cons0 =
     (let E_r0 = cons0 ! (radEnergy_index t + numRadVars * g - nstartHyperbolic t);
          floored = (E_r0 < Erad_floor_per_group t);
          E_r = (if floored then Erad_floor_per_group t else E_r0);
          cons = (if floored
                  then cons0[radEnergy_index t + numRadVars * g - nstartHyperbolic t :=
                               Erad_floor_per_group t]
                  else cons0);
          Fx = cons ! (x1RadFlux_index t + numRadVars * g - nstartHyperbolic t);
          Fy = cons ! (x2RadFlux_index t + numRadVars * g - nstartHyperbolic t);
          Fz = cons ! (x3RadFlux_index t + numRadVars * g - nstartHyperbolic t)
      in if Fx * Fx + Fy * Fy + Fz * Fz > c_light t * c_light t * E_r * E_r
         then
           let Fnorm = sqrt (Fx * Fx + Fy * Fy + Fz * Fz)
           in cons[x1RadFlux_index t + numRadVars * g - nstartHyperbolic t :=
                     Fx / Fnorm * c_light t * E_r,
                   x2RadFlux_index t + numRadVars * g - nstartHyperbolic t :=
                     Fy / Fnorm * c_light t * E_r,
                   x3RadFlux_index t + numRadVars * g - nstartHyperbolic t :=
                     Fz / Fnorm * c_light t * E_r]
         else cons)"

definition amendRadState :: "RadSystem_Traits \<Rightarrow> real list \<Rightarrow> real list" where
  "amendRadState t cons = fold (amendRadState_group t) [0..<nGroups t] cons"

text \<open>
  The two conditions that \<open>isStateValid\<close> checks for group \<open>g\<close>, on the entries of the
  group: positive energy and a reduced flux of norm at most one.
\<close>

definition group_valid :: "RadSystem_Traits \<Rightarrow> real list \<Rightarrow> nat \<Rightarrow> bool" where
  "group_valid t cons g \<longleftrightarrow>
     cons ! (4 * g) > 0
     \<and> sqrt (cons ! (4 * g + 1) * cons ! (4 * g + 1) + cons ! (4 * g + 2) * cons ! (4 * g + 2)
             + cons ! (4 * g + 3) * cons ! (4 * g + 3)) / (c_light t * cons ! (4 * g)) \<le> 1"

text \<open>
  The four values that \<open>amendRadState\<close> leaves in the entries of a group, from the four
  values it finds there.
\<close>

definition amended_values :: "RadSystem_Traits \<Rightarrow> real \<Rightarrow> real \<Rightarrow> real \<Rightarrow> real \<Rightarrow> real list" where
  "amended_values t E_r0 Fx Fy Fz =
     (let E_r = (if E_r0 < Erad_floor_per_group t then Erad_floor_per_group t else E_r0);
          q = Fx * Fx + Fy * Fy + Fz * Fz
      in if q > c_light t * c_light t * E_r * E_r
         then [E_r, Fx / sqrt q * c_light t * E_r, Fy / sqrt q * c_light t * E_r,
               Fz / sqrt q * c_light t * E_r]
         else [E_r, Fx, Fy, Fz])"

text \<open>
  The three lines shared by \<open>PredictStep\<close> and \<open>AddFluxesRK2\<close>: amend an invalid state,
  then assert that the state is valid.
\<close>

definition enforce_validity :: "RadSystem_Traits \<Rightarrow> real list \<Rightarrow> error + real list" where
  "enforce_validity t cons =
     (let cons = (if \<not> isStateValid t cons then amendRadState t cons else cons)
      in if \<not> isStateValid t cons then Inl (AssertFailed ''isStateValid(cons)'')
         else Inr cons)"

subsection \<open>Cell arrays\<close>

text \<open>
  An \<open>amrex::Array4\<close> maps a cell \<open>(i, j, k)\<close> and a component to a value. A box
  (\<open>indexRange\<close>) is the list of its cells.
\<close>

type_synonym Array4 = "int \<Rightarrow> int \<Rightarrow> int \<Rightarrow> nat \<Rightarrow> real"

definition array_write :: "Array4 \<Rightarrow> int \<Rightarrow> int \<Rightarrow> int \<Rightarrow> nat \<Rightarrow> real \<Rightarrow> Array4" where
  "array_write a i j k n v =
     (\<lambda>i' j' k' n'. if i' = i \<and> j' = j \<and> k' = k \<and> n' = n then v else a i' j' k' n')"

text \<open>
  A uniform field for the evaluation of the kernels: in every cell and every group the
  first variable is \<open>e\<close>, the second is \<open>x\<close> and the others are zero.
\<close>

definition uniform_field :: "real \<Rightarrow> real \<Rightarrow> Array4" where
  "uniform_field e x = (\<lambda>i j k n. if n mod 4 = 0 then e else if n mod 4 = 1 then x else 0)"

subsection \<open>Conserved to primitive variables\<close>

text \<open>The body of the kernel of \<open>ConservedToPrimitive\<close> for one cell.\<close>

fun ConservedToPrimitive_groups ::
  "RadSystem_Traits \<Rightarrow> Array4 \<Rightarrow> int \<Rightarrow> int \<Rightarrow> int \<Rightarrow> nat list \<Rightarrow> Array4 \<Rightarrow> error + Array4" where
  "ConservedToPrimitive_groups t cons i j k [] primVar = Inr primVar"
| "ConservedToPrimitive_groups t cons i j k (g # gs) primVar =
     (let E_r = cons i j k (radEnergy_index t + numRadVars * g);
          Fx = cons i j k (x1RadFlux_index t + numRadVars * g);
          Fy = cons i j k (x2RadFlux_index t + numRadVars * g);
          Fz = cons i j k (x3RadFlux_index t + numRadVars * g)
      in if \<not> E_r > 0 then Inl (AssertFailed ''E_r > 0.0'')
         else
           let primVar = array_write primVar i j k (primRadEnergy_index + numRadVars * g) E_r;
               primVar = array_write primVar i j k (x1ReducedFlux_index + numRadVars * g)
                           (Fx / (c_light t * E_r));
               primVar = array_write primVar i j k (x2ReducedFlux_index + numRadVars * g)
                           (Fy / (c_light t * E_r));
               primVar = array_write primVar i j k (x3ReducedFlux_index + numRadVars * g)
                           (Fz / (c_light t * E_r))
           in ConservedToPrimitive_groups t cons i j k gs primVar)"

fun ConservedToPrimitive ::
  "RadSystem_Traits \<Rightarrow> Array4 \<Rightarrow> Array4 \<Rightarrow> (int \<times> int \<times> int) list \<Rightarrow> error + Array4" where
  "ConservedToPrimitive t cons primVar [] = Inr primVar"
| "ConservedToPrimitive t cons primVar ((i, j, k) # indexRange) =
     (case ConservedToPrimitive_groups t cons i j k [0..<nGroups t] primVar of
        Inl e \<Rightarrow> Inl e
      | Inr primVar' \<Rightarrow> ConservedToPrimitive t cons primVar' indexRange)"

subsection \<open>Interface flux solver\<close>

text \<open>
  The kernel of \<open>ComputeFluxes\<close> at one face, for one group. The arrays are indexed as the
  \<open>Array4View\<close> of the direction presents them: \<open>i\<close> runs along the face normal, and the
  cells adjacent to face \<open>i\<close> are \<open>i - 1\<close> and \<open>i\<close>.

  A side of the face is a pair: the conserved variables \<open>[erad, Fx, Fy, Fz]\<close> and the
  reduced flux \<open>[fx, fy, fz]\<close>.
\<close>

type_synonym face_side = "real list \<times> real list"

text \<open>The reconstructed states: the primitive variables read, and the fluxes un-reduced.\<close>

definition reconstructed_side :: "RadSystem_Traits \<Rightarrow> Array4 \<Rightarrow> int \<Rightarrow> int \<Rightarrow> int \<Rightarrow> nat \<Rightarrow> face_side" where
  "reconstructed_side t x1State i j k g =
     (let erad = x1State i j k (primRadEnergy_index + numRadVars * g);
          fx = x1State i j k (x1ReducedFlux_index + numRadVars * g);
          fy = x1State i j k (x2ReducedFlux_index + numRadVars * g);
          fz = x1State i j k (x3ReducedFlux_index + numRadVars * g);
          Fx = fx * (c_light t * erad);
          Fy = fy * (c_light t * erad);
          Fz = fz * (c_light t * erad)
      in ([erad, Fx, Fy, Fz], [fx, fy, fz]))"

text \<open>The first-order states: the conserved variables of a cell, and its primitives.\<close>

definition donor_side :: "RadSystem_Traits \<Rightarrow> Array4 \<Rightarrow> int \<Rightarrow> int \<Rightarrow> int \<Rightarrow> nat \<Rightarrow> face_side" where
  "donor_side t consVar i j k g =
     (let erad = consVar i j k (radEnergy_index t + numRadVars * g);
          Fx = consVar i j k (x1RadFlux_index t + numRadVars * g);
          Fy = consVar i j k (x2RadFlux_index t + numRadVars * g);
          Fz = consVar i j k (x3RadFlux_index t + numRadVars * g);
          fx = Fx / (c_light t * erad);
          fy = Fy / (c_light t * erad);
          fz = Fz / (c_light t * erad)
      in ([erad, Fx, Fy, Fz], [fx, fy, fz]))"

definition reduced_flux_norm :: "face_side \<Rightarrow> real" where
  "reduced_flux_norm s =
     (let fx = snd s ! 0; fy = snd s ! 1; fz = snd s ! 2
      in sqrt (fx * fx + fy * fy + fz * fz))"

text \<open>
  The admissibility check and the choice of the states (the part of the loop body before
  the call of \<open>ComputeRadPressure\<close>).
\<close>

definition gather_states ::
  "RadSystem_Traits \<Rightarrow> Array4 \<Rightarrow> Array4 \<Rightarrow> Array4 \<Rightarrow> int \<Rightarrow> int \<Rightarrow> int \<Rightarrow> nat \<Rightarrow> face_side \<times> face_side" where
  "gather_states t x1LeftState x1RightState consVar i j k g =
     (let left = reconstructed_side t x1LeftState i j k g;
          right = reconstructed_side t x1RightState i j k g;
          erad_L = fst left ! 0;
          erad_R = fst right ! 0;
          f_L = reduced_flux_norm left;
          f_R = reduced_flux_norm right
      in if erad_L \<le> 0 \<or> erad_R \<le> 0 \<or> f_L \<ge> 1 \<or> f_R \<ge> 1
         then (donor_side t consVar (i - 1) j k g, donor_side t consVar i j k g)
         else (left, right))"

text \<open>
  The two calls of \<open>ComputeRadPressure\<close> and the scaling by the reduced speed of light:
  the result is \<open>(F_L, S_L, F_R, S_R)\<close>.
\<close>

definition scale_pressure :: "RadSystem_Traits \<Rightarrow> real list \<Rightarrow> real list" where
  "scale_pressure t F0 =
     (let F1 = F0[0 := F0 ! 0 * (c_hat t / c_light t)]
      in fold (\<lambda>n Fn. Fn[n := Fn ! n * (c_hat t * c_light t)]) [1..<numRadVars] F1)"

definition wave_data ::
  "RadSystem_Traits \<Rightarrow> FluxDir \<Rightarrow> face_side \<Rightarrow> face_side
     \<Rightarrow> error + (real list \<times> real \<times> real list \<times> real)" where
  "wave_data t DIR left right =
     (case ComputeRadPressure DIR (fst left ! 0) (fst left ! 1) (fst left ! 2) (fst left ! 3)
             (snd left ! 0) (snd left ! 1) (snd left ! 2) of
        Inl e \<Rightarrow> Inl e
      | Inr res_L \<Rightarrow>
         (case ComputeRadPressure DIR (fst right ! 0) (fst right ! 1) (fst right ! 2)
                 (fst right ! 3) (snd right ! 0) (snd right ! 1) (snd right ! 2) of
            Inl e \<Rightarrow> Inl e
          | Inr res_R \<Rightarrow>
              let S_L = S res_L * (- 1);
                  S_R = S res_R;
                  F_L = scale_pressure t (F res_L);
                  F_R = scale_pressure t (F res_R);
                  S_L = S_L * c_hat t;
                  S_R = S_R * c_hat t
              in Inr (F_L, S_L, F_R, S_R)))"

text \<open>
  The wavespeed correction. The optical depth of the cell is the result of
  \<open>ComputeCellOpticalDepth\<close>, which calls the equation of state and the opacities of the
  problem: the model takes the result, per group, as the argument \<open>tau_cell\<close>. It is read
  only when the correction is on. The quotient \<open>1.0 / tau_cell[g]\<close> is infinite when
  \<open>tau_cell[g]\<close> is zero, and the minimum is \<open>1\<close> then.
\<close>

definition wavespeed_epsilon :: "bool \<Rightarrow> real list \<Rightarrow> int \<Rightarrow> int \<Rightarrow> int \<Rightarrow> nat \<Rightarrow> real list" where
  "wavespeed_epsilon correction tau_cell i j k g =
     (let epsilon = [1, 1, 1, 1]
      in if correction then
           (if (i + j + k) mod 2 = 0 then
              let S_corr = (if tau_cell ! g = 0 then 1 else min 1 (1 / tau_cell ! g))
              in [S_corr, 1, 1, 1]
            else epsilon)
         else epsilon)"

text \<open>
  The star-state flux, with the assertions before and after it. The quotients by
  \<open>S_R - S_L\<close> are \<open>0 / 0\<close> when the difference is zero and the assertions on the speeds
  hold, and the flux is not a number then.
\<close>

definition hll_flux ::
  "RadSystem_Traits \<Rightarrow> FluxDir \<Rightarrow> real list \<Rightarrow> face_side \<Rightarrow> face_side
     \<Rightarrow> error + (real list \<times> real list)" where
  "hll_flux t DIR epsilon left right =
     (case wave_data t DIR left right of
        Inl e \<Rightarrow> Inl e
      | Inr (F_L, S_L, F_R, S_R) \<Rightarrow>
          let U_L = fst left; U_R = fst right
          in if \<not> \<bar>S_L\<bar> \<le> c_hat t then Inl (AssertFailed ''abs(S_L) <= c_hat'')
             else if \<not> \<bar>S_R\<bar> \<le> c_hat t then Inl (AssertFailed ''abs(S_R) <= c_hat'')
             else if S_R - S_L = 0 then Inl (NotANumber ''F'')
             else
               let Flux = valarray_add
                     (valarray_sub (valarray_scale (S_R / (S_R - S_L)) F_L)
                                   (valarray_scale (S_L / (S_R - S_L)) F_R))
                     (valarray_mul (valarray_times epsilon (S_R * S_L / (S_R - S_L)))
                                   (valarray_sub U_R U_L));
                   diffusiveF = valarray_add
                     (valarray_sub (valarray_scale (S_R / (S_R - S_L)) F_L)
                                   (valarray_scale (S_L / (S_R - S_L)) F_R))
                     (valarray_scale (S_R * S_L / (S_R - S_L)) (valarray_sub U_R U_L))
               in Inr (Flux, diffusiveF))"

text \<open>The loop body for group \<open>g\<close>: the pair of the flux and the diffusive flux.\<close>

definition ComputeFluxes_group ::
  "RadSystem_Traits \<Rightarrow> FluxDir \<Rightarrow> bool \<Rightarrow> real list \<Rightarrow> Array4 \<Rightarrow> Array4 \<Rightarrow> Array4
     \<Rightarrow> int \<Rightarrow> int \<Rightarrow> int \<Rightarrow> nat \<Rightarrow> error + (real list \<times> real list)" where
  "ComputeFluxes_group t DIR correction tau_cell x1LeftState x1RightState consVar i j k g =
     (let (left, right) = gather_states t x1LeftState x1RightState consVar i j k g;
          epsilon = wavespeed_epsilon correction tau_cell i j k g
      in hll_flux t DIR epsilon left right)"

text \<open>Storing the four components of a group in a flux array.\<close>

definition store_flux :: "RadSystem_Traits \<Rightarrow> Array4 \<Rightarrow> int \<Rightarrow> int \<Rightarrow> int \<Rightarrow> nat \<Rightarrow> real list \<Rightarrow> Array4" where
  "store_flux t x1Flux i j k g Fl =
     (let x1Flux = array_write x1Flux i j k
                     (radEnergy_index t + numRadVars * g - nstartHyperbolic t) (Fl ! 0);
          x1Flux = array_write x1Flux i j k
                     (x1RadFlux_index t + numRadVars * g - nstartHyperbolic t) (Fl ! 1);
          x1Flux = array_write x1Flux i j k
                     (x2RadFlux_index t + numRadVars * g - nstartHyperbolic t) (Fl ! 2);
          x1Flux = array_write x1Flux i j k
                     (x3RadFlux_index t + numRadVars * g - nstartHyperbolic t) (Fl ! 3)
      in x1Flux)"

text \<open>The loop over the groups at one face, and the kernel applied to a box of faces.\<close>

fun ComputeFluxes_face ::
  "RadSystem_Traits \<Rightarrow> FluxDir \<Rightarrow> bool \<Rightarrow> real list \<Rightarrow> Array4 \<Rightarrow> Array4 \<Rightarrow> Array4
     \<Rightarrow> int \<Rightarrow> int \<Rightarrow> int \<Rightarrow> nat list \<Rightarrow> Array4 \<times> Array4 \<Rightarrow> error + (Array4 \<times> Array4)" where
  "ComputeFluxes_face t DIR correction tau_cell x1LeftState x1RightState consVar i j k []
     fluxes = Inr fluxes"
| "ComputeFluxes_face t DIR correction tau_cell x1LeftState x1RightState consVar i j k (g # gs)
     (x1Flux, x1FluxDiffusive) =
     (case ComputeFluxes_group t DIR correction tau_cell x1LeftState x1RightState consVar
             i j k g of
        Inl e \<Rightarrow> Inl e
      | Inr (Flux, diffusiveF) \<Rightarrow>
          ComputeFluxes_face t DIR correction tau_cell x1LeftState x1RightState consVar i j k gs
            (store_flux t x1Flux i j k g Flux, store_flux t x1FluxDiffusive i j k g diffusiveF))"

fun ComputeFluxes ::
  "RadSystem_Traits \<Rightarrow> FluxDir \<Rightarrow> bool \<Rightarrow> (int \<Rightarrow> int \<Rightarrow> int \<Rightarrow> real list) \<Rightarrow> Array4 \<times> Array4
     \<Rightarrow> Array4 \<Rightarrow> Array4 \<Rightarrow> (int \<times> int \<times> int) list \<Rightarrow> Array4 \<Rightarrow> error + (Array4 \<times> Array4)" where
  "ComputeFluxes t DIR correction ComputeCellOpticalDepth fluxes x1LeftState x1RightState []
     consVar = Inr fluxes"
| "ComputeFluxes t DIR correction ComputeCellOpticalDepth fluxes x1LeftState x1RightState
     ((i, j, k) # indexRange) consVar =
     (let tau_cell = (if correction then ComputeCellOpticalDepth i j k
                      else replicate (nGroups t) 0)
      in case ComputeFluxes_face t DIR correction tau_cell x1LeftState x1RightState consVar
                i j k [0..<nGroups t] fluxes of
           Inl e \<Rightarrow> Inl e
         | Inr fluxes' \<Rightarrow>
             ComputeFluxes t DIR correction ComputeCellOpticalDepth fluxes' x1LeftState
               x1RightState indexRange consVar)"

subsection \<open>Hyperbolic time update, stage 2\<close>

text \<open>
  \<open>AMREX_SPACEDIM\<close> is \<open>1\<close>, \<open>2\<close> or \<open>3\<close>; \<open>AMREX_D_TERM(a, b, c)\<close> keeps the first
  \<open>AMREX_SPACEDIM\<close> of its arguments. The flux arrays and the cell sizes are lists with one
  entry per dimension.
\<close>

definition AMREX_D_TERM :: "nat \<Rightarrow> real \<Rightarrow> real \<Rightarrow> real \<Rightarrow> real" where
  "AMREX_D_TERM spacedim a b c =
     (if spacedim = 1 then a else if spacedim = 2 then a + b else a + b + c)"

text \<open>
  The candidate state of one cell: the loop over the hyperbolic variables. A flux array
  or cell size of a dimension that is not compiled in is not read.
\<close>

definition AddFluxesRK2_candidate ::
  "RadSystem_Traits \<Rightarrow> nat \<Rightarrow> Array4 \<Rightarrow> Array4 \<Rightarrow> Array4 list \<Rightarrow> Array4 list \<Rightarrow> real
     \<Rightarrow> real list \<Rightarrow> int \<Rightarrow> int \<Rightarrow> int \<Rightarrow> real list" where
  "AddFluxesRK2_candidate t spacedim U0 U1 fluxArrayOld fluxArray dt dx_in i j k =
     map (\<lambda>n.
        let U_0 = U0 i j k (nstartHyperbolic t + n);
            U_1 = U1 i j k (nstartHyperbolic t + n);
            FxU_0 = (dt / dx_in ! 0)
                      * ((fluxArrayOld ! 0) i j k n - (fluxArrayOld ! 0) (i + 1) j k n);
            FxU_1 = (dt / dx_in ! 0)
                      * ((fluxArray ! 0) i j k n - (fluxArray ! 0) (i + 1) j k n);
            FyU_0 = (if spacedim \<ge> 2
                     then (dt / dx_in ! 1)
                            * ((fluxArrayOld ! 1) i j k n - (fluxArrayOld ! 1) i (j + 1) k n)
                     else 0);
            FyU_1 = (if spacedim \<ge> 2
                     then (dt / dx_in ! 1)
                            * ((fluxArray ! 1) i j k n - (fluxArray ! 1) i (j + 1) k n)
                     else 0);
            FzU_0 = (if spacedim = 3
                     then (dt / dx_in ! 2)
                            * ((fluxArrayOld ! 2) i j k n - (fluxArrayOld ! 2) i j (k + 1) n)
                     else 0);
            FzU_1 = (if spacedim = 3
                     then (dt / dx_in ! 2)
                            * ((fluxArray ! 2) i j k n - (fluxArray ! 2) i j (k + 1) n)
                     else 0)
        in (1 - IMEX_a32) * U_0 + IMEX_a32 * U_1
             + ((0.5 - IMEX_a32) * AMREX_D_TERM spacedim FxU_0 FyU_0 FzU_0)
             + (0.5 * AMREX_D_TERM spacedim FxU_1 FyU_1 FzU_1))
       [0..<nvarHyperbolic t]"

text \<open>Writing the state of a cell into the output array.\<close>

definition store_state :: "RadSystem_Traits \<Rightarrow> Array4 \<Rightarrow> int \<Rightarrow> int \<Rightarrow> int \<Rightarrow> real list \<Rightarrow> Array4" where
  "store_state t U_new i j k cons_new =
     fold (\<lambda>n U. array_write U i j k (nstartHyperbolic t + n) (cons_new ! n))
       [0..<nvarHyperbolic t] U_new"

fun AddFluxesRK2 ::
  "RadSystem_Traits \<Rightarrow> nat \<Rightarrow> Array4 \<Rightarrow> Array4 \<Rightarrow> Array4 \<Rightarrow> Array4 list \<Rightarrow> Array4 list \<Rightarrow> real
     \<Rightarrow> real list \<Rightarrow> (int \<times> int \<times> int) list \<Rightarrow> error + Array4" where
  "AddFluxesRK2 t spacedim U_new U0 U1 fluxArrayOld fluxArray dt dx_in [] = Inr U_new"
| "AddFluxesRK2 t spacedim U_new U0 U1 fluxArrayOld fluxArray dt dx_in ((i, j, k) # indexRange) =
     (let cons_new = AddFluxesRK2_candidate t spacedim U0 U1 fluxArrayOld fluxArray dt dx_in
                       i j k
      in case enforce_validity t cons_new of
           Inl e \<Rightarrow> Inl e
         | Inr cons_new \<Rightarrow>
             AddFluxesRK2 t spacedim (store_state t U_new i j k cons_new) U0 U1 fluxArrayOld
               fluxArray dt dx_in indexRange)"

text \<open>
  The flux term of the specification of the stages, written \<open>div(flux)\<close> there: for each
  dimension the flux through the left face of the cell minus the flux through its right
  face, over the cell size, summed over the dimensions.
\<close>

definition shift_cell :: "nat \<Rightarrow> int \<times> int \<times> int \<Rightarrow> int \<times> int \<times> int" where
  "shift_cell d c = (case c of (i, j, k) \<Rightarrow>
     if d = 0 then (i + 1, j, k) else if d = 1 then (i, j + 1, k) else (i, j, k + 1))"

definition at_cell :: "Array4 \<Rightarrow> int \<times> int \<times> int \<Rightarrow> nat \<Rightarrow> real" where
  "at_cell a c n = (case c of (i, j, k) \<Rightarrow> a i j k n)"

definition flux_difference ::
  "nat \<Rightarrow> Array4 list \<Rightarrow> real list \<Rightarrow> int \<Rightarrow> int \<Rightarrow> int \<Rightarrow> nat \<Rightarrow> real" where
  "flux_difference spacedim fluxes dx_in i j k n =
     (\<Sum>d<spacedim. (at_cell (fluxes ! d) (i, j, k) n
                       - at_cell (fluxes ! d) (shift_cell d (i, j, k)) n) / dx_in ! d)"

subsection \<open>Numbers with infinities\<close>

text \<open>
  The implicit solver stores \<open>-infinity\<close> in its Jacobian and divides by quantities that
  can vanish. Its kernels are computed in \<open>xreal\<close>: a real number, one of the two
  infinities, or "not a number", with the arithmetic and the comparisons of IEEE 754
  except for rounding, overflow and the sign of zero (a quotient by zero takes the sign of
  its numerator). Every comparison with \<open>NaN\<close> is false.
\<close>

datatype xreal = Fin real | PInf | MInf | NaN

instantiation xreal :: "{zero, one, plus, uminus, minus, times, inverse, ord, abs}"
begin

definition zero_xreal :: xreal where
  "0 = Fin 0"

definition one_xreal :: xreal where
  "1 = Fin 1"

fun plus_xreal :: "xreal \<Rightarrow> xreal \<Rightarrow> xreal" where
  "Fin a + Fin b = Fin (a + b)"
| "NaN + y = NaN"
| "x + NaN = NaN"
| "PInf + MInf = NaN"
| "MInf + PInf = NaN"
| "PInf + y = PInf"
| "x + PInf = PInf"
| "MInf + y = MInf"
| "x + MInf = MInf"

fun uminus_xreal :: "xreal \<Rightarrow> xreal" where
  "- Fin a = Fin (- a)"
| "- PInf = MInf"
| "- MInf = PInf"
| "- NaN = NaN"

definition minus_xreal :: "xreal \<Rightarrow> xreal \<Rightarrow> xreal" where
  "(x::xreal) - y = x + (- y)"

fun times_xreal :: "xreal \<Rightarrow> xreal \<Rightarrow> xreal" where
  "Fin a * Fin b = Fin (a * b)"
| "NaN * y = NaN"
| "x * NaN = NaN"
| "PInf * Fin b = (if b = 0 then NaN else if b > 0 then PInf else MInf)"
| "MInf * Fin b = (if b = 0 then NaN else if b > 0 then MInf else PInf)"
| "Fin a * PInf = (if a = 0 then NaN else if a > 0 then PInf else MInf)"
| "Fin a * MInf = (if a = 0 then NaN else if a > 0 then MInf else PInf)"
| "PInf * PInf = PInf"
| "PInf * MInf = MInf"
| "MInf * PInf = MInf"
| "MInf * MInf = PInf"

fun divide_xreal :: "xreal \<Rightarrow> xreal \<Rightarrow> xreal" where
  "divide_xreal (Fin a) (Fin b) =
     (if b = 0 then (if a = 0 then NaN else if a > 0 then PInf else MInf) else Fin (a / b))"
| "divide_xreal NaN y = NaN"
| "divide_xreal x NaN = NaN"
| "divide_xreal (Fin a) PInf = Fin 0"
| "divide_xreal (Fin a) MInf = Fin 0"
| "divide_xreal PInf (Fin b) = (if b \<ge> 0 then PInf else MInf)"
| "divide_xreal MInf (Fin b) = (if b \<ge> 0 then MInf else PInf)"
| "divide_xreal PInf PInf = NaN"
| "divide_xreal PInf MInf = NaN"
| "divide_xreal MInf PInf = NaN"
| "divide_xreal MInf MInf = NaN"

definition inverse_xreal :: "xreal \<Rightarrow> xreal" where
  "inverse x = divide (Fin 1) x"

fun less_xreal :: "xreal \<Rightarrow> xreal \<Rightarrow> bool" where
  "Fin a < Fin b \<longleftrightarrow> a < b"
| "NaN < y \<longleftrightarrow> False"
| "x < NaN \<longleftrightarrow> False"
| "x < MInf \<longleftrightarrow> False"
| "PInf < y \<longleftrightarrow> False"
| "MInf < y \<longleftrightarrow> True"
| "Fin a < PInf \<longleftrightarrow> True"

fun less_eq_xreal :: "xreal \<Rightarrow> xreal \<Rightarrow> bool" where
  "Fin a \<le> Fin b \<longleftrightarrow> a \<le> b"
| "NaN \<le> y \<longleftrightarrow> False"
| "x \<le> NaN \<longleftrightarrow> False"
| "MInf \<le> y \<longleftrightarrow> True"
| "x \<le> PInf \<longleftrightarrow> True"
| "x \<le> MInf \<longleftrightarrow> False"
| "PInf \<le> y \<longleftrightarrow> False"

fun abs_xreal :: "xreal \<Rightarrow> xreal" where
  "\<bar>Fin a\<bar> = Fin \<bar>a\<bar>"
| "\<bar>PInf\<bar> = PInf"
| "\<bar>MInf\<bar> = PInf"
| "\<bar>NaN\<bar> = NaN"

instance ..

end

text \<open>\<open>std::isnan\<close> and the \<open>hasnan\<close> of a \<open>valarray\<close>.\<close>

definition isnan :: "xreal \<Rightarrow> bool" where
  "isnan x \<longleftrightarrow> x = NaN"

definition hasnan :: "xreal list \<Rightarrow> bool" where
  "hasnan xs \<longleftrightarrow> (\<exists>x\<in>set xs. isnan x)"

subsection \<open>The linear solver of the Newton step\<close>

text \<open>
  \<open>SolveLinearEqs\<close> writes \<open>x0\<close> and \<open>xi\<close> through references; the model returns the pair.
\<close>

definition SolveLinearEqs ::
  "xreal \<Rightarrow> xreal list \<Rightarrow> xreal list \<Rightarrow> xreal list \<Rightarrow> xreal \<Rightarrow> xreal list \<Rightarrow> xreal \<times> xreal list" where
  "SolveLinearEqs a00 a0i ai0 aii y0 yi =
     (let ratios = valarray_div a0i aii;
          x0 = (- valarray_sum (valarray_mul ratios yi) + y0)
                 / (- valarray_sum (valarray_mul ratios ai0) + a00);
          xi = valarray_div (valarray_sub yi (valarray_times ai0 x0)) aii
      in (x0, xi))"

subsection \<open>Planck energy fractions and thermal radiation\<close>

text \<open>
  \<open>integrate_planck_from_0_to_x\<close> (planck_integral.hpp) is not among the sources: it is
  the argument \<open>planck\<close>. The array \<open>radEnergyFractions\<close> starts filled with zeros.
\<close>

definition valarray_over :: "xreal list \<Rightarrow> xreal \<Rightarrow> xreal list" where
  "valarray_over xs a = map (\<lambda>x. x / a) xs"

definition ComputePlanckEnergyFractions ::
  "RadSystem_Traits \<Rightarrow> (xreal \<Rightarrow> xreal) \<Rightarrow> xreal list \<Rightarrow> xreal \<Rightarrow> xreal list" where
  "ComputePlanckEnergyFractions t planck boundaries temperature =
     (if nGroups t = 1 then (replicate (nGroups t) 0)[0 := 1]
      else
        let energy_unit_over_kT =
              Fin (energy_unit t) / (Fin (boltzmann_constant t) * temperature);
            previous = planck (boundaries ! 0 * energy_unit_over_kT);
            (radEnergyFractions, previous) =
              fold (\<lambda>g (fractions, previous).
                      let y = planck (boundaries ! (g + 1) * energy_unit_over_kT)
                      in (fractions[g := y - previous], y))
                [0..<nGroups t] (replicate (nGroups t) 0, previous);
            tote = valarray_sum radEnergyFractions
        in valarray_over radEnergyFractions tote)"

definition ComputeThermalRadiation ::
  "RadSystem_Traits \<Rightarrow> (xreal \<Rightarrow> xreal) \<Rightarrow> xreal \<Rightarrow> xreal list \<Rightarrow> xreal list" where
  "ComputeThermalRadiation t planck temperature boundaries =
     (let radEnergyFractions = ComputePlanckEnergyFractions t planck boundaries temperature;
          power = Fin (radiation_constant t)
                    * (temperature * temperature * temperature * temperature);
          Erad_g = valarray_scale power radEnergyFractions
      in map (\<lambda>e. if e < Fin (Erad_floor_per_group t) then Fin (Erad_floor_per_group t) else e)
           Erad_g)"

definition ComputeThermalRadiationTempDerivative ::
  "RadSystem_Traits \<Rightarrow> (xreal \<Rightarrow> xreal) \<Rightarrow> xreal \<Rightarrow> xreal list \<Rightarrow> xreal list" where
  "ComputeThermalRadiationTempDerivative t planck temperature boundaries =
     (let erad = ComputeThermalRadiation t planck temperature boundaries
      in valarray_over (valarray_scale (Fin 4) erad) temperature)"

subsection \<open>Equation of state\<close>

text \<open>The ideal-gas functions of EOS.hpp; they return \<open>NaN\<close> when \<open>gamma\<close> is one.\<close>

definition ComputeTgasFromEint :: "RadSystem_Traits \<Rightarrow> xreal \<Rightarrow> xreal \<Rightarrow> xreal" where
  "ComputeTgasFromEint t rho Eint =
     (if gamma t \<noteq> 1 then
        let c_v = Fin (boltzmann_constant t)
                    / (Fin (mean_molecular_weight t) * (Fin (gamma t) - Fin 1))
        in Eint / (rho * c_v)
      else NaN)"

definition ComputeEintTempDerivative :: "RadSystem_Traits \<Rightarrow> xreal \<Rightarrow> xreal \<Rightarrow> xreal" where
  "ComputeEintTempDerivative t rho Tgas =
     (if gamma t \<noteq> 1 then
        let c_v = Fin (boltzmann_constant t)
                    / (Fin (mean_molecular_weight t) * (Fin (gamma t) - Fin 1))
        in rho * c_v
      else NaN)"

subsection \<open>Implicit exchange solver: the energy exchange\<close>

text \<open>
  Step 1 of the cell kernel of \<open>AddSourceTerms\<close> ("Compute energy exchange"), for
  \<open>gamma \<noteq> 1\<close>: the set-up of the Newton-Raphson iteration and its loop.

  The quantities of the cell that the step reads are gathered in \<open>exchange_inputs\<close>: the
  density, the time step, the old gas and total energies, the old radiation energies, the
  source, the work term of the current outer iteration and the Lorentz factor, all computed
  before the step. The Planck integral and the opacities are supplied by the problem. An
  opacity is a function of the density and the gas temperature; in the piecewise power-law
  model it depends also on the thermal radiation and on the old radiation energies, so the
  two arrays are arguments too. The fields carry the prefix \<open>in\<close>, the variables of the
  loop the prefix \<open>ns\<close>.
\<close>

record exchange_inputs =
  in_rho :: xreal
  in_dt :: xreal
  in_Egas0 :: xreal
  in_Etot0 :: xreal
  in_Erad0Vec :: "xreal list"
  in_Src :: "xreal list"
  in_work :: "xreal list"
  in_lorentz_factor :: xreal
  in_radBoundaries :: "xreal list"
  in_planck :: "xreal \<Rightarrow> xreal"
  in_PlanckOpacity :: "xreal \<Rightarrow> xreal \<Rightarrow> xreal list \<Rightarrow> xreal list \<Rightarrow> xreal list"
  in_EnergyMeanOpacity :: "xreal \<Rightarrow> xreal \<Rightarrow> xreal list \<Rightarrow> xreal list \<Rightarrow> xreal list"
  in_FluxMeanOpacity :: "xreal \<Rightarrow> xreal \<Rightarrow> xreal list \<Rightarrow> xreal list \<Rightarrow> xreal list"

record newton_state =
  ns_Egas_guess :: xreal
  ns_D :: "xreal list"
  ns_Rvec :: "xreal list"
  ns_EradVec_guess :: "xreal list"

text \<open>The loop that sets \<open>kappaPoverE\<close>.\<close>

definition opacity_ratio :: "xreal list \<Rightarrow> xreal list \<Rightarrow> xreal list" where
  "opacity_ratio kappaPVec kappaEVec =
     map2 (\<lambda>kappaP kappaE. if kappaE > Fin 0 then kappaP / kappaE else Fin 1) kappaPVec kappaEVec"

text \<open>The optical depth \<open>dt * rho * kappa * chat * lorentz_factor\<close> of an opacity array.\<close>

definition optical_depth :: "RadSystem_Traits \<Rightarrow> exchange_inputs \<Rightarrow> xreal list \<Rightarrow> xreal list" where
  "optical_depth t inp kappaVec =
     valarray_times
       (valarray_times (valarray_scale (in_dt inp * in_rho inp) kappaVec) (Fin (c_hat t)))
       (in_lorentz_factor inp)"

text \<open>
  The optical depth \<open>tau\<close> that an iteration computes when the gas energy guess is
  \<open>Egas_guess\<close>.
\<close>

definition tau_of_guess :: "RadSystem_Traits \<Rightarrow> exchange_inputs \<Rightarrow> xreal \<Rightarrow> xreal list" where
  "tau_of_guess t inp Egas_guess =
     (let T_gas = ComputeTgasFromEint t (in_rho inp) Egas_guess;
          fourPiBoverC = ComputeThermalRadiation t (in_planck inp) T_gas (in_radBoundaries inp);
          kappaEVec = in_EnergyMeanOpacity inp (in_rho inp) T_gas fourPiBoverC (in_Erad0Vec inp)
      in optical_depth t inp kappaEVec)"

text \<open>
  The loop that updates \<open>EradVec_guess\<close>: a group whose \<open>tau\<close> is not positive is skipped.
\<close>

definition update_EradVec_guess ::
  "xreal list \<Rightarrow> xreal list \<Rightarrow> xreal list \<Rightarrow> xreal list \<Rightarrow> xreal list \<Rightarrow> xreal list
     \<Rightarrow> nat \<Rightarrow> xreal list" where
  "update_EradVec_guess tau kappaPoverE fourPiBoverC Rvec work EradVec_guess ngroups =
     fold (\<lambda>g Erad.
             if tau ! g > Fin 0
             then Erad[g := kappaPoverE ! g
                             * (fourPiBoverC ! g - (Rvec ! g - work ! g) / tau ! g)]
             else Erad)
       [0..<ngroups] EradVec_guess"

text \<open>
  The loop that accumulates the residuals: the pair \<open>(F_D_abs_sum, F_G)\<close>, from
  \<open>F_D_abs_sum = 0\<close> and \<open>F_G = Egas_guess - Egas0\<close>.
\<close>

definition accumulate_residuals ::
  "RadSystem_Traits \<Rightarrow> xreal list \<Rightarrow> xreal list \<Rightarrow> xreal list \<Rightarrow> xreal \<times> xreal \<Rightarrow> nat
     \<Rightarrow> xreal \<times> xreal" where
  "accumulate_residuals t tau F_D Rvec start ngroups =
     fold (\<lambda>g (F_D_abs_sum, F_G).
             if tau ! g > Fin 0
             then (F_D_abs_sum + \<bar>F_D ! g\<bar>,
                   F_G + (Fin (c_light t) / Fin (c_hat t)) * Rvec ! g)
             else (F_D_abs_sum, F_G))
       [0..<ngroups] start"

text \<open>The loop that sets the diagonal of the Jacobian, before the scaling by \<open>tau0\<close>.\<close>

definition jacobian_diagonal :: "xreal list \<Rightarrow> xreal list \<Rightarrow> nat \<Rightarrow> xreal list" where
  "jacobian_diagonal tau kappaPoverE ngroups =
     map (\<lambda>g. if tau ! g \<le> Fin 0 then MInf
               else Fin (- 1) * (Fin 1 / tau ! g * kappaPoverE ! g + Fin 1))
       [0..<ngroups]"

definition resid_tol :: xreal where
  "resid_tol = Fin (1 / 10 ^ 11)"

definition maxIter :: nat where
  "maxIter = 400"

text \<open>
  One pass through the body of the Newton-Raphson loop. The result is the state of the
  loop variables and whether the loop is left by \<open>break\<close>.
\<close>

definition NewtonRaphson_body ::
  "RadSystem_Traits \<Rightarrow> exchange_inputs \<Rightarrow> xreal list \<Rightarrow> newton_state
     \<Rightarrow> error + (bool \<times> newton_state)" where
  "NewtonRaphson_body t inp tau0 s =
     (let T_gas = ComputeTgasFromEint t (in_rho inp) (ns_Egas_guess s)
      in if \<not> T_gas \<ge> Fin 0 then Inl (AssertFailed ''T_gas >= 0.'')
      else
      let fourPiBoverC = ComputeThermalRadiation t (in_planck inp) T_gas (in_radBoundaries inp);
          kappaPVec = in_PlanckOpacity inp (in_rho inp) T_gas fourPiBoverC (in_Erad0Vec inp);
          kappaEVec = in_EnergyMeanOpacity inp (in_rho inp) T_gas fourPiBoverC (in_Erad0Vec inp)
      in if hasnan kappaPVec then Inl (AssertFailed ''!kappaPVec.hasnan()'')
      else if hasnan kappaEVec then Inl (AssertFailed ''!kappaEVec.hasnan()'')
      else
      let kappaPoverE = opacity_ratio kappaPVec kappaEVec;
          tau = optical_depth t inp kappaEVec;
          Rvec = (if use_D_as_base then valarray_mul tau0 (ns_D s) else ns_Rvec s);
          EradVec_guess = update_EradVec_guess tau kappaPoverE fourPiBoverC Rvec (in_work inp)
                            (ns_EradVec_guess s) (nGroups t);
          F_G = ns_Egas_guess s - in_Egas0 inp;
          F_D = valarray_sub (valarray_sub EradVec_guess (in_Erad0Vec inp))
                  (valarray_add Rvec (in_Src inp));
          (F_D_abs_sum, F_G) = accumulate_residuals t tau F_D Rvec (Fin 0, F_G) (nGroups t)
      in if \<bar>F_G / in_Etot0 inp\<bar> < resid_tol
            \<and> (Fin (c_light t) / Fin (c_hat t)) * F_D_abs_sum / in_Etot0 inp < resid_tol
         then Inr (True, s\<lparr>ns_Rvec := Rvec, ns_EradVec_guess := EradVec_guess\<rparr>)
      else
      let c_v = ComputeEintTempDerivative t (in_rho inp) T_gas;
          dfourPiB_dTgas = valarray_scale (Fin (c_hat t))
              (ComputeThermalRadiationTempDerivative t (in_planck inp) T_gas
                 (in_radBoundaries inp))
      in if hasnan dfourPiB_dTgas then Inl (AssertFailed ''!dfourPiB_dTgas.hasnan()'')
      else
      let dFG_dEgas = Fin 1;
          dFR_i_dD_i = jacobian_diagonal tau kappaPoverE (nGroups t);
          dFG_dD = (if use_D_as_base
                    then valarray_scale (Fin (c_light t) / Fin (c_hat t)) tau0
                    else replicate (nGroups t) (Fin (c_light t) / Fin (c_hat t)));
          dFR_i_dD_i = (if use_D_as_base then valarray_mul dFR_i_dD_i tau0 else dFR_i_dD_i);
          dFR_dEgas = valarray_mul (valarray_scale (Fin 1 / c_v) kappaPoverE)
                        (valarray_over dfourPiB_dTgas (Fin (c_hat t)));
          (deltaEgas, deltaD) = SolveLinearEqs dFG_dEgas dFG_dD dFR_dEgas dFR_i_dD_i (- F_G)
                                  (valarray_scale (Fin (- 1)) F_D)
      in if isnan deltaEgas then Inl (AssertFailed ''!std::isnan(deltaEgas)'')
         else if hasnan deltaD then Inl (AssertFailed ''!deltaD.hasnan()'')
         else Inr (False,
                s\<lparr>ns_Egas_guess := ns_Egas_guess s + deltaEgas,
                  ns_D := (if use_D_as_base then valarray_add (ns_D s) deltaD else ns_D s),
                  ns_Rvec := (if use_D_as_base then Rvec else valarray_add Rvec deltaD),
                  ns_EradVec_guess := EradVec_guess\<rparr>))"

text \<open>
  The loop: at most \<open>maxIter\<close> passes. The first argument counts the passes that remain;
  when none remains the loop has not converged and the assertion after it fails.
\<close>

fun NewtonRaphson_loop ::
  "RadSystem_Traits \<Rightarrow> exchange_inputs \<Rightarrow> xreal list \<Rightarrow> nat \<Rightarrow> newton_state
     \<Rightarrow> error + newton_state" where
  "NewtonRaphson_loop t inp tau0 0 s =
     Inl (AssertFailed ''Newton-Raphson iteration failed to converge!'')"
| "NewtonRaphson_loop t inp tau0 (Suc remaining) s =
     (case NewtonRaphson_body t inp tau0 s of
        Inl e \<Rightarrow> Inl e
      | Inr (True, s') \<Rightarrow> Inr s'
      | Inr (False, s') \<Rightarrow> NewtonRaphson_loop t inp tau0 remaining s')"

text \<open>
  Modelled from the spec: \<open>min\<close> of valarray.hpp is not among the sources; it is the least
  element, found by comparing from the left.
\<close>

definition valarray_min :: "xreal list \<Rightarrow> xreal" where
  "valarray_min xs = fold (\<lambda>x m. if x < m then x else m) (tl xs) (hd xs)"

text \<open>
  The set-up before the loop, the loop, and the assertions after it. \<open>EradVec_guess\<close> is the
  value of that variable on entry: the old radiation energies \<open>Erad0Vec\<close> in the first outer
  iteration, to which the kernel sets it before the outer loop.
\<close>

definition ComputeEnergyExchange ::
  "RadSystem_Traits \<Rightarrow> exchange_inputs \<Rightarrow> xreal list \<Rightarrow> error + newton_state" where
  "ComputeEnergyExchange t inp EradVec_guess =
     (if \<not> valarray_min (in_Src inp) \<ge> Fin 0 then Inl (AssertFailed ''min(Src) >= 0.0'')
      else if \<not> in_Egas0 inp > Fin 0 then Inl (AssertFailed ''Egas0 > 0.0'')
      else
      let Egas_guess = in_Egas0 inp;
          T_gas = ComputeTgasFromEint t (in_rho inp) Egas_guess
      in if \<not> T_gas \<ge> Fin 0 then Inl (AssertFailed ''T_gas >= 0.'')
      else
      let fourPiBoverC = ComputeThermalRadiation t (in_planck inp) T_gas (in_radBoundaries inp);
          kappaPVec = in_PlanckOpacity inp (in_rho inp) T_gas fourPiBoverC (in_Erad0Vec inp);
          kappaEVec = in_EnergyMeanOpacity inp (in_rho inp) T_gas fourPiBoverC (in_Erad0Vec inp);
          kappaFVec = in_FluxMeanOpacity inp (in_rho inp) T_gas fourPiBoverC (in_Erad0Vec inp)
      in if hasnan kappaPVec then Inl (AssertFailed ''!kappaPVec.hasnan()'')
      else if hasnan kappaEVec then Inl (AssertFailed ''!kappaEVec.hasnan()'')
      else if hasnan kappaFVec then Inl (AssertFailed ''!kappaFVec.hasnan()'')
      else
      let kappaPoverE = opacity_ratio kappaPVec kappaEVec;
          tau0 = optical_depth t inp kappaPVec;
          Rvec = valarray_add
                   (valarray_mul
                      (valarray_sub fourPiBoverC (valarray_div (in_Erad0Vec inp) kappaPoverE))
                      tau0)
                   (in_work inp);
          tau0 = (if use_D_as_base
                  then map (\<lambda>x. if x \<le> Fin 1 then Fin 1 else x) tau0 else tau0);
          D = (if use_D_as_base then valarray_div Rvec tau0 else replicate (nGroups t) (Fin 0));
          s0 = \<lparr>ns_Egas_guess = Egas_guess, ns_D = D, ns_Rvec = Rvec,
                ns_EradVec_guess = EradVec_guess\<rparr>
      in case NewtonRaphson_loop t inp tau0 maxIter s0 of
           Inl e \<Rightarrow> Inl e
         | Inr s \<Rightarrow>
             if \<not> ns_Egas_guess s > Fin 0 then Inl (AssertFailed ''Egas_guess > 0.0'')
             else if \<not> valarray_min (ns_EradVec_guess s) \<ge> Fin 0
             then Inl (AssertFailed ''min(EradVec_guess) >= 0.0'')
             else Inr s)"

text \<open>
  The states of the loop variables after each pass of the loop, until the loop is left,
  an assertion fails or no pass remains.
\<close>

fun NewtonRaphson_trace ::
  "RadSystem_Traits \<Rightarrow> exchange_inputs \<Rightarrow> xreal list \<Rightarrow> nat \<Rightarrow> newton_state
     \<Rightarrow> newton_state list" where
  "NewtonRaphson_trace t inp tau0 0 s = []"
| "NewtonRaphson_trace t inp tau0 (Suc remaining) s =
     (case NewtonRaphson_body t inp tau0 s of
        Inl e \<Rightarrow> []
      | Inr (True, s') \<Rightarrow> [s']
      | Inr (False, s') \<Rightarrow> s' # NewtonRaphson_trace t inp tau0 remaining s')"

text \<open>
  A cell of a transparent gas, for the evaluation of the step: one group, all opacities
  zero, no source and no work term, in the units of \<open>unit_traits\<close>.
\<close>

definition transparent_cell :: exchange_inputs where
  "transparent_cell =
     \<lparr>in_rho = Fin 1, in_dt = Fin 1, in_Egas0 = Fin (3 / 2), in_Etot0 = Fin (5 / 2),
      in_Erad0Vec = [Fin 1], in_Src = [Fin 0], in_work = [Fin 0], in_lorentz_factor = Fin 1,
      in_radBoundaries = [Fin 0, PInf], in_planck = (\<lambda>x. x),
      in_PlanckOpacity = (\<lambda>rho T_gas fourPiBoverC Erad0Vec. [Fin 0]),
      in_EnergyMeanOpacity = (\<lambda>rho T_gas fourPiBoverC Erad0Vec. [Fin 0]),
      in_FluxMeanOpacity = (\<lambda>rho T_gas fourPiBoverC Erad0Vec. [Fin 0])\<rparr>"

subsection \<open>The round trip in binary64 arithmetic\<close>

text \<open>
  Whether a value is reproduced bit for bit depends on the rounding of the two operations
  involved, which real arithmetic does not show. For the two lines concerned,
  \<open>Fx / (c_light_ * E_r)\<close> in \<open>ConservedToPrimitive\<close> and \<open>fx_L * (c_light_ * erad_L)\<close> in
  \<open>ComputeFluxes\<close>, this section gives the IEEE 754 reading: every operation returns the
  binary64 number nearest to the exact result, ties to the even significand. A binary64
  number is modelled by the real number it denotes; the result is \<open>None\<close> when the
  operation overflows or divides by zero.
\<close>

text \<open>The number of binary digits of a natural number.\<close>

fun bit_length :: "nat \<Rightarrow> nat" where
  "bit_length n = (if n = 0 then 0 else Suc (bit_length (n div 2)))"

declare bit_length.simps [simp del]

definition pow2 :: "int \<Rightarrow> real" where
  "pow2 e = (if e \<ge> 0 then 2 ^ nat e else 1 / 2 ^ nat (- e))"

text \<open>For positive \<open>a\<close>, the exponent \<open>e\<close> with \<open>2\<^sup>e \<le> a < 2\<^sup>e\<^sup>+\<^sup>1\<close>.\<close>

definition binary_exponent :: "real \<Rightarrow> int" where
  "binary_exponent a =
     (if a \<ge> 1 then int (bit_length (nat \<lfloor>a\<rfloor>)) - 1
      else - int (bit_length (nat \<lceil>1 / a\<rceil> - 1)))"

definition round_half_even :: "real \<Rightarrow> int" where
  "round_half_even m =
     (let fl = \<lfloor>m\<rfloor>; r = m - of_int fl
      in if r < 1 / 2 then fl else if r > 1 / 2 then fl + 1
         else if even fl then fl else fl + 1)"

text \<open>
  Rounding to binary64: 53 significant bits, least exponent \<open>-1022\<close> (below it the numbers
  are subnormal, with spacing \<open>2\<^sup>-\<^sup>1\<^sup>0\<^sup>7\<^sup>4\<close>), overflow from \<open>2\<^sup>1\<^sup>0\<^sup>2\<^sup>4\<close>.
\<close>

definition binary64 :: "real \<Rightarrow> real option" where
  "binary64 x =
     (if x = 0 then Some 0
      else
        let a = \<bar>x\<bar>;
            e = max (binary_exponent a) (- 1022);
            ulp = pow2 (e - 52);
            y = of_int (round_half_even (a / ulp)) * ulp
        in if y \<ge> pow2 1024 then None else Some (sgn x * y))"

definition binary64_mul :: "real \<Rightarrow> real \<Rightarrow> real option" where
  "binary64_mul x y = binary64 (x * y)"

definition binary64_div :: "real \<Rightarrow> real \<Rightarrow> real option" where
  "binary64_div x y = (if y = 0 then None else binary64 (x / y))"

text \<open>\<open>Fx / (c_light_ * E_r)\<close>, then \<open>fx_L * (c_light_ * erad_L)\<close> on the result.\<close>

definition reduced_flux_binary64 :: "real \<Rightarrow> real \<Rightarrow> real \<Rightarrow> real option" where
  "reduced_flux_binary64 c E_r Fx =
     (case binary64_mul c E_r of None \<Rightarrow> None | Some cE \<Rightarrow> binary64_div Fx cE)"

definition unreduced_flux_binary64 :: "real \<Rightarrow> real \<Rightarrow> real \<Rightarrow> real option" where
  "unreduced_flux_binary64 c erad fx =
     (case binary64_mul c erad of None \<Rightarrow> None | Some ce \<Rightarrow> binary64_mul fx ce)"

definition round_trip_binary64 :: "real \<Rightarrow> real \<Rightarrow> real \<Rightarrow> real option" where
  "round_trip_binary64 c E_r Fx =
     (case reduced_flux_binary64 c E_r Fx of
        None \<Rightarrow> None
      | Some fx \<Rightarrow> unreduced_flux_binary64 c E_r fx)"

text \<open>
  \<open>SolveLinearEqs\<close> in the same reading: every quotient, product, sum and difference of its
  three lines is rounded; a change of sign is exact. The result is \<open>None\<close> when an operation
  overflows or divides by zero. The sum of an array adds its entries to zero from the left,
  as \<open>valarray_sum\<close> does.
\<close>

definition binary64_add :: "real \<Rightarrow> real \<Rightarrow> real option" where
  "binary64_add x y = binary64 (x + y)"

definition binary64_sub :: "real \<Rightarrow> real \<Rightarrow> real option" where
  "binary64_sub x y = binary64 (x - y)"

definition valarray_binary64 ::
  "(real \<Rightarrow> real \<Rightarrow> real option) \<Rightarrow> real list \<Rightarrow> real list \<Rightarrow> real list option" where
  "valarray_binary64 f xs ys = those (map2 f xs ys)"

definition valarray_sum_binary64 :: "real list \<Rightarrow> real option" where
  "valarray_sum_binary64 xs =
     foldl (\<lambda>s x. Option.bind s (\<lambda>s. binary64_add s x)) (Some 0) xs"

definition SolveLinearEqs_binary64 ::
  "real \<Rightarrow> real list \<Rightarrow> real list \<Rightarrow> real list \<Rightarrow> real \<Rightarrow> real list
     \<Rightarrow> (real \<times> real list) option" where
  "SolveLinearEqs_binary64 a00 a0i ai0 aii y0 yi =
     Option.bind (valarray_binary64 binary64_div a0i aii) (\<lambda>ratios.
     Option.bind (valarray_binary64 binary64_mul ratios yi) (\<lambda>ratios_yi.
     Option.bind (valarray_sum_binary64 ratios_yi) (\<lambda>sum_yi.
     Option.bind (valarray_binary64 binary64_mul ratios ai0) (\<lambda>ratios_ai0.
     Option.bind (valarray_sum_binary64 ratios_ai0) (\<lambda>sum_ai0.
     Option.bind (binary64_add (- sum_yi) y0) (\<lambda>numerator.
     Option.bind (binary64_add (- sum_ai0) a00) (\<lambda>denominator.
     Option.bind (binary64_div numerator denominator) (\<lambda>x0.
     Option.bind (those (map (\<lambda>a. binary64_mul a x0) ai0)) (\<lambda>ai0_x0.
     Option.bind (valarray_binary64 binary64_sub yi ai0_x0) (\<lambda>difference.
     Option.bind (valarray_binary64 binary64_div difference aii) (\<lambda>xi.
     Some (x0, xi))))))))))))"

section \<open>Properties\<close>

subsection \<open>The closure\<close>

lemma clamp_range: "0 \<le> clamp f 0 1 \<and> clamp f 0 1 \<le> 1"
  by (simp add: clamp_def)

lemma clamp_min_max: "clamp f 0 1 = min (max f 0) 1"
  by (simp add: clamp_def min_def max_def)

lemma closure_bounds:
  assumes "0 \<le> g" "g \<le> 1"
  shows "1 / 3 \<le> (3 + 4 * (g * g)) / (5 + 2 * sqrt (4 - 3 * (g * g)))"
    and "(3 + 4 * (g * g)) / (5 + 2 * sqrt (4 - 3 * (g * g))) \<le> 1"
proof -
  have gg: "0 \<le> g * g" "g * g \<le> 1"
    using assms by (simp_all add: mult_le_one)
  have s1: "1 \<le> sqrt (4 - 3 * (g * g))"
    using gg by (simp add: real_le_rsqrt)
  have "sqrt (4 - 3 * (g * g)) \<le> sqrt 4"
    using gg by (intro real_sqrt_le_mono) simp
  then have s2: "sqrt (4 - 3 * (g * g)) \<le> 2" by simp
  have pos: "0 < 5 + 2 * sqrt (4 - 3 * (g * g))" using s1 by linarith
  show "1 / 3 \<le> (3 + 4 * (g * g)) / (5 + 2 * sqrt (4 - 3 * (g * g)))"
  proof -
    have "2 * sqrt (4 - 3 * (g * g)) \<le> 4 + 12 * (g * g)"
      using s2 zero_le_square [of g] by linarith
    then show ?thesis using pos by (simp add: le_divide_eq)
  qed
  show "(3 + 4 * (g * g)) / (5 + 2 * sqrt (4 - 3 * (g * g))) \<le> 1"
  proof -
    have "4 * (g * g) \<le> 2 + 2 * sqrt (4 - 3 * (g * g))"
      using s1 gg by linarith
    then show ?thesis using pos by (simp add: divide_le_eq)
  qed
qed

lemma ComputeEddingtonFactor_range:
  "1 / 3 \<le> ComputeEddingtonFactor f \<and> ComputeEddingtonFactor f \<le> 1"
  unfolding ComputeEddingtonFactor_def Let_def
  using closure_bounds [of "clamp f 0 1"] clamp_range [of f] by blast

text \<open>
  Claim C2. For every real \<open>f\<close>, \<open>ComputeEddingtonFactor f\<close> is
  \<open>(3 + 4 g\<^sup>2) / (5 + 2 \<surd>(4 - 3 g\<^sup>2))\<close> where \<open>g\<close> is \<open>f\<close> clamped to \<open>[0, 1]\<close>; for \<open>f\<close> in
  \<open>[0, 1]\<close> the result lies in \<open>[1/3, 1]\<close>; the value at \<open>0\<close> is \<open>1/3\<close> and the value at
  \<open>1\<close> is \<open>1\<close>, both exactly and hence within \<open>10\<^sup>-\<^sup>1\<^sup>2\<close>.
\<close>

theorem ComputeEddingtonFactor_closure:
  "ComputeEddingtonFactor f =
     (3 + 4 * (min (max f 0) 1)\<^sup>2) / (5 + 2 * sqrt (4 - 3 * (min (max f 0) 1)\<^sup>2))
   \<and> (0 \<le> f \<and> f \<le> 1 \<longrightarrow> 1 / 3 \<le> ComputeEddingtonFactor f \<and> ComputeEddingtonFactor f \<le> 1)
   \<and> \<bar>ComputeEddingtonFactor 0 - 1 / 3\<bar> \<le> 1 / 10 ^ 12
   \<and> \<bar>ComputeEddingtonFactor 1 - 1\<bar> \<le> 1 / 10 ^ 12
   \<and> ComputeEddingtonFactor 0 = 1 / 3 \<and> ComputeEddingtonFactor 1 = 1"
proof -
  have a: "ComputeEddingtonFactor f =
     (3 + 4 * (min (max f 0) 1)\<^sup>2) / (5 + 2 * sqrt (4 - 3 * (min (max f 0) 1)\<^sup>2))"
    by (simp add: ComputeEddingtonFactor_def Let_def clamp_min_max power2_eq_square)
  have z: "ComputeEddingtonFactor 0 = 1 / 3"
    by (simp add: ComputeEddingtonFactor_def clamp_def)
  have o: "ComputeEddingtonFactor 1 = 1"
    by (simp add: ComputeEddingtonFactor_def clamp_def)
  have az: "\<bar>ComputeEddingtonFactor 0 - 1 / 3\<bar> \<le> 1 / 10 ^ 12"
    by (simp add: z)
  have ao: "\<bar>ComputeEddingtonFactor 1 - 1\<bar> \<le> 1 / 10 ^ 12"
    by (simp add: o)
  from a z o az ao ComputeEddingtonFactor_range [of f] show ?thesis
    by blast
qed

theorem ComputeEddingtonFactor_closure_witness:
  "(0::real) \<le> 1 / 2 \<and> (1 / 2::real) \<le> 1
   \<and> 1 / 3 \<le> ComputeEddingtonFactor (1 / 2) \<and> ComputeEddingtonFactor (1 / 2) \<le> 1"
proof -
  have h: "(0::real) \<le> 1 / 2 \<and> (1 / 2::real) \<le> 1" by simp
  from ComputeEddingtonFactor_closure [of "1 / 2"] h show ?thesis by blast
qed

subsection \<open>The pressure tensor and the wave speeds\<close>

lemma direction_square_le_one:
  fixes a b c :: real
  assumes "0 < sqrt (a * a + b * b + c * c)"
  shows "(a / sqrt (a * a + b * b + c * c)) * (a / sqrt (a * a + b * b + c * c)) \<le> 1"
proof -
  let ?q = "a * a + b * b + c * c"
  have q: "0 < ?q" using assms by simp
  then have "sqrt ?q * sqrt ?q = ?q" by simp
  then have "(a / sqrt ?q) * (a / sqrt ?q) = (a * a) / ?q" by simp
  moreover have "a * a \<le> ?q"
    using zero_le_square [of b] zero_le_square [of c] by linarith
  ultimately show ?thesis using q by (simp add: divide_le_eq)
qed

lemma tensor_entry_range:
  fixes chi m :: real
  assumes "1 / 3 \<le> chi" "chi \<le> 1" "0 \<le> m" "m \<le> 1"
  shows "0 \<le> (1 - chi) / 2 + (3 * chi - 1) / 2 * m
       \<and> (1 - chi) / 2 + (3 * chi - 1) / 2 * m \<le> 1"
proof -
  define p where "p = (3 * chi - 1) / 2 * m"
  have tf: "0 \<le> (3 * chi - 1) / 2" using assms by simp
  have p0: "0 \<le> p" unfolding p_def using tf assms by simp
  have "(3 * chi - 1) / 2 * m \<le> (3 * chi - 1) / 2 * 1"
    using tf assms by (intro mult_left_mono) simp_all
  then have p1: "p \<le> (3 * chi - 1) / 2" by (simp add: p_def)
  have "0 \<le> (1 - chi) / 2 + p" using p0 assms by argo
  moreover have "(1 - chi) / 2 + p \<le> 1" using p1 assms by argo
  ultimately show ?thesis by (simp add: p_def)
qed

lemma direction_component_range:
  fixes a b c :: real
  shows "(if sqrt (a * a + b * b + c * c) > 0 then a / sqrt (a * a + b * b + c * c) else 0)
           * (if sqrt (a * a + b * b + c * c) > 0 then a / sqrt (a * a + b * b + c * c) else 0)
         \<le> 1"
  using direction_square_le_one [of a b c] by simp

lemma ComputeEddingtonTensor_diag:
  "\<exists>T. ComputeEddingtonTensor fx fy fz = Inr T
     \<and> 0 \<le> T ! 0 ! 0 \<and> T ! 0 ! 0 \<le> 1
     \<and> 0 \<le> T ! 1 ! 1 \<and> T ! 1 ! 1 \<le> 1
     \<and> 0 \<le> T ! 2 ! 2 \<and> T ! 2 ! 2 \<le> 1"
proof -
  define f where "f = sqrt (fx * fx + fy * fy + fz * fz)"
  define chi where "chi = ComputeEddingtonFactor f"
  define n where "n = map (\<lambda>ii. if f > 0 then [fx, fy, fz] ! ii / f else 0) [0..<3]"
  define T where "T = map (\<lambda>ii. map (\<lambda>jj.
      (1 - chi) / 2 * (if ii = jj then 1 else 0) + (3 * chi - 1) / 2 * (n ! ii * n ! jj))
      [0..<3]) [0..<3]"
  have chi: "1 / 3 \<le> chi" "chi \<le> 1"
    using ComputeEddingtonFactor_range [of f] by (simp_all add: chi_def)
  have upt3: "[0..<3] = [0, Suc 0, Suc (Suc 0)]"
    by (simp add: numeral_3_eq_3 upt_rec)
  have n0: "n ! 0 = (if f > 0 then fx / f else 0)"
   and n1: "n ! 1 = (if f > 0 then fy / f else 0)"
   and n2: "n ! 2 = (if f > 0 then fz / f else 0)"
    by (simp_all add: n_def upt3 numeral_2_eq_2)
  have m0: "n ! 0 * n ! 0 \<le> 1"
    unfolding n0 f_def using direction_component_range [of fx fy fz] .
  have "fy * fy + fx * fx + fz * fz = fx * fx + fy * fy + fz * fz" by simp
  then have m1: "n ! 1 * n ! 1 \<le> 1"
    unfolding n1 f_def using direction_component_range [of fy fx fz] by simp
  have "fz * fz + fy * fy + fx * fx = fx * fx + fy * fy + fz * fz" by simp
  then have m2: "n ! 2 * n ! 2 \<le> 1"
    unfolding n2 f_def using direction_component_range [of fz fy fx] by simp
  have res: "ComputeEddingtonTensor fx fy fz = Inr T"
    unfolding ComputeEddingtonTensor_def Let_def f_def [symmetric] chi_def [symmetric]
      n_def [symmetric] T_def
    using chi by simp
  have d0: "T ! 0 ! 0 = (1 - chi) / 2 + (3 * chi - 1) / 2 * (n ! 0 * n ! 0)"
   and d1: "T ! 1 ! 1 = (1 - chi) / 2 + (3 * chi - 1) / 2 * (n ! 1 * n ! 1)"
   and d2: "T ! 2 ! 2 = (1 - chi) / 2 + (3 * chi - 1) / 2 * (n ! 2 * n ! 2)"
    by (simp_all add: T_def upt3 numeral_2_eq_2)
  show ?thesis
    using res tensor_entry_range [OF chi zero_le_square m0]
      tensor_entry_range [OF chi zero_le_square m1]
      tensor_entry_range [OF chi zero_le_square m2]
    unfolding d0 [symmetric] d1 [symmetric] d2 [symmetric] by blast
qed

lemma ComputeRadPressure_speed:
  assumes "erad > 0"
  shows "\<exists>r. ComputeRadPressure DIR erad Fx Fy Fz fx fy fz = Inr r
           \<and> 1 / 10 \<le> S r \<and> S r \<le> 1"
proof -
  obtain T where T: "ComputeEddingtonTensor fx fy fz = Inr T"
    and d: "0 \<le> T ! 0 ! 0" "T ! 0 ! 0 \<le> 1" "0 \<le> T ! 1 ! 1" "T ! 1 ! 1 \<le> 1"
           "0 \<le> T ! 2 ! 2" "T ! 2 ! 2 \<le> 1"
    using ComputeEddingtonTensor_diag [of fx fy fz] by blast
  have sq: "\<And>x::real. 0 \<le> x \<Longrightarrow> x \<le> 1 \<Longrightarrow> sqrt x \<le> 1"
    by simp
  show ?thesis
    using assms d sq
    by (cases DIR) (simp_all add: ComputeRadPressure_def T Let_def)
qed

lemma wave_data_speeds:
  assumes L: "fst left ! 0 > 0" and R: "fst right ! 0 > 0" and c: "c_hat t > 0"
  shows "\<exists>F_L S_L F_R S_R. wave_data t DIR left right = Inr (F_L, S_L, F_R, S_R)
           \<and> \<bar>S_L\<bar> \<le> c_hat t \<and> \<bar>S_R\<bar> \<le> c_hat t
           \<and> 2 / 10 * c_hat t \<le> S_R - S_L \<and> 0 < S_R - S_L"
proof -
  obtain rL where rL: "ComputeRadPressure DIR (fst left ! 0) (fst left ! 1) (fst left ! 2)
      (fst left ! 3) (snd left ! 0) (snd left ! 1) (snd left ! 2) = Inr rL"
    and sL: "1 / 10 \<le> S rL" "S rL \<le> 1"
    using ComputeRadPressure_speed [OF L] by blast
  obtain rR where rR: "ComputeRadPressure DIR (fst right ! 0) (fst right ! 1) (fst right ! 2)
      (fst right ! 3) (snd right ! 0) (snd right ! 1) (snd right ! 2) = Inr rR"
    and sR: "1 / 10 \<le> S rR" "S rR \<le> 1"
    using ComputeRadPressure_speed [OF R] by blast
  define a where "a = S rL * c_hat t"
  define b where "b = S rR * c_hat t"
  have a1: "1 / 10 * c_hat t \<le> a" unfolding a_def using sL c by (intro mult_right_mono) simp_all
  have a2: "a \<le> 1 * c_hat t" unfolding a_def using sL c by (intro mult_right_mono) simp_all
  have b1: "1 / 10 * c_hat t \<le> b" unfolding b_def using sR c by (intro mult_right_mono) simp_all
  have b2: "b \<le> 1 * c_hat t" unfolding b_def using sR c by (intro mult_right_mono) simp_all
  have w: "wave_data t DIR left right =
             Inr (scale_pressure t (F rL), - a, scale_pressure t (F rR), b)"
    unfolding wave_data_def rL rR a_def b_def by (simp add: Let_def)
  have "\<bar>- a\<bar> \<le> c_hat t" using a1 a2 c by simp
  moreover have "\<bar>b\<bar> \<le> c_hat t" using b1 b2 c by simp
  moreover have "2 / 10 * c_hat t \<le> b - (- a)" using a1 b1 by simp
  moreover have "0 < b - (- a)" using a1 b1 c by simp
  ultimately show ?thesis using w by blast
qed

lemma hll_flux_defined:
  assumes L: "fst left ! 0 > 0" and R: "fst right ! 0 > 0" and c: "c_hat t > 0"
  shows "\<exists>Flux diffusiveF. hll_flux t DIR epsilon left right = Inr (Flux, diffusiveF)"
proof -
  obtain F_L S_L F_R S_R where w: "wave_data t DIR left right = Inr (F_L, S_L, F_R, S_R)"
    and s: "\<bar>S_L\<bar> \<le> c_hat t" "\<bar>S_R\<bar> \<le> c_hat t" "0 < S_R - S_L"
    using wave_data_speeds [OF L R c, of DIR] by blast
  show ?thesis using s by (simp add: hll_flux_def w Let_def)
qed

text \<open>
  Claim C10. For \<open>erad > 0\<close> and any reduced flux, \<open>ComputeRadPressure\<close> returns a wave
  speed \<open>S\<close> with \<open>0.1 \<le> S \<le> 1\<close>. Hence in \<open>ComputeFluxes\<close>, for two sides with positive
  energy and \<open>c_hat > 0\<close>, the scaled speeds satisfy \<open>|S_L| \<le> c_hat\<close>, \<open>|S_R| \<le> c_hat\<close> and
  \<open>S_R - S_L \<ge> 0.2 c_hat > 0\<close>, and the star-state flux is defined: no assertion fails and
  the flux is a number.
\<close>

theorem wavespeed_bounds:
  "(erad > 0 \<longrightarrow>
      (\<exists>r. ComputeRadPressure DIR erad Fx Fy Fz fx fy fz = Inr r \<and> 1 / 10 \<le> S r \<and> S r \<le> 1))
   \<and> (fst left ! 0 > 0 \<and> fst right ! 0 > 0 \<and> c_hat t > 0 \<longrightarrow>
      (\<exists>F_L S_L F_R S_R. wave_data t DIR left right = Inr (F_L, S_L, F_R, S_R)
           \<and> \<bar>S_L\<bar> \<le> c_hat t \<and> \<bar>S_R\<bar> \<le> c_hat t
           \<and> 2 / 10 * c_hat t \<le> S_R - S_L \<and> 0 < S_R - S_L)
      \<and> (\<exists>Flux diffusiveF. hll_flux t DIR epsilon left right = Inr (Flux, diffusiveF)))"
  using ComputeRadPressure_speed [of erad DIR Fx Fy Fz fx fy fz]
    wave_data_speeds [of left right t DIR] hll_flux_defined [of left right t DIR epsilon]
  by blast

theorem wavespeed_bounds_witness:
  "(1::real) > 0
   \<and> (\<exists>r. ComputeRadPressure X1 1 0 0 0 0 0 0 = Inr r \<and> 1 / 10 \<le> S r \<and> S r \<le> 1)
   \<and> fst ([1, 0, 0, 0], [0, 0, 0]) ! 0 > (0::real)
   \<and> c_hat unit_traits > 0
   \<and> (\<exists>F_L S_L F_R S_R.
         wave_data unit_traits X1 ([1, 0, 0, 0], [0, 0, 0]) ([1, 0, 0, 0], [0, 0, 0])
           = Inr (F_L, S_L, F_R, S_R)
         \<and> \<bar>S_L\<bar> \<le> c_hat unit_traits \<and> \<bar>S_R\<bar> \<le> c_hat unit_traits
         \<and> 2 / 10 * c_hat unit_traits \<le> S_R - S_L \<and> 0 < S_R - S_L)
   \<and> (\<exists>Flux diffusiveF.
         hll_flux unit_traits X1 [1, 1, 1, 1] ([1, 0, 0, 0], [0, 0, 0]) ([1, 0, 0, 0], [0, 0, 0])
           = Inr (Flux, diffusiveF))"
proof -
  have h: "(1::real) > 0" "fst ([1, 0, 0, 0], [0, 0, 0]) ! 0 > (0::real)"
    "c_hat unit_traits > 0"
    by (simp_all add: unit_traits_def)
  from wavespeed_bounds [of 1 X1 0 0 0 0 0 0 "([1, 0, 0, 0], [0, 0, 0])"
      "([1, 0, 0, 0], [0, 0, 0])" unit_traits "[1, 1, 1, 1]"]
  have a: "\<exists>r. ComputeRadPressure X1 1 0 0 0 0 0 0 = Inr r \<and> 1 / 10 \<le> S r \<and> S r \<le> 1"
    and b: "(\<exists>F_L S_L F_R S_R.
         wave_data unit_traits X1 ([1, 0, 0, 0], [0, 0, 0]) ([1, 0, 0, 0], [0, 0, 0])
           = Inr (F_L, S_L, F_R, S_R)
         \<and> \<bar>S_L\<bar> \<le> c_hat unit_traits \<and> \<bar>S_R\<bar> \<le> c_hat unit_traits
         \<and> 2 / 10 * c_hat unit_traits \<le> S_R - S_L \<and> 0 < S_R - S_L)
      \<and> (\<exists>Flux diffusiveF.
         hll_flux unit_traits X1 [1, 1, 1, 1] ([1, 0, 0, 0], [0, 0, 0]) ([1, 0, 0, 0], [0, 0, 0])
           = Inr (Flux, diffusiveF))"
    using h by simp_all
  from a b h show ?thesis by simp
qed

subsection \<open>The interface flux solver\<close>

lemma length_four:
  assumes "length xs = 4"
  shows "\<exists>a b c d. xs = [a, b, c, d]"
proof -
  from assms obtain a xs1 where 1: "xs = a # xs1" "length xs1 = 3"
    by (cases xs) auto
  then obtain b xs2 where 2: "xs1 = b # xs2" "length xs2 = 2"
    by (cases xs1) auto
  then obtain c xs3 where 3: "xs2 = c # xs3" "length xs3 = 1"
    by (cases xs2) auto
  then obtain d where 4: "xs3 = [d]"
    by (cases xs3) auto
  show ?thesis using 1 2 3 4 by simp
qed

lemma identity_epsilon:
  fixes d :: "real list"
  assumes "length d = 4"
  shows "valarray_mul (valarray_times [1, 1, 1, 1] s) d = valarray_scale s d"
proof -
  obtain a b c e where "d = [a, b, c, e]" using length_four [OF assms] by blast
  then show ?thesis
    by (simp add: valarray_mul_def valarray_times_def valarray_scale_def)
qed

lemma hll_flux_identity_epsilon:
  assumes "length (fst left) = 4" "length (fst right) = 4"
    and "hll_flux t DIR [1, 1, 1, 1] left right = Inr (Flux, diffusiveF)"
  shows "Flux = diffusiveF"
proof -
  have "length (valarray_sub (fst right) (fst left)) = 4"
    using assms(1,2) by (simp add: valarray_sub_def)
  from identity_epsilon [OF this] assms(3) show ?thesis
    by (auto simp: hll_flux_def Let_def split: sum.splits if_splits)
qed

lemma side_lengths:
  "length (fst (reconstructed_side t x1State i j k g)) = 4"
  "length (fst (donor_side t consVar i j k g)) = 4"
  by (simp_all add: reconstructed_side_def donor_side_def Let_def)

lemma gather_states_lengths:
  "length (fst (fst (gather_states t xL xR consVar i j k g))) = 4"
  "length (fst (snd (gather_states t xL xR consVar i j k g))) = 4"
  by (simp_all add: gather_states_def Let_def side_lengths)

lemma ComputeFluxes_group_no_correction:
  assumes "ComputeFluxes_group t DIR False tau_cell xL xR consVar i j k g = Inr (Flux, diffusiveF)"
  shows "Flux = diffusiveF"
proof -
  obtain left right where lr: "gather_states t xL xR consVar i j k g = (left, right)"
    by (cases "gather_states t xL xR consVar i j k g")
  have len: "length (fst left) = 4" "length (fst right) = 4"
    using gather_states_lengths [of t xL xR consVar i j k g] by (simp_all add: lr)
  have "hll_flux t DIR [1, 1, 1, 1] left right = Inr (Flux, diffusiveF)"
    using assms by (simp add: ComputeFluxes_group_def lr wavespeed_epsilon_def)
  from hll_flux_identity_epsilon [OF len this] show ?thesis .
qed

lemma group_offsets:
  "radEnergy_index t + numRadVars * g - nstartHyperbolic t = 4 * g"
  "x1RadFlux_index t + numRadVars * g - nstartHyperbolic t = 4 * g + 1"
  "x2RadFlux_index t + numRadVars * g - nstartHyperbolic t = 4 * g + 2"
  "x3RadFlux_index t + numRadVars * g - nstartHyperbolic t = 4 * g + 3"
  by (simp_all add: radEnergy_index_def x1RadFlux_index_def x2RadFlux_index_def
      x3RadFlux_index_def numRadVars_def)

lemma less_four: "(m::nat) < 4 \<longleftrightarrow> m = 0 \<or> m = 1 \<or> m = 2 \<or> m = 3"
  by auto

lemma store_flux_read:
  assumes "m < 4"
  shows "store_flux t A i j k g Fl i j k (4 * g + m) = Fl ! m"
  using assms by (auto simp: less_four store_flux_def Let_def array_write_def group_offsets)

lemma store_flux_other:
  assumes "g' \<noteq> g" "m < 4"
  shows "store_flux t A i j k g' Fl i j k (4 * g + m) = A i j k (4 * g + m)"
proof -
  have "4 * g + m \<noteq> 4 * g'" "4 * g + m \<noteq> 4 * g' + 1" "4 * g + m \<noteq> 4 * g' + 2"
    "4 * g + m \<noteq> 4 * g' + 3"
    using assms by presburger+
  then show ?thesis
    by (simp add: store_flux_def Let_def array_write_def group_offsets)
qed

lemma ComputeFluxes_face_preserves:
  assumes "ComputeFluxes_face t DIR corr tau xL xR consVar i j k gs (A0, B0) = Inr (A, B)"
    and "g \<notin> set gs" "m < 4"
  shows "A i j k (4 * g + m) = A0 i j k (4 * g + m)
       \<and> B i j k (4 * g + m) = B0 i j k (4 * g + m)"
  using assms
proof (induction gs arbitrary: A0 B0)
  case Nil
  then show ?case by simp
next
  case (Cons g' gs)
  from Cons.prems(1) obtain Fl dF where
    grp: "ComputeFluxes_group t DIR corr tau xL xR consVar i j k g' = Inr (Fl, dF)"
    and rest: "ComputeFluxes_face t DIR corr tau xL xR consVar i j k gs
                 (store_flux t A0 i j k g' Fl, store_flux t B0 i j k g' dF) = Inr (A, B)"
    by (auto split: sum.splits)
  from Cons.prems(2) have ne: "g' \<noteq> g" and notin: "g \<notin> set gs" by auto
  from Cons.IH [OF rest notin Cons.prems(3)]
  show ?case by (simp add: store_flux_other [OF ne Cons.prems(3)])
qed

lemma ComputeFluxes_face_result:
  assumes "ComputeFluxes_face t DIR corr tau xL xR consVar i j k gs (A0, B0) = Inr (A, B)"
    and "distinct gs" "g \<in> set gs"
  shows "\<exists>Fl dF. ComputeFluxes_group t DIR corr tau xL xR consVar i j k g = Inr (Fl, dF)
           \<and> (\<forall>m<4. A i j k (4 * g + m) = Fl ! m \<and> B i j k (4 * g + m) = dF ! m)"
  using assms
proof (induction gs arbitrary: A0 B0)
  case Nil
  then show ?case by simp
next
  case (Cons g' gs)
  from Cons.prems(1) obtain Fl dF where
    grp: "ComputeFluxes_group t DIR corr tau xL xR consVar i j k g' = Inr (Fl, dF)"
    and rest: "ComputeFluxes_face t DIR corr tau xL xR consVar i j k gs
                 (store_flux t A0 i j k g' Fl, store_flux t B0 i j k g' dF) = Inr (A, B)"
    by (auto split: sum.splits)
  show ?case
  proof (cases "g = g'")
    case True
    then have "g \<notin> set gs" using Cons.prems(2) by simp
    from ComputeFluxes_face_preserves [OF rest this]
    have "\<forall>m<4. A i j k (4 * g + m) = Fl ! m \<and> B i j k (4 * g + m) = dF ! m"
      using True by (simp add: store_flux_read)
    then show ?thesis using grp True by blast
  next
    case False
    then have "g \<in> set gs" using Cons.prems(3) by simp
    moreover have "distinct gs" using Cons.prems(2) by simp
    ultimately show ?thesis using Cons.IH [OF rest] by blast
  qed
qed

text \<open>
  Claim C6. With the wavespeed correction off, which is the default, the flux and the
  diffusive flux that \<open>ComputeFluxes\<close> computes for a face and a group are the same, and so
  are the values it stores in the two flux arrays, component by component.
\<close>

theorem diffusive_flux_identical:
  "\<not> use_wavespeed_correction
   \<and> (\<not> correction \<longrightarrow>
        (\<forall>Flux diffusiveF.
           ComputeFluxes_group t DIR correction tau_cell xL xR consVar i j k g
             = Inr (Flux, diffusiveF) \<longrightarrow> Flux = diffusiveF)
      \<and> (\<forall>A B.
           ComputeFluxes_face t DIR correction tau_cell xL xR consVar i j k [0..<nGroups t]
             (A0, B0) = Inr (A, B) \<longrightarrow>
           (\<forall>g<nGroups t. \<forall>m<4. A i j k (4 * g + m) = B i j k (4 * g + m))))"
proof (intro conjI impI allI)
  show "\<not> use_wavespeed_correction" by (simp add: use_wavespeed_correction_def)
next
  fix Flux diffusiveF
  assume "\<not> correction"
    and "ComputeFluxes_group t DIR correction tau_cell xL xR consVar i j k g
           = Inr (Flux, diffusiveF)"
  then show "Flux = diffusiveF"
    using ComputeFluxes_group_no_correction by simp
next
  fix A B :: Array4 and g m :: nat
  assume nc: "\<not> correction"
    and face: "ComputeFluxes_face t DIR correction tau_cell xL xR consVar i j k
                 [0..<nGroups t] (A0, B0) = Inr (A, B)"
    and g: "g < nGroups t" and m: "m < 4"
  have "g \<in> set [0..<nGroups t]" using g by simp
  from ComputeFluxes_face_result [OF face distinct_upt this]
  obtain Fl dF where
    grp: "ComputeFluxes_group t DIR correction tau_cell xL xR consVar i j k g = Inr (Fl, dF)"
    and st: "\<forall>m<4. A i j k (4 * g + m) = Fl ! m \<and> B i j k (4 * g + m) = dF ! m"
    by blast
  have "Fl = dF" using grp nc ComputeFluxes_group_no_correction by simp
  then show "A i j k (4 * g + m) = B i j k (4 * g + m)" using st m by simp
qed

lemma uniform_group_defined:
  "\<exists>Flux diffusiveF.
     ComputeFluxes_group unit_traits X1 False [0] (uniform_field 1 0) (uniform_field 1 0)
       (uniform_field 1 0) 0 0 0 0 = Inr (Flux, diffusiveF)"
proof -
  have g: "gather_states unit_traits (uniform_field 1 0) (uniform_field 1 0)
             (uniform_field 1 0) 0 0 0 0 = (([1, 0, 0, 0], [0, 0, 0]), ([1, 0, 0, 0], [0, 0, 0]))"
    by (simp add: gather_states_def reconstructed_side_def reduced_flux_norm_def Let_def
        uniform_field_def numRadVars_def primRadEnergy_index_def x1ReducedFlux_index_def
        x2ReducedFlux_index_def x3ReducedFlux_index_def)
  have "\<exists>Flux diffusiveF. hll_flux unit_traits X1 [1, 1, 1, 1]
          ([1, 0, 0, 0], [0, 0, 0]) ([1, 0, 0, 0], [0, 0, 0]) = Inr (Flux, diffusiveF)"
    by (rule hll_flux_defined) (simp_all add: unit_traits_def)
  then show ?thesis
    by (simp add: ComputeFluxes_group_def g wavespeed_epsilon_def)
qed

theorem diffusive_flux_identical_witness:
  "\<not> False
   \<and> (\<exists>Flux diffusiveF.
        ComputeFluxes_group unit_traits X1 False [0] (uniform_field 1 0) (uniform_field 1 0)
          (uniform_field 1 0) 0 0 0 0 = Inr (Flux, diffusiveF) \<and> Flux = diffusiveF)
   \<and> (\<exists>A B.
        ComputeFluxes_face unit_traits X1 False [0] (uniform_field 1 0) (uniform_field 1 0)
          (uniform_field 1 0) 0 0 0 [0..<nGroups unit_traits] (uniform_field 0 0, uniform_field 0 0)
          = Inr (A, B)
        \<and> (0::nat) < nGroups unit_traits
        \<and> (\<forall>m<4. A 0 0 0 (4 * 0 + m) = B 0 0 0 (4 * 0 + m)))"
proof -
  obtain Flux diffusiveF where
    grp: "ComputeFluxes_group unit_traits X1 False [0] (uniform_field 1 0) (uniform_field 1 0)
            (uniform_field 1 0) 0 0 0 0 = Inr (Flux, diffusiveF)"
    using uniform_group_defined by blast
  note inst = diffusive_flux_identical [of False unit_traits X1 "[0]" "uniform_field 1 0"
      "uniform_field 1 0" "uniform_field 1 0" 0 0 0 0 "uniform_field 0 0" "uniform_field 0 0"]
  have eq: "Flux = diffusiveF" using inst grp by blast
  have n: "nGroups unit_traits = 1" by (simp add: unit_traits_def)
  have face: "ComputeFluxes_face unit_traits X1 False [0] (uniform_field 1 0)
      (uniform_field 1 0) (uniform_field 1 0) 0 0 0 [0..<nGroups unit_traits]
      (uniform_field 0 0, uniform_field 0 0)
      = Inr (store_flux unit_traits (uniform_field 0 0) 0 0 0 0 Flux,
             store_flux unit_traits (uniform_field 0 0) 0 0 0 0 diffusiveF)"
    by (simp add: n grp)
  have "\<forall>m<4. store_flux unit_traits (uniform_field 0 0) 0 0 0 0 Flux 0 0 0 (4 * 0 + m)
            = store_flux unit_traits (uniform_field 0 0) 0 0 0 0 diffusiveF 0 0 0 (4 * 0 + m)"
    using inst face n by (metis less_one)
  then show ?thesis using grp eq face n by auto
qed

text \<open>
  Claim C3. In \<open>ComputeFluxes\<close>, at every face and for every group: when a reconstructed
  energy is not positive or a reconstructed reduced flux has norm at least \<open>1\<close>, the flux
  of that group is the star-state flux of the conserved values of the two adjacent cells,
  with the primitives recomputed from them; otherwise it is the star-state flux of the
  reconstructed states, unchanged. The values stored for a group are those of that group,
  so the fallback of one group does not touch another.
\<close>

theorem admissibility_fallback:
  "ComputeFluxes_group t DIR correction tau_cell xL xR consVar i j k g =
     (if xL i j k (primRadEnergy_index + numRadVars * g) \<le> 0
         \<or> xR i j k (primRadEnergy_index + numRadVars * g) \<le> 0
         \<or> sqrt (xL i j k (x1ReducedFlux_index + numRadVars * g)
                   * xL i j k (x1ReducedFlux_index + numRadVars * g)
                 + xL i j k (x2ReducedFlux_index + numRadVars * g)
                   * xL i j k (x2ReducedFlux_index + numRadVars * g)
                 + xL i j k (x3ReducedFlux_index + numRadVars * g)
                   * xL i j k (x3ReducedFlux_index + numRadVars * g)) \<ge> 1
         \<or> sqrt (xR i j k (x1ReducedFlux_index + numRadVars * g)
                   * xR i j k (x1ReducedFlux_index + numRadVars * g)
                 + xR i j k (x2ReducedFlux_index + numRadVars * g)
                   * xR i j k (x2ReducedFlux_index + numRadVars * g)
                 + xR i j k (x3ReducedFlux_index + numRadVars * g)
                   * xR i j k (x3ReducedFlux_index + numRadVars * g)) \<ge> 1
      then hll_flux t DIR (wavespeed_epsilon correction tau_cell i j k g)
             (donor_side t consVar (i - 1) j k g) (donor_side t consVar i j k g)
      else hll_flux t DIR (wavespeed_epsilon correction tau_cell i j k g)
             (reconstructed_side t xL i j k g) (reconstructed_side t xR i j k g))
   \<and> donor_side t consVar i' j k g =
       ([consVar i' j k (nstartHyperbolic t + 4 * g),
         consVar i' j k (nstartHyperbolic t + 4 * g + 1),
         consVar i' j k (nstartHyperbolic t + 4 * g + 2),
         consVar i' j k (nstartHyperbolic t + 4 * g + 3)],
        [consVar i' j k (nstartHyperbolic t + 4 * g + 1)
           / (c_light t * consVar i' j k (nstartHyperbolic t + 4 * g)),
         consVar i' j k (nstartHyperbolic t + 4 * g + 2)
           / (c_light t * consVar i' j k (nstartHyperbolic t + 4 * g)),
         consVar i' j k (nstartHyperbolic t + 4 * g + 3)
           / (c_light t * consVar i' j k (nstartHyperbolic t + 4 * g))])
   \<and> reconstructed_side t xS i j k g =
       ([xS i j k (4 * g),
         xS i j k (4 * g + 1) * (c_light t * xS i j k (4 * g)),
         xS i j k (4 * g + 2) * (c_light t * xS i j k (4 * g)),
         xS i j k (4 * g + 3) * (c_light t * xS i j k (4 * g))],
        [xS i j k (4 * g + 1), xS i j k (4 * g + 2), xS i j k (4 * g + 3)])
   \<and> (\<forall>A B.
        ComputeFluxes_face t DIR correction tau_cell xL xR consVar i j k [0..<nGroups t]
          (A0, B0) = Inr (A, B) \<longrightarrow>
        (\<forall>h<nGroups t. \<exists>Flux diffusiveF.
           ComputeFluxes_group t DIR correction tau_cell xL xR consVar i j k h
             = Inr (Flux, diffusiveF)
           \<and> (\<forall>m<4. A i j k (4 * h + m) = Flux ! m \<and> B i j k (4 * h + m) = diffusiveF ! m)))"
proof (intro conjI allI impI)
  show "ComputeFluxes_group t DIR correction tau_cell xL xR consVar i j k g =
     (if xL i j k (primRadEnergy_index + numRadVars * g) \<le> 0
         \<or> xR i j k (primRadEnergy_index + numRadVars * g) \<le> 0
         \<or> sqrt (xL i j k (x1ReducedFlux_index + numRadVars * g)
                   * xL i j k (x1ReducedFlux_index + numRadVars * g)
                 + xL i j k (x2ReducedFlux_index + numRadVars * g)
                   * xL i j k (x2ReducedFlux_index + numRadVars * g)
                 + xL i j k (x3ReducedFlux_index + numRadVars * g)
                   * xL i j k (x3ReducedFlux_index + numRadVars * g)) \<ge> 1
         \<or> sqrt (xR i j k (x1ReducedFlux_index + numRadVars * g)
                   * xR i j k (x1ReducedFlux_index + numRadVars * g)
                 + xR i j k (x2ReducedFlux_index + numRadVars * g)
                   * xR i j k (x2ReducedFlux_index + numRadVars * g)
                 + xR i j k (x3ReducedFlux_index + numRadVars * g)
                   * xR i j k (x3ReducedFlux_index + numRadVars * g)) \<ge> 1
      then hll_flux t DIR (wavespeed_epsilon correction tau_cell i j k g)
             (donor_side t consVar (i - 1) j k g) (donor_side t consVar i j k g)
      else hll_flux t DIR (wavespeed_epsilon correction tau_cell i j k g)
             (reconstructed_side t xL i j k g) (reconstructed_side t xR i j k g))"
    by (simp add: ComputeFluxes_group_def gather_states_def Let_def reduced_flux_norm_def
        reconstructed_side_def numeral_2_eq_2)
next
  show "donor_side t consVar i' j k g =
       ([consVar i' j k (nstartHyperbolic t + 4 * g),
         consVar i' j k (nstartHyperbolic t + 4 * g + 1),
         consVar i' j k (nstartHyperbolic t + 4 * g + 2),
         consVar i' j k (nstartHyperbolic t + 4 * g + 3)],
        [consVar i' j k (nstartHyperbolic t + 4 * g + 1)
           / (c_light t * consVar i' j k (nstartHyperbolic t + 4 * g)),
         consVar i' j k (nstartHyperbolic t + 4 * g + 2)
           / (c_light t * consVar i' j k (nstartHyperbolic t + 4 * g)),
         consVar i' j k (nstartHyperbolic t + 4 * g + 3)
           / (c_light t * consVar i' j k (nstartHyperbolic t + 4 * g))])"
    by (simp add: donor_side_def Let_def radEnergy_index_def x1RadFlux_index_def
        x2RadFlux_index_def x3RadFlux_index_def numRadVars_def ac_simps)
next
  show "reconstructed_side t xS i j k g =
       ([xS i j k (4 * g),
         xS i j k (4 * g + 1) * (c_light t * xS i j k (4 * g)),
         xS i j k (4 * g + 2) * (c_light t * xS i j k (4 * g)),
         xS i j k (4 * g + 3) * (c_light t * xS i j k (4 * g))],
        [xS i j k (4 * g + 1), xS i j k (4 * g + 2), xS i j k (4 * g + 3)])"
    by (simp add: reconstructed_side_def Let_def primRadEnergy_index_def
        x1ReducedFlux_index_def x2ReducedFlux_index_def x3ReducedFlux_index_def numRadVars_def
        ac_simps)
next
  fix A B :: Array4 and h :: nat
  assume face: "ComputeFluxes_face t DIR correction tau_cell xL xR consVar i j k
                  [0..<nGroups t] (A0, B0) = Inr (A, B)"
    and h: "h < nGroups t"
  have "h \<in> set [0..<nGroups t]" using h by simp
  from ComputeFluxes_face_result [OF face distinct_upt this]
  show "\<exists>Flux diffusiveF.
           ComputeFluxes_group t DIR correction tau_cell xL xR consVar i j k h
             = Inr (Flux, diffusiveF)
           \<and> (\<forall>m<4. A i j k (4 * h + m) = Flux ! m \<and> B i j k (4 * h + m) = diffusiveF ! m)" .
qed


theorem admissibility_fallback_witness:
  "(uniform_field 1 1 0 0 0 (primRadEnergy_index + numRadVars * 0) \<le> 0
      \<or> uniform_field 1 0 0 0 0 (primRadEnergy_index + numRadVars * 0) \<le> 0
      \<or> sqrt (uniform_field 1 1 0 0 0 (x1ReducedFlux_index + numRadVars * 0)
                * uniform_field 1 1 0 0 0 (x1ReducedFlux_index + numRadVars * 0)
              + uniform_field 1 1 0 0 0 (x2ReducedFlux_index + numRadVars * 0)
                * uniform_field 1 1 0 0 0 (x2ReducedFlux_index + numRadVars * 0)
              + uniform_field 1 1 0 0 0 (x3ReducedFlux_index + numRadVars * 0)
                * uniform_field 1 1 0 0 0 (x3ReducedFlux_index + numRadVars * 0)) \<ge> 1
      \<or> sqrt (uniform_field 1 0 0 0 0 (x1ReducedFlux_index + numRadVars * 0)
                * uniform_field 1 0 0 0 0 (x1ReducedFlux_index + numRadVars * 0)
              + uniform_field 1 0 0 0 0 (x2ReducedFlux_index + numRadVars * 0)
                * uniform_field 1 0 0 0 0 (x2ReducedFlux_index + numRadVars * 0)
              + uniform_field 1 0 0 0 0 (x3ReducedFlux_index + numRadVars * 0)
                * uniform_field 1 0 0 0 0 (x3ReducedFlux_index + numRadVars * 0)) \<ge> 1)
   \<and> ComputeFluxes_group unit_traits X1 False [0] (uniform_field 1 1) (uniform_field 1 0)
         (uniform_field 1 0) 0 0 0 0
       = hll_flux unit_traits X1 [1, 1, 1, 1] ([1, 0, 0, 0], [0, 0, 0]) ([1, 0, 0, 0], [0, 0, 0])
   \<and> (\<exists>A B.
        ComputeFluxes_face unit_traits X1 False [0] (uniform_field 1 1) (uniform_field 1 0)
          (uniform_field 1 0) 0 0 0 [0..<nGroups unit_traits]
          (uniform_field 0 0, uniform_field 0 0) = Inr (A, B)
        \<and> (\<forall>h<nGroups unit_traits. \<exists>Flux diffusiveF.
              ComputeFluxes_group unit_traits X1 False [0] (uniform_field 1 1)
                (uniform_field 1 0) (uniform_field 1 0) 0 0 0 h = Inr (Flux, diffusiveF)
              \<and> (\<forall>m<4. A 0 0 0 (4 * h + m) = Flux ! m \<and> B 0 0 0 (4 * h + m) = diffusiveF ! m)))"
proof -
  note inst = admissibility_fallback [of unit_traits X1 False "[0]" "uniform_field 1 1"
      "uniform_field 1 0" "uniform_field 1 0" 0 0 0 0 0 "uniform_field 1 0"
      "uniform_field 0 0" "uniform_field 0 0"]
  have guard: "sqrt (uniform_field 1 1 0 0 0 (x1ReducedFlux_index + numRadVars * 0)
                * uniform_field 1 1 0 0 0 (x1ReducedFlux_index + numRadVars * 0)
              + uniform_field 1 1 0 0 0 (x2ReducedFlux_index + numRadVars * 0)
                * uniform_field 1 1 0 0 0 (x2ReducedFlux_index + numRadVars * 0)
              + uniform_field 1 1 0 0 0 (x3ReducedFlux_index + numRadVars * 0)
                * uniform_field 1 1 0 0 0 (x3ReducedFlux_index + numRadVars * 0)) \<ge> 1"
    by (simp add: uniform_field_def x1ReducedFlux_index_def x2ReducedFlux_index_def
        x3ReducedFlux_index_def)
  have eps: "wavespeed_epsilon False [0] 0 0 0 0 = [1, 1, 1, 1]"
    by (simp add: wavespeed_epsilon_def)
  have donor: "donor_side unit_traits (uniform_field 1 0) i' 0 0 0 = ([1, 0, 0, 0], [0, 0, 0])"
    for i'
    by (simp add: donor_side_def Let_def uniform_field_def unit_traits_def radEnergy_index_def
        x1RadFlux_index_def x2RadFlux_index_def x3RadFlux_index_def numRadVars_def)
  have grp: "ComputeFluxes_group unit_traits X1 False [0] (uniform_field 1 1) (uniform_field 1 0)
         (uniform_field 1 0) 0 0 0 0
       = hll_flux unit_traits X1 [1, 1, 1, 1] ([1, 0, 0, 0], [0, 0, 0]) ([1, 0, 0, 0], [0, 0, 0])"
    using inst [THEN conjunct1] guard by (simp add: eps donor)
  obtain Flux diffusiveF where
    hll: "hll_flux unit_traits X1 [1, 1, 1, 1] ([1, 0, 0, 0], [0, 0, 0]) ([1, 0, 0, 0], [0, 0, 0])
            = Inr (Flux, diffusiveF)"
    using hll_flux_defined [of "([1, 0, 0, 0], [0, 0, 0])" "([1, 0, 0, 0], [0, 0, 0])"
        unit_traits X1 "[1, 1, 1, 1]"]
    by (auto simp: unit_traits_def)
  have n: "nGroups unit_traits = 1" by (simp add: unit_traits_def)
  have face: "ComputeFluxes_face unit_traits X1 False [0] (uniform_field 1 1)
      (uniform_field 1 0) (uniform_field 1 0) 0 0 0 [0..<nGroups unit_traits]
      (uniform_field 0 0, uniform_field 0 0)
      = Inr (store_flux unit_traits (uniform_field 0 0) 0 0 0 0 Flux,
             store_flux unit_traits (uniform_field 0 0) 0 0 0 0 diffusiveF)"
    by (simp add: n grp hll)
  from inst face have "\<forall>h<nGroups unit_traits. \<exists>Fl dF.
              ComputeFluxes_group unit_traits X1 False [0] (uniform_field 1 1)
                (uniform_field 1 0) (uniform_field 1 0) 0 0 0 h = Inr (Fl, dF)
              \<and> (\<forall>m<4. store_flux unit_traits (uniform_field 0 0) 0 0 0 0 Flux 0 0 0 (4 * h + m)
                          = Fl ! m
                       \<and> store_flux unit_traits (uniform_field 0 0) 0 0 0 0 diffusiveF 0 0 0
                           (4 * h + m) = dF ! m)"
    by blast
  with guard grp face show ?thesis by blast
qed

subsection \<open>State validity\<close>

lemma fold_conj:
  "fold (\<lambda>g v. v \<and> P g) gs b \<longleftrightarrow> b \<and> (\<forall>g\<in>set gs. P g)"
  by (induction gs arbitrary: b) auto

lemma isStateValid_group_eq:
  "isStateValid_group t cons g v \<longleftrightarrow> v \<and> group_valid t cons g"
  by (simp add: isStateValid_group_def group_valid_def Let_def group_offsets)

lemma isStateValid_iff:
  "isStateValid t cons \<longleftrightarrow> (\<forall>g<nGroups t. group_valid t cons g)"
proof -
  have "isStateValid_group t cons = (\<lambda>g v. v \<and> group_valid t cons g)"
    by (intro ext) (simp add: isStateValid_group_eq)
  then show ?thesis by (auto simp: isStateValid_def fold_conj)
qed

lemma amendRadState_group_length:
  "length (amendRadState_group t g cons) = length cons"
  by (simp add: amendRadState_group_def Let_def)

lemma amendRadState_group_other:
  assumes "idx < 4 * g \<or> 4 * g + 3 < idx"
  shows "amendRadState_group t g cons ! idx = cons ! idx"
  using assms by (auto simp: amendRadState_group_def Let_def group_offsets)

lemma rescaled_norm:
  fixes a b c r :: real
  assumes "0 < a * a + b * b + c * c"
  shows "(a / sqrt (a * a + b * b + c * c) * r) * (a / sqrt (a * a + b * b + c * c) * r)
       + (b / sqrt (a * a + b * b + c * c) * r) * (b / sqrt (a * a + b * b + c * c) * r)
       + (c / sqrt (a * a + b * b + c * c) * r) * (c / sqrt (a * a + b * b + c * c) * r)
       = r * r"
proof -
  let ?q = "a * a + b * b + c * c"
  define s where "s = sqrt ?q"
  have s: "s * s = ?q" "s \<noteq> 0" using assms by (simp_all add: s_def)
  have "(a / s * r) * (a / s * r) + (b / s * r) * (b / s * r) + (c / s * r) * (c / s * r)
        = (?q / (s * s)) * (r * r)"
    using s(2) by (simp add: field_simps)
  also have "\<dots> = r * r" using s assms by simp
  finally show ?thesis by (simp add: s_def)
qed

lemma causal_quotient:
  fixes q ce :: real
  assumes "q \<le> ce * ce" "0 < ce" "0 \<le> q"
  shows "sqrt q / ce \<le> 1"
proof -
  have "sqrt q \<le> sqrt (ce * ce)" using assms by (intro real_sqrt_le_mono)
  then have "sqrt q \<le> ce" using assms by simp
  then show ?thesis using assms by (simp add: divide_le_eq)
qed

lemma amendRadState_group_valid:
  assumes len: "4 * g + 3 < length cons"
    and fl: "0 < Erad_floor_per_group t" and c: "0 < c_light t"
  shows "group_valid t (amendRadState_group t g cons) g"
proof -
  define E where "E = (if cons ! (4 * g) < Erad_floor_per_group t
                        then Erad_floor_per_group t else cons ! (4 * g))"
  define cons1 where "cons1 = (if cons ! (4 * g) < Erad_floor_per_group t
                        then cons[4 * g := Erad_floor_per_group t] else cons)"
  define Fx where "Fx = cons ! (4 * g + 1)"
  define Fy where "Fy = cons ! (4 * g + 2)"
  define Fz where "Fz = cons ! (4 * g + 3)"
  define q where "q = Fx * Fx + Fy * Fy + Fz * Fz"
  have Epos: "0 < E" using fl by (simp add: E_def)
  have ce: "0 < c_light t * E" using c Epos by simp
  have len1: "length cons1 = length cons" by (simp add: cons1_def)
  have c1E: "cons1 ! (4 * g) = E" using len by (simp add: cons1_def E_def)
  have c1F: "cons1 ! (4 * g + 1) = Fx" "cons1 ! (4 * g + 2) = Fy" "cons1 ! (4 * g + 3) = Fz"
    by (simp_all add: cons1_def Fx_def Fy_def Fz_def)
  have q0: "0 \<le> q" by (simp add: q_def)
  have res: "amendRadState_group t g cons =
      (if q > c_light t * c_light t * E * E
       then cons1[4 * g + 1 := Fx / sqrt q * c_light t * E,
                  4 * g + 2 := Fy / sqrt q * c_light t * E,
                  4 * g + 3 := Fz / sqrt q * c_light t * E]
       else cons1)"
    unfolding amendRadState_group_def Let_def group_offsets
      cons1_def [symmetric] E_def [symmetric] c1F q_def [symmetric]
    by simp
  show ?thesis
  proof (cases "q > c_light t * c_light t * E * E")
    case False
    then have "q \<le> (c_light t * E) * (c_light t * E)" by (simp add: mult_ac)
    from causal_quotient [OF this ce q0] Epos
    have "group_valid t cons1 g"
      unfolding group_valid_def c1E c1F q_def [symmetric] by blast
    then show ?thesis using False by (simp add: res)
  next
    case True
    have "0 \<le> c_light t * c_light t * E * E" using c Epos by simp
    then have qpos: "0 < q" using True by linarith
    define r where "r = c_light t * E"
    define cons2 where "cons2 = cons1[4 * g + 1 := Fx / sqrt q * c_light t * E,
                  4 * g + 2 := Fy / sqrt q * c_light t * E,
                  4 * g + 3 := Fz / sqrt q * c_light t * E]"
    have e: "cons2 ! (4 * g) = E"
      using len by (simp add: cons2_def c1E)
    have f: "cons2 ! (4 * g + 1) = Fx / sqrt q * r" "cons2 ! (4 * g + 2) = Fy / sqrt q * r"
      "cons2 ! (4 * g + 3) = Fz / sqrt q * r"
      using len by (simp_all add: cons2_def len1 r_def)
    have sum: "(Fx / sqrt q * r) * (Fx / sqrt q * r) + (Fy / sqrt q * r) * (Fy / sqrt q * r)
          + (Fz / sqrt q * r) * (Fz / sqrt q * r) = r * r"
      using rescaled_norm [of Fx Fy Fz r] qpos by (simp add: q_def)
    have "sqrt (r * r) / r \<le> 1"
      by (rule causal_quotient) (use ce in \<open>simp_all add: r_def\<close>)
    then have "sqrt (r * r) / (c_light t * E) \<le> 1"
      by (simp only: r_def)
    with Epos have "group_valid t cons2 g"
      unfolding group_valid_def e f sum by blast
    then show ?thesis using True by (simp add: res cons2_def)
  qed
qed

lemma amend_fold_length:
  "length (fold (amendRadState_group t) gs cons) = length cons"
  by (induction gs arbitrary: cons) (simp_all add: amendRadState_group_length)

lemma amend_fold_untouched:
  assumes "4 * n \<le> idx"
  shows "fold (amendRadState_group t) [0..<n] cons ! idx = cons ! idx"
  using assms
proof (induction n)
  case 0
  then show ?case by simp
next
  case (Suc n)
  have "amendRadState_group t n (fold (amendRadState_group t) [0..<n] cons) ! idx
        = fold (amendRadState_group t) [0..<n] cons ! idx"
    using Suc.prems by (intro amendRadState_group_other) simp
  then show ?case using Suc by simp
qed

lemma amendRadState_group_entries:
  assumes len: "4 * g + 3 < length cons" and m: "m < 4"
  shows "amendRadState_group t g cons ! (4 * g + m)
       = amended_values t (cons ! (4 * g)) (cons ! (4 * g + 1)) (cons ! (4 * g + 2))
           (cons ! (4 * g + 3)) ! m"
proof -
  define E where "E = (if cons ! (4 * g) < Erad_floor_per_group t
                        then Erad_floor_per_group t else cons ! (4 * g))"
  define cons1 where "cons1 = (if cons ! (4 * g) < Erad_floor_per_group t
                        then cons[4 * g := Erad_floor_per_group t] else cons)"
  define Fx where "Fx = cons ! (4 * g + 1)"
  define Fy where "Fy = cons ! (4 * g + 2)"
  define Fz where "Fz = cons ! (4 * g + 3)"
  define q where "q = Fx * Fx + Fy * Fy + Fz * Fz"
  have len1: "length cons1 = length cons" by (simp add: cons1_def)
  have c1E: "cons1 ! (4 * g) = E" using len by (simp add: cons1_def E_def)
  have c1F: "cons1 ! (4 * g + 1) = Fx" "cons1 ! (4 * g + 2) = Fy" "cons1 ! (4 * g + 3) = Fz"
    by (simp_all add: cons1_def Fx_def Fy_def Fz_def)
  have res: "amendRadState_group t g cons =
      (if q > c_light t * c_light t * E * E
       then cons1[4 * g + 1 := Fx / sqrt q * c_light t * E,
                  4 * g + 2 := Fy / sqrt q * c_light t * E,
                  4 * g + 3 := Fz / sqrt q * c_light t * E]
       else cons1)"
    unfolding amendRadState_group_def Let_def group_offsets
      cons1_def [symmetric] E_def [symmetric] c1F q_def [symmetric]
    by simp
  have val: "amended_values t (cons ! (4 * g)) (cons ! (4 * g + 1)) (cons ! (4 * g + 2))
           (cons ! (4 * g + 3)) =
      (if q > c_light t * c_light t * E * E
       then [E, Fx / sqrt q * c_light t * E, Fy / sqrt q * c_light t * E,
             Fz / sqrt q * c_light t * E]
       else [E, Fx, Fy, Fz])"
    unfolding amended_values_def Let_def E_def [symmetric] Fx_def [symmetric]
      Fy_def [symmetric] Fz_def [symmetric] q_def [symmetric] ..
  define cons2 where "cons2 = cons1[4 * g + 1 := Fx / sqrt q * c_light t * E,
                  4 * g + 2 := Fy / sqrt q * c_light t * E,
                  4 * g + 3 := Fz / sqrt q * c_light t * E]"
  have e2: "cons2 ! (4 * g) = E"
    using len by (simp add: cons2_def c1E)
  have f2: "cons2 ! (4 * g + 1) = Fx / sqrt q * c_light t * E"
    "cons2 ! (4 * g + 2) = Fy / sqrt q * c_light t * E"
    "cons2 ! (4 * g + 3) = Fz / sqrt q * c_light t * E"
    using len by (simp_all add: cons2_def len1)
  consider "m = 0" | "m = 1" | "m = 2" | "m = 3" using m by (auto simp: less_four)
  then show ?thesis
  proof cases
    case 1
    then show ?thesis
      using e2 c1E unfolding res val cons2_def [symmetric] by simp
  next
    case 2
    then show ?thesis
      using f2(1) c1F(1) unfolding res val cons2_def [symmetric] by simp
  next
    case 3
    then show ?thesis
      using f2(2) c1F(2) unfolding res val cons2_def [symmetric] by simp
  next
    case 4
    then show ?thesis
      using f2(3) c1F(3) unfolding res val cons2_def [symmetric] by simp
  qed
qed


lemma amend_fold_entry:
  assumes "g < n" "m < 4" "4 * n \<le> length cons"
  shows "fold (amendRadState_group t) [0..<n] cons ! (4 * g + m)
       = amended_values t (cons ! (4 * g)) (cons ! (4 * g + 1)) (cons ! (4 * g + 2))
           (cons ! (4 * g + 3)) ! m"
  using assms
proof (induction n)
  case 0
  then show ?case by simp
next
  case (Suc n)
  let ?s = "fold (amendRadState_group t) [0..<n] cons"
  show ?case
  proof (cases "g = n")
    case True
    have same: "?s ! (4 * g) = cons ! (4 * g)" "?s ! (4 * g + 1) = cons ! (4 * g + 1)"
      "?s ! (4 * g + 2) = cons ! (4 * g + 2)" "?s ! (4 * g + 3) = cons ! (4 * g + 3)"
      using True by (simp_all add: amend_fold_untouched)
    have "4 * g + 3 < length ?s"
      using True Suc.prems(3) by (simp add: amend_fold_length)
    from amendRadState_group_entries [OF this Suc.prems(2), of t]
    show ?thesis using True unfolding same by simp
  next
    case False
    then have g: "g < n" using Suc.prems by simp
    have "amendRadState_group t n ?s ! (4 * g + m) = ?s ! (4 * g + m)"
      using g Suc.prems(2) by (intro amendRadState_group_other) simp
    moreover have "4 * n \<le> length cons" using Suc.prems(3) by simp
    ultimately show ?thesis using Suc.IH [OF g Suc.prems(2)] by simp
  qed
qed

lemma amendRadState_entry:
  assumes "g < nGroups t" "m < 4" "length cons = nvarHyperbolic t"
  shows "amendRadState t cons ! (4 * g + m)
       = amended_values t (cons ! (4 * g)) (cons ! (4 * g + 1)) (cons ! (4 * g + 2))
           (cons ! (4 * g + 3)) ! m"
  using assms by (simp add: amendRadState_def amend_fold_entry nvarHyperbolic_def numRadVars_def)

lemma group_valid_cong:
  assumes "\<forall>m<4. s ! (4 * g + m) = cons ! (4 * g + m)"
  shows "group_valid t s g \<longleftrightarrow> group_valid t cons g"
proof -
  have e: "s ! (4 * g) = cons ! (4 * g)" "s ! (4 * g + 1) = cons ! (4 * g + 1)"
    "s ! (4 * g + 2) = cons ! (4 * g + 2)" "s ! (4 * g + 3) = cons ! (4 * g + 3)"
    using assms by (simp_all add: less_four)
  show ?thesis unfolding group_valid_def e ..
qed

lemma amendRadState_valid:
  assumes fl: "0 < Erad_floor_per_group t" and c: "0 < c_light t"
    and len: "length cons = nvarHyperbolic t"
  shows "isStateValid t (amendRadState t cons)"
  unfolding isStateValid_iff
proof (intro allI impI)
  fix g assume g: "g < nGroups t"
  then have l: "4 * g + 3 < length cons"
    using len by (simp add: nvarHyperbolic_def numRadVars_def)
  from amendRadState_group_valid [OF this fl c]
  have "group_valid t (amendRadState_group t g cons) g" .
  moreover have "\<forall>m<4. amendRadState t cons ! (4 * g + m)
                   = amendRadState_group t g cons ! (4 * g + m)"
    using g len l by (simp add: amendRadState_entry amendRadState_group_entries)
  ultimately show "group_valid t (amendRadState t cons) g"
    using group_valid_cong by blast
qed

lemma one_less_four: "(1::nat) < 4" and two_less_four: "(2::nat) < 4"
  and three_less_four: "(3::nat) < 4"
  by simp_all

lemma amended_values_floor:
  "Erad_floor_per_group t \<le> amended_values t E Fx Fy Fz ! 0"
  by (simp add: amended_values_def Let_def)

lemma amended_values_direction:
  assumes "0 < Erad_floor_per_group t" "0 < c_light t"
  shows "\<exists>lam>0. amended_values t E Fx Fy Fz ! 1 = lam * Fx
               \<and> amended_values t E Fx Fy Fz ! 2 = lam * Fy
               \<and> amended_values t E Fx Fy Fz ! 3 = lam * Fz"
proof -
  define E' where "E' = (if E < Erad_floor_per_group t then Erad_floor_per_group t else E)"
  define q where "q = Fx * Fx + Fy * Fy + Fz * Fz"
  have E': "0 < E'" using assms by (simp add: E'_def)
  show ?thesis
  proof (cases "q > c_light t * c_light t * E' * E'")
    case False
    then have "amended_values t E Fx Fy Fz = [E', Fx, Fy, Fz]"
      by (simp add: amended_values_def Let_def E'_def q_def)
    then have "amended_values t E Fx Fy Fz ! 1 = 1 * Fx
               \<and> amended_values t E Fx Fy Fz ! 2 = 1 * Fy
               \<and> amended_values t E Fx Fy Fz ! 3 = 1 * Fz"
      by (simp add: numeral_2_eq_2 numeral_3_eq_3)
    then show ?thesis using zero_less_one by blast
  next
    case True
    have "0 \<le> c_light t * c_light t * E' * E'" using assms E' by simp
    then have "0 < q" using True by linarith
    then have lam: "0 < c_light t * E' / sqrt q" using assms E' by simp
    have "amended_values t E Fx Fy Fz =
        [E', Fx / sqrt q * c_light t * E', Fy / sqrt q * c_light t * E',
         Fz / sqrt q * c_light t * E']"
      using True by (simp add: amended_values_def Let_def E'_def q_def)
    then have "amended_values t E Fx Fy Fz ! 1 = (c_light t * E' / sqrt q) * Fx
               \<and> amended_values t E Fx Fy Fz ! 2 = (c_light t * E' / sqrt q) * Fy
               \<and> amended_values t E Fx Fy Fz ! 3 = (c_light t * E' / sqrt q) * Fz"
      by (simp add: numeral_2_eq_2 numeral_3_eq_3)
    then show ?thesis using lam by blast
  qed
qed

text \<open>
  With a positive floor and a positive speed of light, \<open>amendRadState\<close> returns a valid
  state: every energy is at least the floor and every flux is a positive multiple of the
  flux it replaces.
\<close>

lemma amendRadState_positive_floor:
  assumes fl: "0 < Erad_floor_per_group t" and c: "0 < c_light t"
    and len: "length cons = nvarHyperbolic t"
  shows "isStateValid t (amendRadState t cons)
       \<and> (\<forall>g<nGroups t.
            Erad_floor_per_group t \<le> amendRadState t cons ! (4 * g)
          \<and> 0 < amendRadState t cons ! (4 * g)
          \<and> (\<exists>lam>0. amendRadState t cons ! (4 * g + 1) = lam * cons ! (4 * g + 1)
                    \<and> amendRadState t cons ! (4 * g + 2) = lam * cons ! (4 * g + 2)
                    \<and> amendRadState t cons ! (4 * g + 3) = lam * cons ! (4 * g + 3)))"
proof (intro conjI allI impI)
  show "isStateValid t (amendRadState t cons)"
    using amendRadState_valid [OF assms] .
next
  fix g assume g: "g < nGroups t"
  have e: "amendRadState t cons ! (4 * g + m)
       = amended_values t (cons ! (4 * g)) (cons ! (4 * g + 1)) (cons ! (4 * g + 2))
           (cons ! (4 * g + 3)) ! m" if "m < 4" for m
    using amendRadState_entry [OF g that len] .
  show fl': "Erad_floor_per_group t \<le> amendRadState t cons ! (4 * g)"
    using e [of 0] amended_values_floor [of t] by simp
  then show "0 < amendRadState t cons ! (4 * g)" using fl by linarith
  show "\<exists>lam>0. amendRadState t cons ! (4 * g + 1) = lam * cons ! (4 * g + 1)
                    \<and> amendRadState t cons ! (4 * g + 2) = lam * cons ! (4 * g + 2)
                    \<and> amendRadState t cons ! (4 * g + 3) = lam * cons ! (4 * g + 3)"
    unfolding e [of 1, OF one_less_four] e [of 2, OF two_less_four] e [of 3, OF three_less_four]
    using amended_values_direction [OF fl c, of "cons ! (4 * g)" "cons ! (4 * g + 1)"
        "cons ! (4 * g + 2)" "cons ! (4 * g + 3)"] .
qed

text \<open>
  Claim C1. The claim is that \<open>amendRadState\<close> turns every state into one that
  \<open>isStateValid\<close> accepts. With the default floor, which is zero, it does not: a state whose
  energy is negative is floored to zero energy, \<open>isStateValid\<close> asks for a positive energy,
  and the assertion that follows the amendment in \<open>AddFluxesRK2\<close> fails. (With a positive
  floor the claim holds: lemma \<open>amendRadState_positive_floor\<close>.)
\<close>

theorem amendRadState_zero_floor:
  "Erad_floor_per_group unit_traits = 0
   \<and> amendRadState unit_traits [- 1, 0, 0, 0] = [0, 0, 0, 0]
   \<and> \<not> isStateValid unit_traits (amendRadState unit_traits [- 1, 0, 0, 0])
   \<and> enforce_validity unit_traits [- 1, 0, 0, 0] = Inl (AssertFailed ''isStateValid(cons)'')"
proof -
  have fl: "Erad_floor_per_group unit_traits = 0"
    by (simp add: Erad_floor_per_group_def unit_traits_def)
  have n: "nGroups unit_traits = 1" by (simp add: unit_traits_def)
  note idx = radEnergy_index_def x1RadFlux_index_def x2RadFlux_index_def x3RadFlux_index_def
    numRadVars_def
  have am: "amendRadState unit_traits [- 1, 0, 0, 0] = [0, 0, 0, 0]"
    by (simp add: amendRadState_def n amendRadState_group_def Let_def idx fl)
  have v0: "\<not> isStateValid unit_traits [0, 0, 0, 0]"
    by (simp add: isStateValid_def n isStateValid_group_def Let_def idx)
  have v1: "\<not> isStateValid unit_traits [- 1, 0, 0, 0]"
    by (simp add: isStateValid_def n isStateValid_group_def Let_def idx)
  show ?thesis
    by (simp add: fl am v0 v1 enforce_validity_def Let_def)
qed

subsection \<open>Stage 2 of the time update\<close>

lemma flux_difference_cases:
  "flux_difference 1 fl dx i j k n = ((fl ! 0) i j k n - (fl ! 0) (i + 1) j k n) / dx ! 0"
  "flux_difference 2 fl dx i j k n = ((fl ! 0) i j k n - (fl ! 0) (i + 1) j k n) / dx ! 0
      + ((fl ! 1) i j k n - (fl ! 1) i (j + 1) k n) / dx ! 1"
  "flux_difference 3 fl dx i j k n = ((fl ! 0) i j k n - (fl ! 0) (i + 1) j k n) / dx ! 0
      + ((fl ! 1) i j k n - (fl ! 1) i (j + 1) k n) / dx ! 1
      + ((fl ! 2) i j k n - (fl ! 2) i j (k + 1) n) / dx ! 2"
  by (simp_all add: flux_difference_def at_cell_def shift_cell_def lessThan_Suc
      numeral_2_eq_2 numeral_3_eq_3)

lemma AddFluxesRK2_candidate_formula:
  assumes sd: "spacedim = 1 \<or> spacedim = 2 \<or> spacedim = 3" and n: "n < nvarHyperbolic t"
  shows "AddFluxesRK2_candidate t spacedim U0 U1 fluxArrayOld fluxArray dt dx_in i j k ! n
       = (1 - IMEX_a32) * U0 i j k (nstartHyperbolic t + n)
         + IMEX_a32 * U1 i j k (nstartHyperbolic t + n)
         + dt * ((1 / 2 - IMEX_a32) * flux_difference spacedim fluxArrayOld dx_in i j k n
                 + 1 / 2 * flux_difference spacedim fluxArray dx_in i j k n)"
  using sd
proof (elim disjE)
  assume sd: "spacedim = 1"
  show ?thesis unfolding sd flux_difference_cases using n
    by (simp add: AddFluxesRK2_candidate_def Let_def AMREX_D_TERM_def algebra_simps
        diff_divide_distrib add_divide_distrib)
next
  assume sd: "spacedim = 2"
  show ?thesis unfolding sd flux_difference_cases using n
    by (simp add: AddFluxesRK2_candidate_def Let_def AMREX_D_TERM_def algebra_simps
        diff_divide_distrib add_divide_distrib)
next
  assume sd: "spacedim = 3"
  show ?thesis unfolding sd flux_difference_cases using n
    by (simp add: AddFluxesRK2_candidate_def Let_def AMREX_D_TERM_def algebra_simps
        diff_divide_distrib add_divide_distrib)
qed

lemma AddFluxesRK2_candidate_length:
  "length (AddFluxesRK2_candidate t spacedim U0 U1 fluxArrayOld fluxArray dt dx_in i j k)
     = nvarHyperbolic t"
  by (simp add: AddFluxesRK2_candidate_def)

lemma array_write_apply:
  "array_write a i j k n v i' j' k' n'
     = (if i' = i \<and> j' = j \<and> k' = k \<and> n' = n then v else a i' j' k' n')"
  by (simp add: array_write_def)

lemma store_fold_read:
  "fold (\<lambda>n U. array_write U i j k (s + n) (c ! n)) [0..<m] U i' j' k' q
     = (if i' = i \<and> j' = j \<and> k' = k \<and> s \<le> q \<and> q < s + m then c ! (q - s)
        else U i' j' k' q)"
proof (induction m)
  case 0
  then show ?case by simp
next
  case (Suc m)
  let ?f = "\<lambda>n U. array_write U i j k (s + n) (c ! n)"
  have "fold ?f [0..<Suc m] U i' j' k' q
          = array_write (fold ?f [0..<m] U) i j k (s + m) (c ! m) i' j' k' q"
    by simp
  also have "\<dots> = (if i' = i \<and> j' = j \<and> k' = k \<and> q = s + m then c ! m
                     else fold ?f [0..<m] U i' j' k' q)"
    by (rule array_write_apply)
  also have "\<dots> = (if i' = i \<and> j' = j \<and> k' = k \<and> s \<le> q \<and> q < s + Suc m
                     then c ! (q - s) else U i' j' k' q)"
    unfolding Suc by auto
  finally show ?case .
qed

lemma store_state_read:
  "store_state t U i j k c i' j' k' q
     = (if i' = i \<and> j' = j \<and> k' = k \<and> nstartHyperbolic t \<le> q
           \<and> q < nstartHyperbolic t + nvarHyperbolic t
        then c ! (q - nstartHyperbolic t) else U i' j' k' q)"
  by (simp add: store_state_def store_fold_read)

lemma enforce_validity_result:
  assumes "enforce_validity t cons = Inr cons'"
  shows "cons' = (if isStateValid t cons then cons else amendRadState t cons)
       \<and> isStateValid t cons'"
  using assms by (auto simp: enforce_validity_def Let_def split: if_splits)

lemma AddFluxesRK2_other:
  assumes "AddFluxesRK2 t sd U_new U0 U1 fO fN dt dx cells = Inr U'"
    and "(i, j, k) \<notin> set cells \<or> q < nstartHyperbolic t
         \<or> nstartHyperbolic t + nvarHyperbolic t \<le> q"
  shows "U' i j k q = U_new i j k q"
  using assms
proof (induction cells arbitrary: U_new)
  case Nil
  then show ?case by simp
next
  case (Cons c cells)
  obtain i' j' k' where c: "c = (i', j', k')" by (cases c)
  from Cons.prems(1) obtain cn where
    rest: "AddFluxesRK2 t sd (store_state t U_new i' j' k' cn) U0 U1 fO fN dt dx cells = Inr U'"
    by (auto simp: c Let_def split: sum.splits)
  have "(i, j, k) \<notin> set cells \<or> q < nstartHyperbolic t
         \<or> nstartHyperbolic t + nvarHyperbolic t \<le> q"
    using Cons.prems(2) by auto
  from Cons.IH [OF rest this]
  show ?case using Cons.prems(2) by (auto simp: c store_state_read)
qed

lemma AddFluxesRK2_cell:
  assumes "AddFluxesRK2 t sd U_new U0 U1 fO fN dt dx cells = Inr U'"
    and "(i, j, k) \<in> set cells" and "n < nvarHyperbolic t"
  shows "\<exists>cons_new. enforce_validity t (AddFluxesRK2_candidate t sd U0 U1 fO fN dt dx i j k)
                      = Inr cons_new
           \<and> U' i j k (nstartHyperbolic t + n) = cons_new ! n"
  using assms
proof (induction cells arbitrary: U_new)
  case Nil
  then show ?case by simp
next
  case (Cons c cells)
  obtain i' j' k' where c: "c = (i', j', k')" by (cases c)
  from Cons.prems(1) obtain cn where
    head: "enforce_validity t (AddFluxesRK2_candidate t sd U0 U1 fO fN dt dx i' j' k') = Inr cn"
    and rest: "AddFluxesRK2 t sd (store_state t U_new i' j' k' cn) U0 U1 fO fN dt dx cells
                 = Inr U'"
    by (auto simp: c Let_def split: sum.splits)
  show ?case
  proof (cases "(i, j, k) \<in> set cells")
    case True
    from Cons.IH [OF rest True Cons.prems(3)] show ?thesis .
  next
    case False
    then have eq: "i' = i" "j' = j" "k' = k" using Cons.prems(2) c by auto
    from AddFluxesRK2_other [OF rest, of i j k "nstartHyperbolic t + n"] False
    have "U' i j k (nstartHyperbolic t + n)
            = store_state t U_new i' j' k' cn i j k (nstartHyperbolic t + n)"
      by simp
    also have "\<dots> = cn ! n" using Cons.prems(3) by (simp add: store_state_read eq)
    finally show ?thesis using head eq by simp
  qed
qed

lemma AddFluxesRK2_written:
  assumes run: "AddFluxesRK2 t spacedim U_new U0 U1 fluxArrayOld fluxArray dt dx_in indexRange
                  = Inr U'"
    and cell: "(i, j, k) \<in> set indexRange" and n: "n < nvarHyperbolic t"
  shows "U' i j k (nstartHyperbolic t + n)
        = (if isStateValid t
                (AddFluxesRK2_candidate t spacedim U0 U1 fluxArrayOld fluxArray dt dx_in i j k)
           then AddFluxesRK2_candidate t spacedim U0 U1 fluxArrayOld fluxArray dt dx_in i j k
           else amendRadState t
                  (AddFluxesRK2_candidate t spacedim U0 U1 fluxArrayOld fluxArray dt dx_in
                     i j k)) ! n"
proof -
  let ?c = "AddFluxesRK2_candidate t spacedim U0 U1 fluxArrayOld fluxArray dt dx_in i j k"
  from AddFluxesRK2_cell [OF run cell n] obtain cons_new where
    e: "enforce_validity t ?c = Inr cons_new"
    and u: "U' i j k (nstartHyperbolic t + n) = cons_new ! n"
    by blast
  from enforce_validity_result [OF e]
  have "cons_new = (if isStateValid t ?c then ?c else amendRadState t ?c)" by blast
  with u show ?thesis by simp
qed

lemma enforce_validity_cases:
  "enforce_validity t cons =
     (if isStateValid t cons then Inr cons
      else if isStateValid t (amendRadState t cons) then Inr (amendRadState t cons)
      else Inl (AssertFailed ''isStateValid(cons)''))"
  by (simp add: enforce_validity_def Let_def)

lemma enforce_validity_positive_floor:
  assumes "0 < Erad_floor_per_group t" "0 < c_light t" "length cons = nvarHyperbolic t"
  shows "enforce_validity t cons
           = Inr (if isStateValid t cons then cons else amendRadState t cons)"
  using amendRadState_positive_floor [OF assms]
  by (simp add: enforce_validity_cases)

lemma AddFluxesRK2_returns:
  assumes "\<forall>(i, j, k) \<in> set cells. \<exists>cons_new.
             enforce_validity t (AddFluxesRK2_candidate t sd U0 U1 fO fN dt dx i j k)
               = Inr cons_new"
  shows "\<exists>U'. AddFluxesRK2 t sd U_new U0 U1 fO fN dt dx cells = Inr U'"
  using assms
proof (induction cells arbitrary: U_new)
  case Nil
  then show ?case by simp
next
  case (Cons c cells)
  obtain i j k where c: "c = (i, j, k)" by (cases c)
  from Cons.prems obtain cn where
    head: "enforce_validity t (AddFluxesRK2_candidate t sd U0 U1 fO fN dt dx i j k) = Inr cn"
    by (auto simp: c)
  have "\<forall>(i, j, k) \<in> set cells. \<exists>cons_new.
          enforce_validity t (AddFluxesRK2_candidate t sd U0 U1 fO fN dt dx i j k)
            = Inr cons_new"
    using Cons.prems by simp
  from Cons.IH [OF this, of "store_state t U_new i j k cn"]
  show ?case by (simp add: c head)
qed

lemma AddFluxesRK2_fails:
  assumes "(i, j, k) \<in> set cells"
    and "enforce_validity t (AddFluxesRK2_candidate t sd U0 U1 fO fN dt dx i j k) = Inl e"
  shows "\<exists>e'. AddFluxesRK2 t sd U_new U0 U1 fO fN dt dx cells = Inl e'"
  using assms(1)
proof (induction cells arbitrary: U_new)
  case Nil
  then show ?case by simp
next
  case (Cons c cells)
  obtain i' j' k' where c: "c = (i', j', k')" by (cases c)
  show ?case
  proof (cases "enforce_validity t (AddFluxesRK2_candidate t sd U0 U1 fO fN dt dx i' j' k')")
    case (Inl e')
    then show ?thesis by (simp add: c)
  next
    case (Inr cn)
    have "(i, j, k) \<in> set cells" using Cons.prems Inr assms(2) c by auto
    from Cons.IH [OF this, of "store_state t U_new i' j' k' cn"]
    show ?thesis by (simp add: c Inr)
  qed
qed

lemma AddFluxesRK2_positive_floor:
  assumes "0 < Erad_floor_per_group t" "0 < c_light t"
  shows "\<exists>U'. AddFluxesRK2 t sd U_new U0 U1 fO fN dt dx cells = Inr U'"
proof (rule AddFluxesRK2_returns)
  show "\<forall>(i, j, k) \<in> set cells. \<exists>cons_new.
          enforce_validity t (AddFluxesRK2_candidate t sd U0 U1 fO fN dt dx i j k)
            = Inr cons_new"
    using enforce_validity_positive_floor [OF assms AddFluxesRK2_candidate_length] by simp
qed

lemma outflow_candidate:
  "AddFluxesRK2_candidate unit_traits 1 (uniform_field 1 0) (uniform_field 1 0)
     [uniform_field 0 0] [array_write (uniform_field 0 0) 1 0 0 0 3] 1 [1] 0 0 0
   = [- (1 / 2), 0, 0, 0]"
proof -
  have n: "nvarHyperbolic unit_traits = 4"
    by (simp add: nvarHyperbolic_def numRadVars_def unit_traits_def)
  have u: "[0..<4] = [0, 1, 2, 3]"
    by (simp add: upt_rec)
  show ?thesis
    unfolding AddFluxesRK2_candidate_def n u
    by (simp add: Let_def AMREX_D_TERM_def uniform_field_def unit_traits_def IMEX_a32_def
        array_write_def)
qed

lemma sheared_candidate:
  "AddFluxesRK2_candidate unit_traits 1 (uniform_field 1 0) (uniform_field 1 0)
     [uniform_field 0 0] [array_write (uniform_field 0 0) 0 0 0 1 4] 1 [1] 0 0 0
   = [1, 2, 0, 0]"
proof -
  have n: "nvarHyperbolic unit_traits = 4"
    by (simp add: nvarHyperbolic_def numRadVars_def unit_traits_def)
  have u: "[0..<4] = [0, 1, 2, 3]"
    by (simp add: upt_rec)
  show ?thesis
    unfolding AddFluxesRK2_candidate_def n u
    by (simp add: Let_def AMREX_D_TERM_def uniform_field_def unit_traits_def IMEX_a32_def
        array_write_def)
qed

lemma AddFluxesRK2_amends:
  "\<not> isStateValid unit_traits [1, 2, 0, 0]
   \<and> amendRadState unit_traits [1, 2, 0, 0] = [1, 1, 0, 0]
   \<and> AddFluxesRK2 unit_traits 1 (uniform_field 0 0) (uniform_field 1 0) (uniform_field 1 0)
        [uniform_field 0 0] [array_write (uniform_field 0 0) 0 0 0 1 4] 1 [1] [(0, 0, 0)]
      = Inr (store_state unit_traits (uniform_field 0 0) 0 0 0 [1, 1, 0, 0])"
proof -
  have fl: "Erad_floor_per_group unit_traits = 0"
    by (simp add: Erad_floor_per_group_def unit_traits_def)
  have n: "nGroups unit_traits = 1" by (simp add: unit_traits_def)
  note idx = radEnergy_index_def x1RadFlux_index_def x2RadFlux_index_def x3RadFlux_index_def
    numRadVars_def
  have c: "c_light unit_traits = 1" "nstartHyperbolic unit_traits = 0"
    by (simp_all add: unit_traits_def)
  have v0: "\<not> isStateValid unit_traits [1, 2, 0, 0]"
    by (simp add: isStateValid_def n isStateValid_group_def Let_def idx c)
  have am: "amendRadState unit_traits [1, 2, 0, 0] = [1, 1, 0, 0]"
    by (simp add: amendRadState_def n amendRadState_group_def Let_def idx fl c)
  have v1: "isStateValid unit_traits [1, 1, 0, 0]"
    by (simp add: isStateValid_def n isStateValid_group_def Let_def idx c)
  have "AddFluxesRK2 unit_traits 1 (uniform_field 0 0) (uniform_field 1 0) (uniform_field 1 0)
        [uniform_field 0 0] [array_write (uniform_field 0 0) 0 0 0 1 4] 1 [1] [(0, 0, 0)]
      = Inr (store_state unit_traits (uniform_field 0 0) 0 0 0 [1, 1, 0, 0])"
    by (simp only: AddFluxesRK2.simps Let_def sheared_candidate)
       (simp add: enforce_validity_cases v0 v1 am)
  with v0 am show ?thesis by simp
qed

text \<open>
  Claim C7. \<open>AddFluxesRK2\<close> computes the candidate of the claim, with \<open>a32 = 0.5\<close>
  (lemma \<open>AddFluxesRK2_candidate_formula\<close>), amends it when it is not valid, and writes the
  state when the assertion holds (lemmas \<open>AddFluxesRK2_written\<close>, \<open>AddFluxesRK2_amends\<close>).
  Validity, however, is not enforced for every cell. With the default floor, which is zero,
  a cell whose candidate energy is negative is floored to zero energy; \<open>isStateValid\<close> asks
  for a positive energy, so the assertion before the write fails and the state is not
  written. Below, one cell with \<open>E_r = 1\<close> and no flux in \<open>U0\<close> and \<open>U1\<close>, \<open>dt = dx = 1\<close>, and
  an energy flux of \<open>3\<close> through its right face: the candidate energy is \<open>-1/2\<close>. (With a
  positive floor and \<open>c_light > 0\<close> stage 2 returns for every input: lemma
  \<open>AddFluxesRK2_positive_floor\<close>.)
\<close>

theorem AddFluxesRK2_zero_floor:
  "AddFluxesRK2_candidate unit_traits 1 (uniform_field 1 0) (uniform_field 1 0)
     [uniform_field 0 0] [array_write (uniform_field 0 0) 1 0 0 0 3] 1 [1] 0 0 0
     = [- (1 / 2), 0, 0, 0]
   \<and> amendRadState unit_traits [- (1 / 2), 0, 0, 0] = [0, 0, 0, 0]
   \<and> \<not> isStateValid unit_traits [0, 0, 0, 0]
   \<and> AddFluxesRK2 unit_traits 1 (uniform_field 0 0) (uniform_field 1 0) (uniform_field 1 0)
        [uniform_field 0 0] [array_write (uniform_field 0 0) 1 0 0 0 3] 1 [1] [(0, 0, 0)]
      = Inl (AssertFailed ''isStateValid(cons)'')"
proof -
  have fl: "Erad_floor_per_group unit_traits = 0"
    by (simp add: Erad_floor_per_group_def unit_traits_def)
  have n: "nGroups unit_traits = 1" by (simp add: unit_traits_def)
  note idx = radEnergy_index_def x1RadFlux_index_def x2RadFlux_index_def x3RadFlux_index_def
    numRadVars_def
  have am: "amendRadState unit_traits [- (1 / 2), 0, 0, 0] = [0, 0, 0, 0]"
    by (simp add: amendRadState_def n amendRadState_group_def Let_def idx fl)
  have v0: "\<not> isStateValid unit_traits [0, 0, 0, 0]"
    by (simp add: isStateValid_def n isStateValid_group_def Let_def idx)
  have v1: "\<not> isStateValid unit_traits [- (1 / 2), 0, 0, 0]"
    by (simp add: isStateValid_def n isStateValid_group_def Let_def idx)
  have run: "AddFluxesRK2 unit_traits 1 (uniform_field 0 0) (uniform_field 1 0)
        (uniform_field 1 0) [uniform_field 0 0] [array_write (uniform_field 0 0) 1 0 0 0 3] 1 [1]
        [(0, 0, 0)] = Inl (AssertFailed ''isStateValid(cons)'')"
    by (simp only: AddFluxesRK2.simps Let_def outflow_candidate)
       (simp add: enforce_validity_cases v0 v1 am)
  from outflow_candidate am v0 run show ?thesis by simp
qed

subsection \<open>The linear solver\<close>

lemma Fin_arith:
  "Fin a + Fin b = Fin (a + b)" "Fin a - Fin b = Fin (a - b)" "Fin a * Fin b = Fin (a * b)"
  "- Fin a = Fin (- a)" "b \<noteq> 0 \<Longrightarrow> Fin a / Fin b = Fin (a / b)"
  by (simp_all add: minus_xreal_def)

lemma map2_Fin:
  assumes "\<And>x y. (x, y) \<in> set (zip xs ys) \<Longrightarrow> f (Fin x) (Fin y) = Fin (g x y)"
  shows "map2 f (map Fin xs) (map Fin ys) = map Fin (map2 g xs ys)"
  using assms by (induction xs ys rule: list_induct2') simp_all

lemma valarray_Fin:
  "valarray_mul (map Fin xs) (map Fin ys) = map Fin (map2 (*) xs ys)"
  "valarray_sub (map Fin xs) (map Fin ys) = map Fin (map2 (-) xs ys)"
  "valarray_add (map Fin xs) (map Fin ys) = map Fin (map2 (+) xs ys)"
  "valarray_times (map Fin xs) (Fin a) = map Fin (map (\<lambda>x. x * a) xs)"
  "valarray_scale (Fin a) (map Fin xs) = map Fin (map (\<lambda>x. a * x) xs)"
  unfolding valarray_mul_def valarray_sub_def valarray_add_def valarray_times_def
    valarray_scale_def
  by (simp_all add: map2_Fin Fin_arith(2))

lemma valarray_div_Fin:
  assumes "\<forall>y\<in>set ys. y \<noteq> 0"
  shows "valarray_div (map Fin xs) (map Fin ys) = map Fin (map2 (/) xs ys)"
  unfolding valarray_div_def
proof (rule map2_Fin)
  fix x y assume "(x, y) \<in> set (zip xs ys)"
  then have "y \<noteq> 0" using assms by (auto dest: set_zip_rightD)
  then show "Fin x / Fin y = Fin (x / y)" by (simp add: Fin_arith(5))
qed

lemma foldl_Fin: "foldl (+) (Fin a) (map Fin xs) = Fin (a + sum_list xs)"
  by (induction xs arbitrary: a) (simp_all add: add.assoc)

lemma valarray_sum_Fin: "valarray_sum (map Fin xs) = Fin (sum_list xs)"
  by (simp add: valarray_sum_def zero_xreal_def foldl_Fin)

lemma sum_list_map2:
  assumes "length xs = n" "length ys = n"
  shows "sum_list (map2 f xs ys) = (\<Sum>g<n. f (xs ! g) (ys ! g))"
proof -
  have "sum_list (map2 f xs ys) = (\<Sum>g = 0..<length (map2 f xs ys). map2 f xs ys ! g)"
    by (rule sum_list_sum_nth)
  also have "\<dots> = (\<Sum>g = 0..<n. f (xs ! g) (ys ! g))"
    using assms by (intro sum.cong) simp_all
  finally show ?thesis by (simp add: lessThan_atLeast0)
qed

lemma SolveLinearEqs_Fin:
  assumes nz: "\<forall>y\<in>set aii. y \<noteq> 0"
    and piv: "- sum_list (map2 (*) (map2 (/) a0i aii) ai0) + a00 \<noteq> 0"
  shows "SolveLinearEqs (Fin a00) (map Fin a0i) (map Fin ai0) (map Fin aii) (Fin y0) (map Fin yi)
       = (Fin ((- sum_list (map2 (*) (map2 (/) a0i aii) yi) + y0)
                / (- sum_list (map2 (*) (map2 (/) a0i aii) ai0) + a00)),
          map Fin (map2 (/) (map2 (-) yi (map (\<lambda>a. a *
             ((- sum_list (map2 (*) (map2 (/) a0i aii) yi) + y0)
                / (- sum_list (map2 (*) (map2 (/) a0i aii) ai0) + a00))) ai0)) aii))"
proof -
  define r where "r = map2 (/) a0i aii"
  define num where "num = - sum_list (map2 (*) r yi) + y0"
  define den where "den = - sum_list (map2 (*) r ai0) + a00"
  have den: "den \<noteq> 0" using piv by (simp add: den_def r_def)
  have 1: "valarray_div (map Fin a0i) (map Fin aii) = map Fin r"
    unfolding r_def by (rule valarray_div_Fin [OF nz])
  have 2: "- valarray_sum (valarray_mul (map Fin r) (map Fin yi)) + Fin y0 = Fin num"
    by (simp only: valarray_Fin valarray_sum_Fin Fin_arith num_def)
  have 3: "- valarray_sum (valarray_mul (map Fin r) (map Fin ai0)) + Fin a00 = Fin den"
    by (simp only: valarray_Fin valarray_sum_Fin Fin_arith den_def)
  have 4: "Fin num / Fin den = Fin (num / den)"
    using den by (simp add: Fin_arith(5))
  have 5: "valarray_div (valarray_sub (map Fin yi) (valarray_times (map Fin ai0) (Fin (num / den))))
             (map Fin aii)
           = map Fin (map2 (/) (map2 (-) yi (map (\<lambda>a. a * (num / den)) ai0)) aii)"
    by (simp only: valarray_Fin valarray_div_Fin [OF nz])
  show ?thesis
    unfolding SolveLinearEqs_def Let_def 1 2 3 4 5
    unfolding num_def den_def r_def ..
qed

lemma arrow_system_solution:
  fixes a00 y0 :: real and a0i ai0 aii yi :: "nat \<Rightarrow> real"
  assumes nz: "\<forall>g<n. aii g \<noteq> 0"
    and piv: "a00 - (\<Sum>g<n. a0i g / aii g * ai0 g) \<noteq> 0"
  defines "x0 \<equiv> (- (\<Sum>g<n. a0i g / aii g * yi g) + y0) / (- (\<Sum>g<n. a0i g / aii g * ai0 g) + a00)"
  defines "xi \<equiv> \<lambda>g. (yi g - ai0 g * x0) / aii g"
  shows "a00 * x0 + (\<Sum>g<n. a0i g * xi g) = y0"
    and "\<forall>g<n. ai0 g * x0 + aii g * xi g = yi g"
proof -
  define P where "P = a00 - (\<Sum>g<n. a0i g / aii g * ai0 g)"
  define Y where "Y = (\<Sum>g<n. a0i g / aii g * yi g)"
  have P: "P \<noteq> 0" using piv by (simp add: P_def)
  have x0: "x0 = (y0 - Y) / P" by (simp add: x0_def P_def Y_def)
  then have x0P: "x0 * P = y0 - Y" using P by simp
  have "(\<Sum>g<n. a0i g * xi g) = (\<Sum>g<n. a0i g / aii g * yi g - x0 * (a0i g / aii g * ai0 g))"
    by (intro sum.cong refl) (simp add: xi_def diff_divide_distrib algebra_simps)
  also have "\<dots> = Y - x0 * (\<Sum>g<n. a0i g / aii g * ai0 g)"
    by (simp add: sum_subtractf sum_distrib_left Y_def)
  also have "\<dots> = Y - x0 * (a00 - P)" by (simp add: P_def)
  finally have "a00 * x0 + (\<Sum>g<n. a0i g * xi g) = Y + x0 * P"
    by (simp add: algebra_simps)
  then show "a00 * x0 + (\<Sum>g<n. a0i g * xi g) = y0" using x0P by simp
  show "\<forall>g<n. ai0 g * x0 + aii g * xi g = yi g"
    using nz by (simp add: xi_def)
qed

text \<open>
  Claim C4. For coefficients that are finite numbers, with every \<open>aii[g]\<close> nonzero and
  \<open>a00 - \<Sum>g (a0i[g] / aii[g]) ai0[g]\<close> nonzero, and every finite right-hand side, the pair
  \<open>(x0, xi)\<close> that \<open>SolveLinearEqs\<close> returns is finite and solves the system:
  \<open>a00 x0 + \<Sum>g a0i[g] xi[g] = y0\<close> and, for every group, \<open>ai0[g] x0 + aii[g] xi[g] = yi[g]\<close>.
  The arithmetic is that of the real numbers: the equations hold exactly when no operation is
  rounded (for the rounded operations see \<open>SolveLinearEqs_binary64_inexact\<close>).
\<close>

theorem SolveLinearEqs_solves:
  assumes len: "length a0i = n" "length ai0 = n" "length aii = n" "length yi = n"
    and nz: "\<forall>g<n. aii ! g \<noteq> 0"
    and piv: "a00 - (\<Sum>g<n. a0i ! g / aii ! g * ai0 ! g) \<noteq> 0"
  shows "\<exists>x0 xi.
           SolveLinearEqs (Fin a00) (map Fin a0i) (map Fin ai0) (map Fin aii) (Fin y0) (map Fin yi)
             = (Fin x0, map Fin xi)
         \<and> length xi = n
         \<and> a00 * x0 + (\<Sum>g<n. a0i ! g * xi ! g) = y0
         \<and> (\<forall>g<n. ai0 ! g * x0 + aii ! g * xi ! g = yi ! g)"
proof -
  let ?r = "map2 (/) a0i aii"
  have r: "length ?r = n" using len by simp
  have sy: "sum_list (map2 (*) ?r yi) = (\<Sum>g<n. a0i ! g / aii ! g * yi ! g)"
    using sum_list_map2 [OF r len(4), of "(*)"] len by simp
  have sa: "sum_list (map2 (*) ?r ai0) = (\<Sum>g<n. a0i ! g / aii ! g * ai0 ! g)"
    using sum_list_map2 [OF r len(2), of "(*)"] len by simp
  define x0 where "x0 = (- (\<Sum>g<n. a0i ! g / aii ! g * yi ! g) + y0)
                         / (- (\<Sum>g<n. a0i ! g / aii ! g * ai0 ! g) + a00)"
  define xi where "xi = map2 (/) (map2 (-) yi (map (\<lambda>a. a * x0) ai0)) aii"
  have nz': "\<forall>y\<in>set aii. y \<noteq> 0"
    using nz len(3) by (auto simp: in_set_conv_nth)
  have piv': "- sum_list (map2 (*) ?r ai0) + a00 \<noteq> 0"
    using piv by (simp add: sa)
  have eq: "SolveLinearEqs (Fin a00) (map Fin a0i) (map Fin ai0) (map Fin aii) (Fin y0)
              (map Fin yi) = (Fin x0, map Fin xi)"
    unfolding SolveLinearEqs_Fin [OF nz' piv'] sy sa x0_def xi_def ..
  have lxi: "length xi = n" using len by (simp add: xi_def)
  have xig: "xi ! g = (yi ! g - ai0 ! g * x0) / aii ! g" if "g < n" for g
    using that len by (simp add: xi_def)
  note sol = arrow_system_solution [of n "\<lambda>g. aii ! g" a00 "\<lambda>g. a0i ! g" "\<lambda>g. ai0 ! g"
      "\<lambda>g. yi ! g" y0, OF nz piv, folded x0_def]
  have "(\<Sum>g<n. a0i ! g * xi ! g) = (\<Sum>g<n. a0i ! g * ((yi ! g - ai0 ! g * x0) / aii ! g))"
    by (intro sum.cong refl) (simp add: xig)
  then have e1: "a00 * x0 + (\<Sum>g<n. a0i ! g * xi ! g) = y0"
    using sol(1) by simp
  have e2: "\<forall>g<n. ai0 ! g * x0 + aii ! g * xi ! g = yi ! g"
    using sol(2) by (simp add: xig)
  show ?thesis using eq lxi e1 e2 by blast
qed


theorem SolveLinearEqs_solves_witness:
  "\<exists>x0 xi.
     SolveLinearEqs (Fin 1) (map Fin [2, 3]) (map Fin [1, 1]) (map Fin [- 4, - 6]) (Fin 5)
       (map Fin [1, 2]) = (Fin x0, map Fin xi)
     \<and> length xi = 2
     \<and> 1 * x0 + (\<Sum>g<2. [2, 3] ! g * xi ! g) = 5
     \<and> [1, 1] ! 0 * x0 + [- 4, - 6] ! 0 * xi ! 0 = [1, 2] ! 0
     \<and> [1, 1] ! 1 * x0 + [- 4, - 6] ! 1 * xi ! 1 = [1, 2] ! 1"
proof -
  have nz: "\<forall>g<2. [- 4, - 6 :: real] ! g \<noteq> 0"
    by (simp add: less_2_cases_iff)
  have piv: "(1::real) - (\<Sum>g<2. [2, 3] ! g / [- 4, - 6] ! g * [1, 1] ! g) \<noteq> 0"
    by (simp add: lessThan_Suc numeral_2_eq_2)
  from SolveLinearEqs_solves [of "[2, 3]" 2 "[1, 1]" "[- 4, - 6]" "[1, 2]" 1 5, OF _ _ _ _ nz piv]
  obtain x0 xi where
    eq: "SolveLinearEqs (Fin 1) (map Fin [2, 3]) (map Fin [1, 1]) (map Fin [- 4, - 6]) (Fin 5)
           (map Fin [1, 2]) = (Fin x0, map Fin xi)"
    and lxi: "length xi = 2"
    and e1: "1 * x0 + (\<Sum>g<2. [2, 3] ! g * xi ! g) = 5"
    and e2: "\<forall>g<2. [1, 1] ! g * x0 + [- 4, - 6] ! g * xi ! g = [1, 2] ! g"
    by auto
  have "(0::nat) < 2" "(1::nat) < 2" by simp_all
  with e2 have "[1, 1] ! 0 * x0 + [- 4, - 6] ! 0 * xi ! 0 = [1, 2] ! 0"
    "[1, 1] ! 1 * x0 + [- 4, - 6] ! 1 * xi ! 1 = [1, 2] ! 1" by blast+
  with eq lxi e1 show ?thesis by blast
qed

text \<open>
  The claim asks only for a nonzero diagonal, and the diagonal that \<open>AddSourceTerms\<close> passes
  has \<open>-infinity\<close> in every group whose optical depth is not positive. For such a group
  \<open>SolveLinearEqs\<close> returns \<open>xi[g] = 0\<close>, which is what the caller wants, and the equation
  of the group does not hold: its left-hand side is not a number. Here two groups, the
  first with \<open>-infinity\<close> on the diagonal; the pivot is \<open>2\<close>.
\<close>

theorem SolveLinearEqs_infinite_diagonal:
  "SolveLinearEqs (Fin 1) [Fin 1, Fin 1] [Fin 1, Fin 1] [MInf, Fin (- 1)] (Fin 3) [Fin 1, Fin 1]
     = (Fin 2, [Fin 0, Fin 1])
   \<and> Fin 1 - valarray_sum (valarray_mul (valarray_div [Fin 1, Fin 1] [MInf, Fin (- 1)])
                [Fin 1, Fin 1]) = Fin 2
   \<and> [Fin 1, Fin 1] ! 0 * Fin 2 + [MInf, Fin (- 1)] ! 0 * [Fin 0, Fin 1] ! 0 = NaN
   \<and> [Fin 1, Fin 1] ! 0 * Fin 2 + [MInf, Fin (- 1)] ! 0 * [Fin 0, Fin 1] ! 0
       \<noteq> [Fin 1, Fin 1] ! 0"
  by (simp add: SolveLinearEqs_def Let_def valarray_div_def valarray_mul_def valarray_sub_def
      valarray_times_def valarray_sum_def zero_xreal_def minus_xreal_def)

subsection \<open>Planck energy fractions\<close>

lemma telescope:
  fixes h :: "nat \<Rightarrow> real"
  shows "sum_list (map (\<lambda>g. h (g + 1) - h g) [0..<m]) = h m - h 0"
  by (induction m) simp_all

lemma planck_fold:
  assumes pl: "\<And>x. planck (Fin x) = Fin (Yr x)"
    and m: "m \<le> n" and len: "n < length b"
  shows "fold (\<lambda>g (fractions, previous).
                 (fractions[g := planck (map Fin b ! (g + 1) * Fin k) - previous],
                  planck (map Fin b ! (g + 1) * Fin k)))
           [0..<m] (replicate n 0, Fin (Yr (b ! 0 * k)))
         = (map Fin (map (\<lambda>g. Yr (b ! (g + 1) * k) - Yr (b ! g * k)) [0..<m])
              @ replicate (n - m) 0,
            Fin (Yr (b ! m * k)))"
  using m
proof (induction m)
  case 0
  then show ?case by simp
next
  case (Suc m)
  have m: "m < n" "m \<le> n" using Suc.prems by simp_all
  have b: "map Fin b ! Suc m * Fin k = Fin (b ! Suc m * k)"
    using m len by simp
  have upd: "(xs @ replicate (n - m) (0::xreal))[m := v] = xs @ [v] @ replicate (n - Suc m) 0"
    if "length xs = m" for xs v
  proof -
    have "n - m = Suc (n - Suc m)" using m by simp
    then show ?thesis using that by (simp add: list_update_append)
  qed
  show ?case
    unfolding upt_Suc_append [OF le0] fold_append comp_def Suc.IH [OF m(2)]
    by (simp add: Let_def b pl upd Fin_arith(2))
qed


lemma sum_list_over:
  fixes xs :: "real list"
  shows "sum_list (map (\<lambda>x. x / c) xs) = sum_list xs / c"
  by (induction xs) (simp_all add: add_divide_distrib)

lemma strictly_increasing_ends:
  assumes "sorted_wrt (<) (b::real list)" "0 < n" "n < length b"
  shows "b ! 0 < b ! n"
  using assms by (simp add: sorted_wrt_iff_nth_less)

lemma ComputePlanckEnergyFractions_normalised:
  assumes n: "1 < nGroups t" and len: "length b = nGroups t + 1"
    and inc: "sorted_wrt (<) b" and T: "0 < T"
    and eu: "0 < energy_unit t" and kB: "0 < boltzmann_constant t"
    and pl: "\<And>x. planck (Fin x) = Fin (Yr x)" and mono: "strict_mono Yr"
  shows "\<exists>fractions. ComputePlanckEnergyFractions t planck (map Fin b) (Fin T) = map Fin fractions
           \<and> length fractions = nGroups t \<and> sum_list fractions = 1"
proof -
  define k where "k = energy_unit t / (boltzmann_constant t * T)"
  define d where "d = (\<lambda>g. Yr (b ! (g + 1) * k) - Yr (b ! g * k))"
  define tote where "tote = Yr (b ! nGroups t * k) - Yr (b ! 0 * k)"
  have kpos: "0 < k" using eu kB T by (simp add: k_def)
  have k: "Fin (energy_unit t) / (Fin (boltzmann_constant t) * Fin T) = Fin k"
    using kB T by (simp add: k_def Fin_arith(5))
  have b0: "map Fin b ! 0 * Fin k = Fin (b ! 0 * k)"
    using len by simp
  have lt: "nGroups t < length b" using len by simp
  have fold: "fold (\<lambda>g (fractions, previous).
                 (fractions[g := planck (map Fin b ! (g + 1) * Fin k) - previous],
                  planck (map Fin b ! (g + 1) * Fin k)))
           [0..<nGroups t] (replicate (nGroups t) 0, Fin (Yr (b ! 0 * k)))
         = (map Fin (map d [0..<nGroups t]), Fin (Yr (b ! nGroups t * k)))"
    using planck_fold [of planck Yr "nGroups t" "nGroups t" b k, OF pl le_refl lt]
    by (simp add: d_def)
  have "b ! 0 < b ! nGroups t"
    using strictly_increasing_ends [OF inc _ lt] n by simp
  then have "b ! 0 * k < b ! nGroups t * k" using kpos by simp
  then have "Yr (b ! 0 * k) < Yr (b ! nGroups t * k)"
    using mono by (simp add: strict_mono_def)
  then have tpos: "tote \<noteq> 0" by (simp add: tote_def)
  have sum: "sum_list (map d [0..<nGroups t]) = tote"
    unfolding d_def tote_def by (rule telescope [of "\<lambda>g. Yr (b ! g * k)"])
  have over: "valarray_over (map Fin (map d [0..<nGroups t])) (Fin tote)
                = map Fin (map (\<lambda>x. x / tote) (map d [0..<nGroups t]))"
    using tpos by (simp add: valarray_over_def Fin_arith(5))
  have res: "ComputePlanckEnergyFractions t planck (map Fin b) (Fin T)
               = map Fin (map (\<lambda>x. x / tote) (map d [0..<nGroups t]))"
  proof -
    have ne: "(nGroups t = 1) = False" using n by simp
    show ?thesis
      unfolding ComputePlanckEnergyFractions_def Let_def k b0 pl fold ne if_False prod.case
        valarray_sum_Fin sum over ..
  qed
  have "sum_list (map (\<lambda>x. x / tote) (map d [0..<nGroups t]))
          = sum_list (map d [0..<nGroups t]) / tote"
    by (rule sum_list_over)
  also have "\<dots> = 1" using tpos by (simp add: sum)
  finally show ?thesis using res by (intro exI conjI) simp_all
qed

text \<open>
  Claim C8. With one group \<open>ComputePlanckEnergyFractions\<close> returns \<open>[1]\<close>, whatever the
  temperature and the boundaries. With more than one group, a positive temperature and
  strictly increasing boundaries, the fractions it returns are finite and sum to one. The
  Planck integral is a parameter: it is taken to be finite and strictly increasing, as the
  integral of a positive function is, and the energy unit and the Boltzmann constant are
  positive.
\<close>

theorem ComputePlanckEnergyFractions_sum:
  "(nGroups t = 1 \<longrightarrow> ComputePlanckEnergyFractions t planck boundaries temperature = [Fin 1])
   \<and> (1 < nGroups t \<and> length b = nGroups t + 1 \<and> sorted_wrt (<) b \<and> 0 < T
        \<and> 0 < energy_unit t \<and> 0 < boltzmann_constant t
        \<and> (\<forall>x. planck (Fin x) = Fin (Yr x)) \<and> strict_mono Yr \<longrightarrow>
      (\<exists>fractions.
         ComputePlanckEnergyFractions t planck (map Fin b) (Fin T) = map Fin fractions
         \<and> length fractions = nGroups t \<and> sum_list fractions = 1
         \<and> valarray_sum (ComputePlanckEnergyFractions t planck (map Fin b) (Fin T)) = Fin 1))"
proof (intro conjI impI)
  assume "nGroups t = 1"
  then show "ComputePlanckEnergyFractions t planck boundaries temperature = [Fin 1]"
    by (simp add: ComputePlanckEnergyFractions_def one_xreal_def)
next
  assume h: "1 < nGroups t \<and> length b = nGroups t + 1 \<and> sorted_wrt (<) b \<and> 0 < T
        \<and> 0 < energy_unit t \<and> 0 < boltzmann_constant t
        \<and> (\<forall>x. planck (Fin x) = Fin (Yr x)) \<and> strict_mono Yr"
  then have "\<exists>fractions.
         ComputePlanckEnergyFractions t planck (map Fin b) (Fin T) = map Fin fractions
         \<and> length fractions = nGroups t \<and> sum_list fractions = 1"
    by (intro ComputePlanckEnergyFractions_normalised) blast+
  then obtain fractions where
    f: "ComputePlanckEnergyFractions t planck (map Fin b) (Fin T) = map Fin fractions"
       "length fractions = nGroups t" "sum_list fractions = 1"
    by blast
  have "valarray_sum (ComputePlanckEnergyFractions t planck (map Fin b) (Fin T)) = Fin 1"
    by (simp add: f valarray_sum_Fin)
  with f show "\<exists>fractions.
         ComputePlanckEnergyFractions t planck (map Fin b) (Fin T) = map Fin fractions
         \<and> length fractions = nGroups t \<and> sum_list fractions = 1
         \<and> valarray_sum (ComputePlanckEnergyFractions t planck (map Fin b) (Fin T)) = Fin 1"
    by blast
qed

theorem ComputePlanckEnergyFractions_sum_witness:
  "nGroups unit_traits = 1
   \<and> ComputePlanckEnergyFractions unit_traits (\<lambda>x. x) [Fin 0, PInf] (Fin 1) = [Fin 1]
   \<and> 1 < nGroups (unit_traits\<lparr>nGroups := 2\<rparr>)
   \<and> length [0, 1, 2 :: real] = nGroups (unit_traits\<lparr>nGroups := 2\<rparr>) + 1
   \<and> sorted_wrt (<) [0, 1, 2 :: real] \<and> (0::real) < 1
   \<and> 0 < energy_unit (unit_traits\<lparr>nGroups := 2\<rparr>)
   \<and> 0 < boltzmann_constant (unit_traits\<lparr>nGroups := 2\<rparr>)
   \<and> (\<forall>x. (\<lambda>x. x) (Fin x) = Fin ((\<lambda>r. r) x)) \<and> strict_mono (\<lambda>r::real. r)
   \<and> (\<exists>fractions.
         ComputePlanckEnergyFractions (unit_traits\<lparr>nGroups := 2\<rparr>) (\<lambda>x. x)
           (map Fin [0, 1, 2]) (Fin 1) = map Fin fractions
         \<and> length fractions = nGroups (unit_traits\<lparr>nGroups := 2\<rparr>)
         \<and> sum_list fractions = 1
         \<and> valarray_sum (ComputePlanckEnergyFractions (unit_traits\<lparr>nGroups := 2\<rparr>) (\<lambda>x. x)
              (map Fin [0, 1, 2]) (Fin 1)) = Fin 1)"
proof -
  have h1: "nGroups unit_traits = 1" by (simp add: unit_traits_def)
  have h2: "1 < nGroups (unit_traits\<lparr>nGroups := 2\<rparr>)
     \<and> length [0, 1, 2 :: real] = nGroups (unit_traits\<lparr>nGroups := 2\<rparr>) + 1
     \<and> sorted_wrt (<) [0, 1, 2 :: real] \<and> (0::real) < 1
     \<and> 0 < energy_unit (unit_traits\<lparr>nGroups := 2\<rparr>)
     \<and> 0 < boltzmann_constant (unit_traits\<lparr>nGroups := 2\<rparr>)
     \<and> (\<forall>x. (\<lambda>x. x) (Fin x) = Fin ((\<lambda>r. r) x)) \<and> strict_mono (\<lambda>r::real. r)"
    by (simp add: unit_traits_def strict_mono_def)
  from ComputePlanckEnergyFractions_sum [of unit_traits "\<lambda>x. x" "[Fin 0, PInf]" "Fin 1"] h1
  have c1: "ComputePlanckEnergyFractions unit_traits (\<lambda>x. x) [Fin 0, PInf] (Fin 1) = [Fin 1]"
    by blast
  from ComputePlanckEnergyFractions_sum [of "unit_traits\<lparr>nGroups := 2\<rparr>" "\<lambda>x. x" _ _
      "[0, 1, 2]" 1 "\<lambda>r. r"] h2
  have c2: "\<exists>fractions.
         ComputePlanckEnergyFractions (unit_traits\<lparr>nGroups := 2\<rparr>) (\<lambda>x. x)
           (map Fin [0, 1, 2]) (Fin 1) = map Fin fractions
         \<and> length fractions = nGroups (unit_traits\<lparr>nGroups := 2\<rparr>)
         \<and> sum_list fractions = 1
         \<and> valarray_sum (ComputePlanckEnergyFractions (unit_traits\<lparr>nGroups := 2\<rparr>) (\<lambda>x. x)
              (map Fin [0, 1, 2]) (Fin 1)) = Fin 1"
    by blast
  from h1 h2 c1 c2 show ?thesis by blast
qed

subsection \<open>The energy exchange with a group of zero optical depth\<close>

lemma update_EradVec_guess_skip:
  assumes "\<not> tau ! g > Fin 0"
  shows "update_EradVec_guess tau kappaPoverE fourPiBoverC Rvec work Erad n ! g = Erad ! g"
  unfolding update_EradVec_guess_def
proof (induction n)
  case 0
  then show ?case by simp
next
  case (Suc n)
  show ?case
  proof (cases "n = g")
    case True
    then show ?thesis using assms Suc by simp
  next
    case False
    then show ?thesis using Suc by simp
  qed
qed

lemma accumulate_residuals_skip:
  assumes "\<not> tau ! g > Fin 0"
  shows "accumulate_residuals t tau (F_D[g := x]) (Rvec[g := y]) start n
       = accumulate_residuals t tau F_D Rvec start n"
proof -
  have "(\<lambda>h (F_D_abs_sum, F_G).
             if tau ! h > Fin 0
             then (F_D_abs_sum + \<bar>F_D[g := x] ! h\<bar>,
                   F_G + (Fin (c_light t) / Fin (c_hat t)) * Rvec[g := y] ! h)
             else (F_D_abs_sum, F_G))
      = (\<lambda>h (F_D_abs_sum, F_G).
             if tau ! h > Fin 0
             then (F_D_abs_sum + \<bar>F_D ! h\<bar>,
                   F_G + (Fin (c_light t) / Fin (c_hat t)) * Rvec ! h)
             else (F_D_abs_sum, F_G))"
  proof (intro ext)
    fix h :: nat and acc :: "xreal \<times> xreal"
    obtain a b where acc: "acc = (a, b)" by (cases acc)
    show "(case acc of (F_D_abs_sum, F_G) \<Rightarrow>
             if tau ! h > Fin 0
             then (F_D_abs_sum + \<bar>F_D[g := x] ! h\<bar>,
                   F_G + (Fin (c_light t) / Fin (c_hat t)) * Rvec[g := y] ! h)
             else (F_D_abs_sum, F_G))
        = (case acc of (F_D_abs_sum, F_G) \<Rightarrow>
             if tau ! h > Fin 0
             then (F_D_abs_sum + \<bar>F_D ! h\<bar>,
                   F_G + (Fin (c_light t) / Fin (c_hat t)) * Rvec ! h)
             else (F_D_abs_sum, F_G))"
    proof (cases "tau ! h > Fin 0")
      case True
      then have "h \<noteq> g" using assms by auto
      then have "F_D[g := x] ! h = F_D ! h" "Rvec[g := y] ! h = Rvec ! h" by simp_all
      then show ?thesis by (simp only:)
    next
      case False
      then show ?thesis by (simp only: acc prod.case if_False)
    qed
  qed
  then show ?thesis unfolding accumulate_residuals_def by (simp only:)
qed

lemma NewtonRaphson_body_skip:
  assumes "NewtonRaphson_body t inp tau0 s = Inr (b, s')"
    and "\<not> tau_of_guess t inp (ns_Egas_guess s) ! g > Fin 0"
  shows "ns_EradVec_guess s' ! g = ns_EradVec_guess s ! g"
proof -
  define T_gas where "T_gas = ComputeTgasFromEint t (in_rho inp) (ns_Egas_guess s)"
  define B where "B = ComputeThermalRadiation t (in_planck inp) T_gas (in_radBoundaries inp)"
  define kP where "kP = in_PlanckOpacity inp (in_rho inp) T_gas B (in_Erad0Vec inp)"
  define kE where "kE = in_EnergyMeanOpacity inp (in_rho inp) T_gas B (in_Erad0Vec inp)"
  define tau where "tau = optical_depth t inp kE"
  define Rvec where "Rvec = (if use_D_as_base then valarray_mul tau0 (ns_D s) else ns_Rvec s)"
  define E where "E = update_EradVec_guess tau (opacity_ratio kP kE) B Rvec (in_work inp)
                            (ns_EradVec_guess s) (nGroups t)"
  have tau: "tau_of_guess t inp (ns_Egas_guess s) = tau"
    by (simp add: tau_of_guess_def Let_def tau_def kE_def B_def T_gas_def)
  have E: "E ! g = ns_EradVec_guess s ! g"
    unfolding E_def using assms(2) tau by (intro update_EradVec_guess_skip) simp
  have "ns_EradVec_guess s' = E"
    using assms(1)
    unfolding NewtonRaphson_body_def Let_def T_gas_def [symmetric] B_def [symmetric]
      kP_def [symmetric] kE_def [symmetric] tau_def [symmetric] Rvec_def [symmetric]
      E_def [symmetric]
    by (auto split: if_splits prod.splits)
  then show ?thesis using E by simp
qed

lemma NewtonRaphson_loop_skip:
  assumes "NewtonRaphson_loop t inp tau0 k s = Inr s'"
    and "\<forall>Egas_guess. \<not> tau_of_guess t inp Egas_guess ! g > Fin 0"
  shows "ns_EradVec_guess s' ! g = ns_EradVec_guess s ! g"
  using assms(1)
proof (induction k arbitrary: s)
  case 0
  then show ?case by simp
next
  case (Suc k)
  from Suc.prems obtain b s1 where body: "NewtonRaphson_body t inp tau0 s = Inr (b, s1)"
    by (auto split: sum.splits)
  have keep: "ns_EradVec_guess s1 ! g = ns_EradVec_guess s ! g"
    using NewtonRaphson_body_skip [OF body] assms(2) by blast
  show ?case
  proof (cases b)
    case True
    then have "s' = s1" using Suc.prems body by simp
    then show ?thesis using keep by simp
  next
    case False
    then have "NewtonRaphson_loop t inp tau0 k s1 = Inr s'" using Suc.prems body by simp
    from Suc.IH [OF this] keep show ?thesis by simp
  qed
qed

lemma NewtonRaphson_trace_skip:
  assumes "\<forall>Egas_guess. \<not> tau_of_guess t inp Egas_guess ! g > Fin 0"
    and "s' \<in> set (NewtonRaphson_trace t inp tau0 k s)"
  shows "ns_EradVec_guess s' ! g = ns_EradVec_guess s ! g"
  using assms(2)
proof (induction k arbitrary: s)
  case 0
  then show ?case by simp
next
  case (Suc k)
  from Suc.prems obtain b s1 where body: "NewtonRaphson_body t inp tau0 s = Inr (b, s1)"
    by (cases "NewtonRaphson_body t inp tau0 s") auto
  have keep: "ns_EradVec_guess s1 ! g = ns_EradVec_guess s ! g"
    using NewtonRaphson_body_skip [OF body] assms(1) by blast
  show ?case
  proof (cases b)
    case True
    then have "s' = s1" using Suc.prems body by simp
    then show ?thesis using keep by simp
  next
    case False
    then have "s' = s1 \<or> s' \<in> set (NewtonRaphson_trace t inp tau0 k s1)"
      using Suc.prems body by simp
    then show ?thesis using Suc.IH keep by auto
  qed
qed

lemma ComputeEnergyExchange_skip:
  assumes "ComputeEnergyExchange t inp EradVec_guess = Inr s'"
    and "\<forall>Egas_guess. \<not> tau_of_guess t inp Egas_guess ! g > Fin 0"
  shows "ns_EradVec_guess s' ! g = EradVec_guess ! g"
proof -
  from assms(1) obtain tau0 s0 where
    loop: "NewtonRaphson_loop t inp tau0 maxIter s0 = Inr s'"
    and s0: "ns_EradVec_guess s0 = EradVec_guess"
    unfolding ComputeEnergyExchange_def Let_def
    by (auto split: if_splits sum.splits)
  from NewtonRaphson_loop_skip [OF loop assms(2)] s0 show ?thesis by simp
qed

lemma transparent_tau:
  "tau_of_guess unit_traits transparent_cell Egas_guess = [Fin 0]"
  by (simp add: tau_of_guess_def Let_def transparent_cell_def optical_depth_def
      valarray_times_def valarray_scale_def unit_traits_def)

lemma transparent_T_gas:
  "ComputeTgasFromEint unit_traits (Fin 1) (Fin (3 / 2)) = Fin 1"
  by (simp add: ComputeTgasFromEint_def unit_traits_def Let_def minus_xreal_def)

lemma transparent_thermal:
  "ComputeThermalRadiation unit_traits (\<lambda>x. x) (Fin 1) [Fin 0, PInf] = [Fin 1]"
  by (simp add: ComputeThermalRadiation_def ComputePlanckEnergyFractions_def Let_def
      unit_traits_def valarray_scale_def one_xreal_def Erad_floor_per_group_def)

lemma transparent_body:
  "NewtonRaphson_body unit_traits transparent_cell [Fin 1]
     \<lparr>ns_Egas_guess = Fin (3 / 2), ns_D = [Fin 0], ns_Rvec = [Fin 0],
      ns_EradVec_guess = [Fin 1]\<rparr>
   = Inr (True, \<lparr>ns_Egas_guess = Fin (3 / 2), ns_D = [Fin 0], ns_Rvec = [Fin 0],
      ns_EradVec_guess = [Fin 1]\<rparr>)"
proof -
  have n: "nGroups unit_traits = 1" "c_light unit_traits = 1" "c_hat unit_traits = 1"
    by (simp_all add: unit_traits_def)
  have tau: "optical_depth unit_traits transparent_cell [Fin 0] = [Fin 0]"
    by (simp add: optical_depth_def valarray_times_def valarray_scale_def unit_traits_def
        transparent_cell_def)
  have sel: "in_rho transparent_cell = Fin 1" "in_planck transparent_cell = (\<lambda>x. x)"
    "in_radBoundaries transparent_cell = [Fin 0, PInf]"
    "in_PlanckOpacity transparent_cell = (\<lambda>rho T_gas fourPiBoverC Erad0Vec. [Fin 0])"
    "in_EnergyMeanOpacity transparent_cell = (\<lambda>rho T_gas fourPiBoverC Erad0Vec. [Fin 0])"
    "in_work transparent_cell = [Fin 0]" "in_Egas0 transparent_cell = Fin (3 / 2)"
    "in_Erad0Vec transparent_cell = [Fin 1]" "in_Src transparent_cell = [Fin 0]"
    "in_Etot0 transparent_cell = Fin (5 / 2)"
    by (simp_all add: transparent_cell_def)
  show ?thesis
    unfolding NewtonRaphson_body_def sel newton_state.simps transparent_T_gas
      transparent_thermal Let_def tau n
    by (simp add: hasnan_def isnan_def opacity_ratio_def use_D_as_base_def valarray_mul_def
        update_EradVec_guess_def accumulate_residuals_def valarray_sub_def valarray_add_def
        minus_xreal_def resid_tol_def)
qed

lemma transparent_exchange:
  "ComputeEnergyExchange unit_traits transparent_cell [Fin 1]
   = Inr \<lparr>ns_Egas_guess = Fin (3 / 2), ns_D = [Fin 0], ns_Rvec = [Fin 0],
      ns_EradVec_guess = [Fin 1]\<rparr>"
proof -
  have sel: "in_rho transparent_cell = Fin 1" "in_planck transparent_cell = (\<lambda>x. x)"
    "in_radBoundaries transparent_cell = [Fin 0, PInf]"
    "in_PlanckOpacity transparent_cell = (\<lambda>rho T_gas fourPiBoverC Erad0Vec. [Fin 0])"
    "in_EnergyMeanOpacity transparent_cell = (\<lambda>rho T_gas fourPiBoverC Erad0Vec. [Fin 0])"
    "in_FluxMeanOpacity transparent_cell = (\<lambda>rho T_gas fourPiBoverC Erad0Vec. [Fin 0])"
    "in_work transparent_cell = [Fin 0]" "in_Egas0 transparent_cell = Fin (3 / 2)"
    "in_Erad0Vec transparent_cell = [Fin 1]" "in_Src transparent_cell = [Fin 0]"
    by (simp_all add: transparent_cell_def)
  have tau: "optical_depth unit_traits transparent_cell [Fin 0] = [Fin 0]"
    by (simp add: optical_depth_def valarray_times_def valarray_scale_def unit_traits_def
        transparent_cell_def)
  have m: "maxIter = Suc 399" by (simp add: maxIter_def)
  have loop: "NewtonRaphson_loop unit_traits transparent_cell [Fin 1] maxIter
     \<lparr>ns_Egas_guess = Fin (3 / 2), ns_D = [Fin 0], ns_Rvec = [Fin 0],
      ns_EradVec_guess = [Fin 1]\<rparr>
     = Inr \<lparr>ns_Egas_guess = Fin (3 / 2), ns_D = [Fin 0], ns_Rvec = [Fin 0],
      ns_EradVec_guess = [Fin 1]\<rparr>"
    unfolding m NewtonRaphson_loop.simps transparent_body by simp
  have init: "valarray_add (valarray_mul (valarray_sub [Fin 1]
        (valarray_div [Fin 1] (opacity_ratio [Fin 0] [Fin 0]))) [Fin 0]) [Fin 0] = [Fin 0]"
    by (simp add: valarray_add_def valarray_mul_def valarray_sub_def valarray_div_def
        opacity_ratio_def minus_xreal_def)
  show ?thesis
    unfolding ComputeEnergyExchange_def sel transparent_T_gas transparent_thermal Let_def tau
      init
    by (simp add: hasnan_def isnan_def use_D_as_base_def valarray_min_def valarray_div_def
        loop)
qed

text \<open>
  Claim C9. In the Newton-Raphson loop of the exchange solver, a group \<open>g\<close> whose optical
  depth \<open>tau[g]\<close> is exactly zero is skipped: a pass does not overwrite
  \<open>EradVec_guess[g]\<close>, and neither the accumulation of \<open>F_G\<close> nor the sum of \<open>F_D\<close> reads
  the entries of that group. When \<open>tau[g]\<close> is zero at every gas energy, \<open>EradVec_guess[g]\<close>
  keeps its value after every pass of the loop, and the energy exchange, entered with
  \<open>EradVec_guess[g] = Erad0Vec[g]\<close> as the kernel sets it, ends with that value.
\<close>

theorem zero_optical_depth_group:
  "(tau_of_guess t inp (ns_Egas_guess s) ! g = Fin 0
      \<and> NewtonRaphson_body t inp tau0 s = Inr (b, s') \<longrightarrow>
        ns_EradVec_guess s' ! g = ns_EradVec_guess s ! g)
   \<and> (tau ! g = Fin 0 \<longrightarrow>
        update_EradVec_guess tau kappaPoverE fourPiBoverC Rvec work Erad n ! g = Erad ! g
      \<and> accumulate_residuals t tau (F_D[g := x]) (Rvec[g := y]) start n
          = accumulate_residuals t tau F_D Rvec start n)
   \<and> ((\<forall>Egas_guess. tau_of_guess t inp Egas_guess ! g = Fin 0) \<longrightarrow>
        (\<forall>s1\<in>set (NewtonRaphson_trace t inp tau0 maxIter s).
           ns_EradVec_guess s1 ! g = ns_EradVec_guess s ! g)
      \<and> (\<forall>EradVec_guess s2.
            EradVec_guess ! g = in_Erad0Vec inp ! g
            \<and> ComputeEnergyExchange t inp EradVec_guess = Inr s2 \<longrightarrow>
            ns_EradVec_guess s2 ! g = in_Erad0Vec inp ! g))"
proof (intro conjI impI allI ballI)
  assume "tau_of_guess t inp (ns_Egas_guess s) ! g = Fin 0
      \<and> NewtonRaphson_body t inp tau0 s = Inr (b, s')"
  then have "NewtonRaphson_body t inp tau0 s = Inr (b, s')"
    and "\<not> tau_of_guess t inp (ns_Egas_guess s) ! g > Fin 0"
    by simp_all
  then show "ns_EradVec_guess s' ! g = ns_EradVec_guess s ! g"
    by (rule NewtonRaphson_body_skip)
next
  assume "tau ! g = Fin 0"
  then have z: "\<not> tau ! g > Fin 0" by simp
  show "update_EradVec_guess tau kappaPoverE fourPiBoverC Rvec work Erad n ! g = Erad ! g"
    using z by (rule update_EradVec_guess_skip)
  show "accumulate_residuals t tau (F_D[g := x]) (Rvec[g := y]) start n
          = accumulate_residuals t tau F_D Rvec start n"
    using z by (rule accumulate_residuals_skip)
next
  fix s1
  assume "\<forall>Egas_guess. tau_of_guess t inp Egas_guess ! g = Fin 0"
    and s1: "s1 \<in> set (NewtonRaphson_trace t inp tau0 maxIter s)"
  then have "\<forall>Egas_guess. \<not> tau_of_guess t inp Egas_guess ! g > Fin 0" by simp
  from NewtonRaphson_trace_skip [OF this s1]
  show "ns_EradVec_guess s1 ! g = ns_EradVec_guess s ! g" .
next
  fix EradVec_guess s2
  assume "\<forall>Egas_guess. tau_of_guess t inp Egas_guess ! g = Fin 0"
    and h: "EradVec_guess ! g = in_Erad0Vec inp ! g
            \<and> ComputeEnergyExchange t inp EradVec_guess = Inr s2"
  then have "\<forall>Egas_guess. \<not> tau_of_guess t inp Egas_guess ! g > Fin 0" by simp
  from ComputeEnergyExchange_skip [OF _ this, of EradVec_guess s2] h
  show "ns_EradVec_guess s2 ! g = in_Erad0Vec inp ! g" by simp
qed

theorem zero_optical_depth_group_witness:
  "(\<forall>Egas_guess. tau_of_guess unit_traits transparent_cell Egas_guess ! 0 = Fin 0)
   \<and> NewtonRaphson_body unit_traits transparent_cell [Fin 1]
        \<lparr>ns_Egas_guess = Fin (3 / 2), ns_D = [Fin 0], ns_Rvec = [Fin 0],
         ns_EradVec_guess = [Fin 1]\<rparr>
      = Inr (True, \<lparr>ns_Egas_guess = Fin (3 / 2), ns_D = [Fin 0], ns_Rvec = [Fin 0],
         ns_EradVec_guess = [Fin 1]\<rparr>)
   \<and> [Fin 1] ! 0 = in_Erad0Vec transparent_cell ! 0
   \<and> ComputeEnergyExchange unit_traits transparent_cell [Fin 1]
      = Inr \<lparr>ns_Egas_guess = Fin (3 / 2), ns_D = [Fin 0], ns_Rvec = [Fin 0],
         ns_EradVec_guess = [Fin 1]\<rparr>
   \<and> ns_EradVec_guess \<lparr>ns_Egas_guess = Fin (3 / 2), ns_D = [Fin 0], ns_Rvec = [Fin 0],
         ns_EradVec_guess = [Fin 1]\<rparr> ! 0 = in_Erad0Vec transparent_cell ! 0
   \<and> [Fin 0] ! 0 = Fin 0
   \<and> accumulate_residuals unit_traits [Fin 0] ([Fin 5][0 := Fin 7]) ([Fin 5][0 := Fin 7])
        (Fin 0, Fin 0) 1
      = accumulate_residuals unit_traits [Fin 0] [Fin 5] [Fin 5] (Fin 0, Fin 0) 1"
proof -
  let ?s = "\<lparr>ns_Egas_guess = Fin (3 / 2), ns_D = [Fin 0], ns_Rvec = [Fin 0],
         ns_EradVec_guess = [Fin 1]\<rparr>"
  have h1: "\<forall>Egas_guess. tau_of_guess unit_traits transparent_cell Egas_guess ! 0 = Fin 0"
    by (simp add: transparent_tau)
  have h2: "[Fin 1] ! 0 = in_Erad0Vec transparent_cell ! 0"
    by (simp add: transparent_cell_def)
  have h3: "[Fin 0] ! 0 = Fin 0" by simp
  note inst = zero_optical_depth_group [of unit_traits transparent_cell ?s 0 "[Fin 1]" True ?s
      "[Fin 0]" "[Fin 1]" "[Fin 1]" "[Fin 5]" "[Fin 0]" "[Fin 1]" 1 "[Fin 5]" "Fin 7" "Fin 7"
      "(Fin 0, Fin 0)"]
  from inst h1 h2 transparent_exchange
  have c1: "ns_EradVec_guess ?s ! 0 = in_Erad0Vec transparent_cell ! 0"
    by blast
  from inst h3
  have c2: "accumulate_residuals unit_traits [Fin 0] ([Fin 5][0 := Fin 7]) ([Fin 5][0 := Fin 7])
        (Fin 0, Fin 0) 1
      = accumulate_residuals unit_traits [Fin 0] [Fin 5] [Fin 5] (Fin 0, Fin 0) 1"
    by blast
  from h1 h2 h3 c1 c2 transparent_body transparent_exchange show ?thesis by blast
qed

subsection \<open>Conserved and primitive variables\<close>

lemma prim_write_other:
  assumes "ConservedToPrimitive_groups t cons i j k gs primVar0 = Inr primVar"
    and "(i', j', k') \<noteq> (i, j, k) \<or> (\<forall>g\<in>set gs. q < 4 * g \<or> 4 * g + 3 < q)"
  shows "primVar i' j' k' q = primVar0 i' j' k' q"
  using assms
proof (induction gs arbitrary: primVar0)
  case Nil
  then show ?case by simp
next
  case (Cons g gs)
  let ?E = "cons i j k (radEnergy_index t + numRadVars * g)"
  let ?p = "array_write (array_write (array_write (array_write primVar0 i j k
              (primRadEnergy_index + numRadVars * g) ?E) i j k
              (x1ReducedFlux_index + numRadVars * g)
              (cons i j k (x1RadFlux_index t + numRadVars * g) / (c_light t * ?E))) i j k
              (x2ReducedFlux_index + numRadVars * g)
              (cons i j k (x2RadFlux_index t + numRadVars * g) / (c_light t * ?E))) i j k
              (x3ReducedFlux_index + numRadVars * g)
              (cons i j k (x3RadFlux_index t + numRadVars * g) / (c_light t * ?E))"
  from Cons.prems(1) have rest: "ConservedToPrimitive_groups t cons i j k gs ?p = Inr primVar"
    by (simp add: Let_def split: if_splits)
  have "(i', j', k') \<noteq> (i, j, k) \<or> (\<forall>g\<in>set gs. q < 4 * g \<or> 4 * g + 3 < q)"
    using Cons.prems(2) by auto
  from Cons.IH [OF rest this] have "primVar i' j' k' q = ?p i' j' k' q" .
  also have "\<dots> = primVar0 i' j' k' q"
    using Cons.prems(2)
    by (auto simp: array_write_apply primRadEnergy_index_def x1ReducedFlux_index_def
        x2ReducedFlux_index_def x3ReducedFlux_index_def numRadVars_def)
  finally show ?case .
qed

lemma prim_write_group:
  assumes "ConservedToPrimitive_groups t cons i j k gs primVar0 = Inr primVar"
    and "distinct gs" "g \<in> set gs"
  shows "cons i j k (radEnergy_index t + numRadVars * g) > 0
       \<and> primVar i j k (4 * g) = cons i j k (radEnergy_index t + numRadVars * g)
       \<and> primVar i j k (4 * g + 1) = cons i j k (x1RadFlux_index t + numRadVars * g)
             / (c_light t * cons i j k (radEnergy_index t + numRadVars * g))
       \<and> primVar i j k (4 * g + 2) = cons i j k (x2RadFlux_index t + numRadVars * g)
             / (c_light t * cons i j k (radEnergy_index t + numRadVars * g))
       \<and> primVar i j k (4 * g + 3) = cons i j k (x3RadFlux_index t + numRadVars * g)
             / (c_light t * cons i j k (radEnergy_index t + numRadVars * g))"
  using assms
proof (induction gs arbitrary: primVar0)
  case Nil
  then show ?case by simp
next
  case (Cons h gs)
  let ?E = "cons i j k (radEnergy_index t + numRadVars * h)"
  let ?p = "array_write (array_write (array_write (array_write primVar0 i j k
              (primRadEnergy_index + numRadVars * h) ?E) i j k
              (x1ReducedFlux_index + numRadVars * h)
              (cons i j k (x1RadFlux_index t + numRadVars * h) / (c_light t * ?E))) i j k
              (x2ReducedFlux_index + numRadVars * h)
              (cons i j k (x2RadFlux_index t + numRadVars * h) / (c_light t * ?E))) i j k
              (x3ReducedFlux_index + numRadVars * h)
              (cons i j k (x3RadFlux_index t + numRadVars * h) / (c_light t * ?E))"
  from Cons.prems(1) have pos: "?E > 0"
    and rest: "ConservedToPrimitive_groups t cons i j k gs ?p = Inr primVar"
    by (simp_all add: Let_def split: if_splits)
  show ?case
  proof (cases "g = h")
    case False
    then have "g \<in> set gs" "distinct gs" using Cons.prems by simp_all
    from Cons.IH [OF rest this(2,1)] show ?thesis .
  next
    case True
    have notin: "\<forall>g'\<in>set gs. q < 4 * g' \<or> 4 * g' + 3 < q" if "4 * h \<le> q" "q \<le> 4 * h + 3" for q
    proof
      fix g' assume "g' \<in> set gs"
      then have "g' \<noteq> h" using Cons.prems(2) by auto
      then show "q < 4 * g' \<or> 4 * g' + 3 < q" using that by presburger
    qed
    have keep: "primVar i j k q = ?p i j k q" if "4 * h \<le> q" "q \<le> 4 * h + 3" for q
      using prim_write_other [OF rest, of i j k q] notin [OF that] by simp
    have "primVar i j k (4 * h) = ?p i j k (4 * h)"
      "primVar i j k (4 * h + 1) = ?p i j k (4 * h + 1)"
      "primVar i j k (4 * h + 2) = ?p i j k (4 * h + 2)"
      "primVar i j k (4 * h + 3) = ?p i j k (4 * h + 3)"
      by (simp_all add: keep)
    then show ?thesis
      using pos True
      by (simp add: array_write_apply primRadEnergy_index_def x1ReducedFlux_index_def
          x2ReducedFlux_index_def x3ReducedFlux_index_def numRadVars_def)
  qed
qed

lemma ConservedToPrimitive_other_cell:
  assumes "ConservedToPrimitive t cons primVar0 cells = Inr primVar"
    and "(i, j, k) \<notin> set cells"
  shows "primVar i j k q = primVar0 i j k q"
  using assms
proof (induction cells arbitrary: primVar0)
  case Nil
  then show ?case by simp
next
  case (Cons c cells)
  obtain i' j' k' where c: "c = (i', j', k')" by (cases c)
  from Cons.prems(1) obtain p1 where
    head: "ConservedToPrimitive_groups t cons i' j' k' [0..<nGroups t] primVar0 = Inr p1"
    and rest: "ConservedToPrimitive t cons p1 cells = Inr primVar"
    by (auto simp: c split: sum.splits)
  have ne: "(i, j, k) \<noteq> (i', j', k')" and notin: "(i, j, k) \<notin> set cells"
    using Cons.prems(2) c by auto
  from Cons.IH [OF rest notin] prim_write_other [OF head, of i j k q] ne
  show ?case by simp
qed

lemma ConservedToPrimitive_cell:
  assumes "ConservedToPrimitive t cons primVar0 cells = Inr primVar"
    and "(i, j, k) \<in> set cells" "g < nGroups t"
  shows "cons i j k (radEnergy_index t + numRadVars * g) > 0
       \<and> primVar i j k (4 * g) = cons i j k (radEnergy_index t + numRadVars * g)
       \<and> primVar i j k (4 * g + 1) = cons i j k (x1RadFlux_index t + numRadVars * g)
             / (c_light t * cons i j k (radEnergy_index t + numRadVars * g))
       \<and> primVar i j k (4 * g + 2) = cons i j k (x2RadFlux_index t + numRadVars * g)
             / (c_light t * cons i j k (radEnergy_index t + numRadVars * g))
       \<and> primVar i j k (4 * g + 3) = cons i j k (x3RadFlux_index t + numRadVars * g)
             / (c_light t * cons i j k (radEnergy_index t + numRadVars * g))"
  using assms(1,2)
proof (induction cells arbitrary: primVar0)
  case Nil
  then show ?case by simp
next
  case (Cons c cells)
  obtain i' j' k' where c: "c = (i', j', k')" by (cases c)
  from Cons.prems(1) obtain p1 where
    head: "ConservedToPrimitive_groups t cons i' j' k' [0..<nGroups t] primVar0 = Inr p1"
    and rest: "ConservedToPrimitive t cons p1 cells = Inr primVar"
    by (auto simp: c split: sum.splits)
  show ?case
  proof (cases "(i, j, k) \<in> set cells")
    case True
    from Cons.IH [OF rest True] show ?thesis .
  next
    case False
    then have eq: "i' = i" "j' = j" "k' = k" using Cons.prems(2) c by auto
    have g: "g \<in> set [0..<nGroups t]" using assms(3) by simp
    have same: "primVar i j k q = p1 i j k q" for q
      using ConservedToPrimitive_other_cell [OF rest False] .
    from prim_write_group [OF head [unfolded eq] distinct_upt g]
    show ?thesis unfolding same .
  qed
qed

subsection \<open>The round trip in binary64 arithmetic\<close>

lemma bit_length_zero: "bit_length 0 = 0"
  by (subst bit_length.simps) simp

lemma bit_length_pos: "0 < n \<Longrightarrow> bit_length n = Suc (bit_length (n div 2))"
  by (subst bit_length.simps) simp

lemma bit_length_values:
  "bit_length 48 = 6" "bit_length 49 = 6" "bit_length (Suc 0) = 1"
  by (simp_all add: bit_length_zero bit_length_pos)

lemma binary_exponent_values:
  "binary_exponent 49 = 5" "binary_exponent (1 / 49) = - 6"
  "binary_exponent (288230376151711721 / 288230376151711744) = - 1"
  by (simp_all add: binary_exponent_def bit_length_values)

lemma binary64_positive:
  assumes "0 < x" "max (binary_exponent x) (- 1022) = e" "pow2 (e - 52) = u"
    and "round_half_even (x / u) = m" "\<not> pow2 1024 \<le> of_int m * u"
  shows "binary64 x = Some (of_int m * u)"
  using assms by (simp add: binary64_def Let_def)

lemma binary64_49: "binary64 49 = Some 49"
proof -
  have "binary64 49 = Some (of_int (49 * 2 ^ 47) * (1 / 2 ^ 47))"
    by (rule binary64_positive [where e = 5])
       (simp_all add: binary_exponent_values pow2_def round_half_even_def Let_def)
  then show ?thesis by simp
qed

lemma binary64_49_inverse:
  "binary64 (1 / 49) = Some (5882252574524729 / 288230376151711744)"
proof -
  have "binary64 (1 / 49) = Some (of_int 5882252574524729 * (1 / 2 ^ 58))"
    by (rule binary64_positive [where e = "- 6"])
       (simp_all add: binary_exponent_values pow2_def round_half_even_def Let_def)
  then show ?thesis by simp
qed

lemma binary64_49_product:
  "binary64 (288230376151711721 / 288230376151711744)
     = Some (9007199254740991 / 9007199254740992)"
proof -
  have "binary64 (288230376151711721 / 288230376151711744)
          = Some (of_int 9007199254740991 * (1 / 2 ^ 53))"
    by (rule binary64_positive [where e = "- 1"])
       (simp_all add: binary_exponent_values pow2_def round_half_even_def Let_def)
  then show ?thesis by simp
qed


lemma bit_length_bounds:
  "0 < n \<Longrightarrow> 2 ^ (bit_length n - 1) \<le> n \<and> n < 2 ^ bit_length n"
proof (induction n rule: bit_length.induct)
  case (1 n)
  show ?case
  proof (cases "n div 2 = 0")
    case True
    then have "n = 1" using "1.prems" by presburger
    then show ?thesis by (simp add: bit_length_values)
  next
    case False
    then have pos: "0 < n div 2" by simp
    from "1.IH" [OF _ pos] "1.prems"
    have ih: "2 ^ (bit_length (n div 2) - 1) \<le> n div 2" "n div 2 < 2 ^ bit_length (n div 2)"
      by simp_all
    have bl: "bit_length n = Suc (bit_length (n div 2))"
      using "1.prems" by (rule bit_length_pos)
    have b1: "0 < bit_length (n div 2)"
      using pos by (simp add: bit_length_pos)
    define p :: nat where "p = 2 ^ (bit_length (n div 2) - 1)"
    define h where "h = n div 2"
    have e1: "(2::nat) ^ (bit_length n - 1) = 2 * p"
      using b1 by (cases "bit_length (n div 2)") (simp_all add: bl p_def)
    have e2: "(2::nat) ^ bit_length (n div 2) = 2 * p"
      using b1 by (cases "bit_length (n div 2)") (simp_all add: p_def)
    have e3: "(2::nat) ^ bit_length n = 2 * (2 * p)"
      by (simp add: bl e2)
    have "p \<le> h" "h < 2 * p" using ih by (simp_all add: p_def h_def e2)
    moreover have "2 * h \<le> n" "n < 2 * h + 2" unfolding h_def by presburger+
    ultimately have "2 * p \<le> n \<and> n < 2 * (2 * p)" by linarith
    then show ?thesis unfolding e1 e3 .
  qed
qed

lemma round_half_even_nearest:
  "\<bar>of_int (round_half_even m) - m\<bar> \<le> 1 / 2"
  unfolding round_half_even_def Let_def by (auto simp: abs_if) linarith+


lemma binary_exponent_correct:
  assumes "0 < a"
  shows "pow2 (binary_exponent a) \<le> a \<and> a < pow2 (binary_exponent a + 1)"
proof (cases "1 \<le> a")
  case True
  define n where "n = nat \<lfloor>a\<rfloor>"
  have fl: "1 \<le> \<lfloor>a\<rfloor>" using True by simp
  then have n: "0 < n" "real n = of_int \<lfloor>a\<rfloor>" by (simp_all add: n_def)
  from bit_length_bounds [OF n(1)]
  have b: "2 ^ (bit_length n - 1) \<le> n" "n < 2 ^ bit_length n" by simp_all
  have bl: "0 < bit_length n" using n(1) by (simp add: bit_length_pos)
  have e: "binary_exponent a = int (bit_length n) - 1"
    using True by (simp add: binary_exponent_def n_def)
  have p1: "pow2 (binary_exponent a) = 2 ^ (bit_length n - 1)"
    using bl by (simp add: e pow2_def nat_diff_distrib')
  have p2: "pow2 (binary_exponent a + 1) = 2 ^ bit_length n"
    by (simp add: e pow2_def)
  have "real (2 ^ (bit_length n - 1)) \<le> real n" using b(1) by (rule iffD2 [OF of_nat_le_iff])
  also have "real n \<le> a" unfolding n(2) by (rule of_int_floor_le)
  finally have lo: "(2::real) ^ (bit_length n - 1) \<le> a" by simp
  have "n + 1 \<le> 2 ^ bit_length n" using b(2) by simp
  then have "real (n + 1) \<le> real (2 ^ bit_length n)" by (rule iffD2 [OF of_nat_le_iff])
  then have "real n + 1 \<le> real (2 ^ bit_length n)" by simp
  moreover have "a < real n + 1" unfolding n(2) by linarith
  ultimately have hi: "a < 2 ^ bit_length n" by simp
  show ?thesis using lo hi by (simp add: p1 p2)
next
  case False
  define y where "y = 1 / a"
  define m where "m = nat \<lceil>y\<rceil> - 1"
  have y: "1 < y" using False assms by (simp add: y_def)
  then have c: "2 \<le> \<lceil>y\<rceil>" by linarith
  have k: "2 \<le> nat \<lceil>y\<rceil>" "real (nat \<lceil>y\<rceil>) = of_int \<lceil>y\<rceil>"
    using c by (linarith, simp)
  define q where "q = nat \<lceil>y\<rceil>"
  have q: "2 \<le> q" "real q = of_int \<lceil>y\<rceil>" using k by (simp_all add: q_def)
  have mq: "m = q - 1" by (simp add: m_def q_def)
  have "real (q - 1) = real q - 1" using q(1) by simp
  then have m2: "real m = of_int \<lceil>y\<rceil> - 1" unfolding mq q(2) .
  have m1: "0 < m" unfolding mq using q(1) by linarith
  note m = m1 m2
  from bit_length_bounds [OF m(1)]
  have b: "2 ^ (bit_length m - 1) \<le> m" "m < 2 ^ bit_length m" by simp_all
  have bl: "0 < bit_length m" using m(1) by (simp add: bit_length_pos)
  have e: "binary_exponent a = - int (bit_length m)"
    using False by (simp add: binary_exponent_def m_def y_def)
  have p1: "pow2 (binary_exponent a) = 1 / 2 ^ bit_length m"
    using bl by (simp add: e pow2_def)
  have p2: "pow2 (binary_exponent a + 1) = 1 / 2 ^ (bit_length m - 1)"
    using bl by (cases "bit_length m") (simp_all add: e pow2_def)
  have "m + 1 \<le> 2 ^ bit_length m" using b(2) by simp
  then have "real (m + 1) \<le> real (2 ^ bit_length m)" by (rule iffD2 [OF of_nat_le_iff])
  then have "real m + 1 \<le> real (2 ^ bit_length m)" by simp
  moreover have "y \<le> real m + 1" unfolding m(2) by simp
  ultimately have yhi: "y \<le> 2 ^ bit_length m" by simp
  have "real (2 ^ (bit_length m - 1)) \<le> real m" using b(1) by (rule iffD2 [OF of_nat_le_iff])
  also have "real m < y" unfolding m(2) by linarith
  finally have ylo: "2 ^ (bit_length m - 1) < y" by simp
  have a: "a = 1 / y" using assms by (simp add: y_def)
  have lo: "1 / 2 ^ bit_length m \<le> a"
    unfolding a using yhi y by (intro divide_left_mono) simp_all
  have hi: "a < 1 / 2 ^ (bit_length m - 1)"
    unfolding a using ylo y by (intro divide_strict_left_mono) simp_all
  show ?thesis using lo hi by (simp add: p1 p2)
qed

text \<open>
  The solver with rounded operations: the system \<open>49 x0 = 1\<close>, \<open>x1 = 0\<close> gets the binary64
  number nearest to \<open>1 / 49\<close> for \<open>x0\<close>, and \<open>49\<close> times that number is not \<open>1\<close>.
\<close>

lemma binary64_1: "binary64 1 = Some 1"
proof -
  have "binary_exponent 1 = 0" by (simp add: binary_exponent_def bit_length_values)
  then have "binary64 1 = Some (of_int (2 ^ 52) * (1 / 2 ^ 52))"
    by (intro binary64_positive [where e = 0])
       (simp_all add: pow2_def round_half_even_def Let_def)
  then show ?thesis by simp
qed

lemma SolveLinearEqs_binary64_inexact:
  "SolveLinearEqs_binary64 49 [0] [0] [1] 1 [0]
     = Some (5882252574524729 / 288230376151711744, [0])
   \<and> 49 * (5882252574524729 / 288230376151711744) + 0 * 0 \<noteq> (1::real)"
proof -
  have z: "binary64 0 = Some 0" by (simp add: binary64_def)
  have "SolveLinearEqs_binary64 49 [0] [0] [1] 1 [0]
     = Some (5882252574524729 / 288230376151711744, [0])"
    by (simp add: SolveLinearEqs_binary64_def valarray_binary64_def valarray_sum_binary64_def
        binary64_add_def binary64_sub_def binary64_mul_def binary64_div_def z binary64_1
        binary64_49 binary64_49_inverse)
  then show ?thesis by simp
qed

subsection \<open>The round trip in exact arithmetic\<close>

lemma ConservedToPrimitive_groups_returns:
  assumes "\<forall>g \<in> set gs. cons i j k (radEnergy_index t + numRadVars * g) > 0"
  shows "\<exists>primVar. ConservedToPrimitive_groups t cons i j k gs primVar0 = Inr primVar"
  using assms
proof (induction gs arbitrary: primVar0)
  case Nil
  then show ?case by simp
next
  case (Cons g gs)
  then show ?case by (simp add: Let_def)
qed

lemma ConservedToPrimitive_returns:
  assumes "\<forall>(i, j, k) \<in> set cells. \<forall>g < nGroups t.
             cons i j k (radEnergy_index t + numRadVars * g) > 0"
  shows "\<exists>primVar. ConservedToPrimitive t cons primVar0 cells = Inr primVar"
  using assms
proof (induction cells arbitrary: primVar0)
  case Nil
  then show ?case by simp
next
  case (Cons c cells)
  obtain i j k where c: "c = (i, j, k)" by (cases c)
  have "\<forall>g \<in> set [0..<nGroups t]. cons i j k (radEnergy_index t + numRadVars * g) > 0"
    using Cons.prems c by simp
  from ConservedToPrimitive_groups_returns
    [where gs = "[0..<nGroups t]" and cons = cons and i = i and j = j and k = k and t = t
       and ?primVar0.0 = primVar0, OF this]
  obtain p1 where head: "ConservedToPrimitive_groups t cons i j k [0..<nGroups t] primVar0 = Inr p1"
    by blast
  have "\<forall>(i, j, k) \<in> set cells. \<forall>g < nGroups t.
          cons i j k (radEnergy_index t + numRadVars * g) > 0"
    using Cons.prems by simp
  from Cons.IH [OF this, of p1] show ?case by (simp add: c head)
qed

lemma reconstructed_side_round_trip:
  assumes "ConservedToPrimitive t cons primVar0 cells = Inr primVar"
    and "(i, j, k) \<in> set cells" "g < nGroups t" "c_light t \<noteq> 0"
  shows "fst (reconstructed_side t primVar i j k g) =
           [cons i j k (radEnergy_index t + numRadVars * g),
            cons i j k (x1RadFlux_index t + numRadVars * g),
            cons i j k (x2RadFlux_index t + numRadVars * g),
            cons i j k (x3RadFlux_index t + numRadVars * g)]"
proof -
  have idx: "primRadEnergy_index + numRadVars * g = 4 * g"
    "x1ReducedFlux_index + numRadVars * g = 4 * g + 1"
    "x2ReducedFlux_index + numRadVars * g = 4 * g + 2"
    "x3ReducedFlux_index + numRadVars * g = 4 * g + 3"
    by (simp_all add: primRadEnergy_index_def x1ReducedFlux_index_def x2ReducedFlux_index_def
        x3ReducedFlux_index_def numRadVars_def)
  note cell = ConservedToPrimitive_cell [OF assms(1-3)]
  define E where "E = cons i j k (radEnergy_index t + numRadVars * g)"
  have E: "c_light t * E \<noteq> 0" using cell assms(4) by (simp add: E_def)
  have p: "primVar i j k (4 * g) = E"
    "primVar i j k (4 * g + 1) = cons i j k (x1RadFlux_index t + numRadVars * g) / (c_light t * E)"
    "primVar i j k (4 * g + 2) = cons i j k (x2RadFlux_index t + numRadVars * g) / (c_light t * E)"
    "primVar i j k (4 * g + 3) = cons i j k (x3RadFlux_index t + numRadVars * g) / (c_light t * E)"
    unfolding E_def using cell by blast+
  have undo: "x / (c_light t * E) * (c_light t * E) = x" for x
    using E by simp
  show ?thesis
    unfolding reconstructed_side_def Let_def idx fst_conv p undo by (simp only: E_def)
qed

text \<open>
  Claim C5. When the radiation energy is positive in every cell and group of the range and
  \<open>c_light\<close> is not zero, \<open>ConservedToPrimitive\<close> returns, and the state that
  \<open>ComputeFluxes\<close> reconstructs from the primitives it wrote, \<open>F = f * (c_light_ * erad)\<close>,
  has the energy and the three flux components of the conserved state. This is an identity
  of real arithmetic: the division and the multiplication are taken without rounding.
\<close>

theorem round_trip_exact:
  assumes "\<forall>(i, j, k) \<in> set indexRange. \<forall>g < nGroups t.
             cons i j k (radEnergy_index t + numRadVars * g) > 0"
    and "c_light t \<noteq> 0"
  shows "\<exists>primVar. ConservedToPrimitive t cons primVar0 indexRange = Inr primVar
           \<and> (\<forall>(i, j, k) \<in> set indexRange. \<forall>g < nGroups t.
                 fst (reconstructed_side t primVar i j k g) =
                   [cons i j k (radEnergy_index t + numRadVars * g),
                    cons i j k (x1RadFlux_index t + numRadVars * g),
                    cons i j k (x2RadFlux_index t + numRadVars * g),
                    cons i j k (x3RadFlux_index t + numRadVars * g)])"
proof -
  from ConservedToPrimitive_returns [OF assms(1)]
  obtain primVar where p: "ConservedToPrimitive t cons primVar0 indexRange = Inr primVar"
    by blast
  have "fst (reconstructed_side t primVar i j k g) =
          [cons i j k (radEnergy_index t + numRadVars * g),
           cons i j k (x1RadFlux_index t + numRadVars * g),
           cons i j k (x2RadFlux_index t + numRadVars * g),
           cons i j k (x3RadFlux_index t + numRadVars * g)]"
    if "(i, j, k) \<in> set indexRange" "g < nGroups t" for i j k g
    using reconstructed_side_round_trip [OF p that assms(2)] .
  then show ?thesis using p by blast
qed

theorem round_trip_exact_witness:
  "\<exists>primVar. ConservedToPrimitive unit_traits (uniform_field 49 1) (uniform_field 0 0) [(0, 0, 0)]
       = Inr primVar
     \<and> fst (reconstructed_side unit_traits primVar 0 0 0 0) = [49, 1, 0, 0]"
proof -
  have pos: "\<forall>(i, j, k) \<in> set [(0, 0, 0)]. \<forall>g < nGroups unit_traits.
      uniform_field 49 1 i j k (radEnergy_index unit_traits + numRadVars * g) > 0"
    by (simp add: uniform_field_def unit_traits_def radEnergy_index_def numRadVars_def)
  have c: "c_light unit_traits \<noteq> 0" by (simp add: unit_traits_def)
  from round_trip_exact [OF pos c, of "uniform_field 0 0"]
  obtain primVar where
    p: "ConservedToPrimitive unit_traits (uniform_field 49 1) (uniform_field 0 0) [(0, 0, 0)]
          = Inr primVar"
    and r: "\<forall>(i, j, k) \<in> set [(0, 0, 0)]. \<forall>g < nGroups unit_traits.
      fst (reconstructed_side unit_traits primVar i j k g) =
        [uniform_field 49 1 i j k (radEnergy_index unit_traits + numRadVars * g),
         uniform_field 49 1 i j k (x1RadFlux_index unit_traits + numRadVars * g),
         uniform_field 49 1 i j k (x2RadFlux_index unit_traits + numRadVars * g),
         uniform_field 49 1 i j k (x3RadFlux_index unit_traits + numRadVars * g)]"
    by blast
  from r have "fst (reconstructed_side unit_traits primVar 0 0 0 0) = [49, 1, 0, 0]"
    by (simp add: uniform_field_def unit_traits_def radEnergy_index_def x1RadFlux_index_def
        x2RadFlux_index_def x3RadFlux_index_def numRadVars_def)
  with p show ?thesis by blast
qed

text \<open>
  In binary64 arithmetic the flux is not always reproduced bit for bit. With \<open>c_light = 1\<close>,
  \<open>E_r = 49\<close> and \<open>Fx = 1\<close> the reduced flux is the binary64 number nearest to \<open>1 / 49\<close>,
  and its product with \<open>49\<close> rounds to \<open>1 - 2\<^sup>-\<^sup>5\<^sup>3\<close>, the binary64 number just below \<open>1\<close>.
\<close>

theorem round_trip_binary64_differs:
  "round_trip_binary64 1 49 1 = Some (1 - 1 / 2 ^ 53) \<and> round_trip_binary64 1 49 1 \<noteq> Some 1"
proof -
  have "round_trip_binary64 1 49 1 = Some (9007199254740991 / 9007199254740992)"
    by (simp add: round_trip_binary64_def reduced_flux_binary64_def unreduced_flux_binary64_def
        binary64_mul_def binary64_div_def binary64_49 binary64_49_inverse
        binary64_49_product)
  then show ?thesis by simp
qed

end
